(* ===== verification/Prelude.thy ===== *)
theory Prelude
  imports Main "HOL-Library.Word" "HOL-Library.Char_ord" "HOL-Library.List_Lexorder" "HOL-Library.Signed_Division"
begin

text \<open>
  The vocabulary every component shares: machine integers, object references, the outcome of a
  C++ call (it returns a value, or the process stops), sequencing of calls,
  \<open>for\<close> loops over lists, \<open>std::map\<close> and \<open>std::unordered_map\<close>, the flat byte memory with
  \<open>memset\<close>/\<open>memcpy\<close>, and the native (little-endian) byte image of integers.
\<close>

section \<open>Machine integers, references\<close>

type_synonym u8 = "8 word"
type_synonym u16 = "16 word"
type_synonym u32 = "32 word"
type_synonym u64 = "64 word"
type_synonym byte = "8 word"

text \<open>An object reference (a C++ pointer to a class instance or to a verbs handle): opaque,
  0 is \<open>nullptr\<close>. Addresses of raw bytes are \<open>u64\<close>, since the code computes with them.\<close>

type_synonym oref = nat

text \<open>The bounds of the C++ type \<open>int\<close>.\<close>

abbreviation INT_MAX :: int where "INT_MAX \<equiv> 2147483647"

section \<open>Outcomes of a call\<close>

text \<open>
  \<open>CheckFailed\<close>: a glog \<open>CHECK\<close> whose condition is false. \<open>LogFatal\<close>: a \<open>LOG(FATAL)\<close>
  (\<open>UNIMPLEMENTED\<close> is one). Both abort the process. \<open>Undefined\<close>: the C++ standard gives the step
  no meaning (null or dangling dereference, out-of-range vector index, signed overflow, an
  invalidated iterator). \<open>NoReturn\<close>: a loop that has not ended within the fuel it was given.
  \<open>Exited\<close>: the process has called \<open>exit\<close>.
\<close>

datatype fault = CheckFailed string | LogFatal string | Undefined string | NoReturn string | Exited int

datatype ('a, 's) outcome = Ret (val_of: 'a) (state_of: 's) | Halt fault (state_of: 's)

primrec bindO :: "('a, 's) outcome \<Rightarrow> ('a \<Rightarrow> 's \<Rightarrow> ('b, 's) outcome) \<Rightarrow> ('b, 's) outcome" where
  "bindO (Ret x s) f = f x s"
| "bindO (Halt e s) f = Halt e s"

definition check :: "bool \<Rightarrow> string \<Rightarrow> 's \<Rightarrow> (unit, 's) outcome" where
  "check b msg s = (if b then Ret () s else Halt (CheckFailed msg) s)"

definition fatal_if :: "bool \<Rightarrow> string \<Rightarrow> 's \<Rightarrow> (unit, 's) outcome" where
  "fatal_if b msg s = (if b then Halt (LogFatal msg) s else Ret () s)"

definition defined_if :: "bool \<Rightarrow> string \<Rightarrow> 's \<Rightarrow> (unit, 's) outcome" where
  "defined_if b msg s = (if b then Ret () s else Halt (Undefined msg) s)"

definition deref :: "'a option \<Rightarrow> string \<Rightarrow> 's \<Rightarrow> ('a, 's) outcome" where
  "deref p msg s = (case p of None \<Rightarrow> Halt (Undefined msg) s | Some x \<Rightarrow> Ret x s)"

definition returns :: "('a, 's) outcome \<Rightarrow> bool" where
  "returns m = (case m of Ret _ _ \<Rightarrow> True | Halt _ _ \<Rightarrow> False)"

text \<open>The range-based \<open>for\<close> loop: the body runs on each element in turn.\<close>

primrec forO :: "('x \<Rightarrow> 's \<Rightarrow> (unit, 's) outcome) \<Rightarrow> 'x list \<Rightarrow> 's \<Rightarrow> (unit, 's) outcome" where
  "forO f [] s = Ret () s"
| "forO f (x # xs) s = bindO (f x s) (\<lambda>_. forO f xs)"

text \<open>A list of requests to a service, their results dropped.\<close>

definition serve :: "('r \<Rightarrow> 's \<Rightarrow> ('v, 's) outcome) \<Rightarrow> 'r list \<Rightarrow> 's \<Rightarrow> (unit, 's) outcome" where
  "serve create rs = forO (\<lambda>r s. bindO (create r s) (\<lambda>_. Ret ())) rs"

text \<open>\<open>std::vector\<close> indexing without a bounds check: out of range is undefined.\<close>

definition nth_opt :: "'a list \<Rightarrow> nat \<Rightarrow> 'a option" where
  "nth_opt xs i = (if i < length xs then Some (xs ! i) else None)"

section \<open>Associative containers\<close>

text \<open>\<open>std::map\<close> with string keys: entries in key order; \<open>insert\<close> keeps an existing entry.\<close>

type_synonym 'v smap = "(string \<times> 'v) list"

definition smap_find :: "'v smap \<Rightarrow> string \<Rightarrow> 'v option" where
  "smap_find m k = map_of m k"

fun smap_insert :: "string \<Rightarrow> 'v \<Rightarrow> 'v smap \<Rightarrow> 'v smap" where
  "smap_insert k v [] = [(k, v)]"
| "smap_insert k v ((k', v') # m) =
     (if k = k' then (k', v') # m
      else if k < k' then (k, v) # (k', v') # m
      else (k', v') # smap_insert k v m)"

definition smap_erase :: "string \<Rightarrow> 'v smap \<Rightarrow> 'v smap" where
  "smap_erase k m = filter (\<lambda>e. fst e \<noteq> k) m"

definition smap_ok :: "'v smap \<Rightarrow> bool" where
  "smap_ok m \<longleftrightarrow> sorted (map fst m) \<and> distinct (map fst m)"

text \<open>\<open>std::unordered_map\<close>: a partial function; \<open>insert\<close> keeps an existing entry as well.\<close>

type_synonym ('k, 'v) umap = "'k \<rightharpoonup> 'v"

definition umap_find :: "('k, 'v) umap \<Rightarrow> 'k \<Rightarrow> 'v option" where
  "umap_find m k = m k"

definition umap_insert :: "'k \<Rightarrow> 'v \<Rightarrow> ('k, 'v) umap \<Rightarrow> ('k, 'v) umap" where
  "umap_insert k v m = (case m k of None \<Rightarrow> m(k \<mapsto> v) | Some _ \<Rightarrow> m)"

definition umap_erase :: "'k \<Rightarrow> ('k, 'v) umap \<Rightarrow> ('k, 'v) umap" where
  "umap_erase k m = m(k := None)"

section \<open>Byte memory\<close>

type_synonym memory = "u64 \<Rightarrow> byte"

text \<open>\<open>x - a < n\<close> on words says that \<open>x\<close> lies in the \<open>n\<close> bytes from \<open>a\<close> on.\<close>

definition memset0 :: "u64 \<Rightarrow> u64 \<Rightarrow> memory \<Rightarrow> memory" where
  "memset0 a n m = (\<lambda>x. if x - a < n then 0 else m x)"

definition mem_write :: "u64 \<Rightarrow> byte list \<Rightarrow> memory \<Rightarrow> memory" where
  "mem_write a bs m = (\<lambda>x. if unat (x - a) < length bs then bs ! unat (x - a) else m x)"

definition mem_read :: "u64 \<Rightarrow> nat \<Rightarrow> memory \<Rightarrow> byte list" where
  "mem_read a n m = map (\<lambda>i. m (a + of_nat i)) [0..<n]"

text \<open>The byte range of a buffer, as natural numbers (no wrap-around).\<close>

definition byte_range :: "u64 \<Rightarrow> u64 \<Rightarrow> nat set" where
  "byte_range a n = {unat a ..< unat a + unat n}"

section \<open>Byte image of integers\<close>

primrec nat_le_bytes :: "nat \<Rightarrow> nat \<Rightarrow> byte list" where
  "nat_le_bytes 0 k = []"
| "nat_le_bytes (Suc n) k = of_nat (k mod 256) # nat_le_bytes n (k div 256)"

primrec le_bytes_nat :: "byte list \<Rightarrow> nat" where
  "le_bytes_nat [] = 0"
| "le_bytes_nat (b # bs) = unat b + 256 * le_bytes_nat bs"

definition word_bytes :: "nat \<Rightarrow> 'a::len word \<Rightarrow> byte list" where
  "word_bytes n w = nat_le_bytes n (unat w)"

definition bytes_word :: "byte list \<Rightarrow> 'a::len word" where
  "bytes_word bs = of_nat (le_bytes_nat bs)"

text \<open>A C string: the characters before the first NUL.\<close>

definition char_byte :: "char \<Rightarrow> byte" where
  "char_byte c = of_nat (of_char c)"

definition string_bytes :: "string \<Rightarrow> byte list" where
  "string_bytes s = map char_byte s"

text \<open>The C library's \<open>atoi\<close>: white space, an optional sign, digits; what follows is ignored. It is \<open>strtol\<close>, which
  stops at the bounds of \<open>long\<close>, converted to \<open>int\<close>.\<close>

definition is_digit :: "char \<Rightarrow> bool" where
  "is_digit c \<longleftrightarrow> CHR ''0'' \<le> c \<and> c \<le> CHR ''9''"

definition is_space :: "char \<Rightarrow> bool" where
  "is_space c \<longleftrightarrow> c = CHR '' '' \<or> (9 \<le> (of_char c :: nat) \<and> (of_char c :: nat) \<le> 13)"

fun digits_value :: "nat \<Rightarrow> string \<Rightarrow> nat" where
  "digits_value v [] = v"
| "digits_value v (c # cs) =
     (if is_digit c then digits_value (10 * v + (of_char c - 48)) cs else v)"

definition c_strtol :: "string \<Rightarrow> int" where
  "c_strtol s =
     (let v = (case dropWhile is_space s of
         [] \<Rightarrow> 0
       | c # cs \<Rightarrow> if c = CHR ''-'' then - int (digits_value 0 cs)
                  else if c = CHR ''+'' then int (digits_value 0 cs)
                  else int (digits_value 0 (c # cs)))
      in max (- 9223372036854775808) (min 9223372036854775807 v))"

definition c_atoi :: "string \<Rightarrow> int" where
  "c_atoi s = sint (of_int (c_strtol s) :: u32)"

text \<open>\<open>std::to_string\<close> on integers.\<close>

fun nat_string :: "nat \<Rightarrow> string" where
  "nat_string n = (if n < 10 then [char_of (48 + n)] else nat_string (n div 10) @ [char_of (48 + n mod 10)])"

declare nat_string.simps [simp del]

definition int_string :: "int \<Rightarrow> string" where
  "int_string i = (if i < 0 then CHR ''-'' # nat_string (nat (- i)) else nat_string (nat i))"

text \<open>A loop over a list that also changes local variables.\<close>

primrec foldO :: "('x \<Rightarrow> 'l \<Rightarrow> 's \<Rightarrow> ('l, 's) outcome) \<Rightarrow> 'x list \<Rightarrow> 'l \<Rightarrow> 's \<Rightarrow> ('l, 's) outcome" where
  "foldO f [] L s = Ret L s"
| "foldO f (x # xs) L s = bindO (f x L s) (\<lambda>L s. foldO f xs L s)"

section \<open>Collections\<close>

named_theorems outcome_simps \<open>unfolding of sequenced calls\<close>
named_theorems world_frames \<open>what an operation leaves unchanged\<close>

section \<open>Lemmas on outcomes\<close>

declare case_prod_beta [outcome_simps]

lemma bindO_Ret_iff [outcome_simps]:
  "bindO m f = Ret y t \<longleftrightarrow> (\<exists>x s. m = Ret x s \<and> f x s = Ret y t)"
  by (cases m) auto

lemma bindO_assoc: "bindO (bindO m f) g = bindO m (\<lambda>x s. bindO (f x s) g)"
  by (cases m) auto

text \<open>For recursion through a sequenced call: the rest runs only on a result of the call.\<close>

lemma bindO_cong [fundef_cong]:
  "m = m' \<Longrightarrow> (\<And>x s. m' = Ret x s \<Longrightarrow> f x s = g x s) \<Longrightarrow> bindO m f = bindO m' g"
  by (cases m') auto

lemma check_Ret_iff [outcome_simps]: "check b msg s = Ret u t \<longleftrightarrow> b \<and> t = s"
  by (auto simp: check_def)

lemma fatal_if_Ret_iff [outcome_simps]: "fatal_if b msg s = Ret u t \<longleftrightarrow> \<not> b \<and> t = s"
  by (auto simp: fatal_if_def)

lemma defined_if_Ret_iff [outcome_simps]: "defined_if b msg s = Ret u t \<longleftrightarrow> b \<and> t = s"
  by (auto simp: defined_if_def)

lemma deref_Ret_iff [outcome_simps]: "deref p msg s = Ret x t \<longleftrightarrow> p = Some x \<and> t = s"
  by (auto simp: deref_def split: option.splits)

lemma check_simps [simp]:
  "check True msg s = Ret () s" "check False msg s = Halt (CheckFailed msg) s"
  by (auto simp: check_def)

lemma fatal_if_simps [simp]:
  "fatal_if False msg s = Ret () s" "fatal_if True msg s = Halt (LogFatal msg) s"
  by (auto simp: fatal_if_def)

lemma defined_if_simps [simp]:
  "defined_if True msg s = Ret () s" "defined_if False msg s = Halt (Undefined msg) s"
  by (auto simp: defined_if_def)

lemma deref_simps [simp]:
  "deref (Some x) msg s = Ret x s" "deref None msg s = Halt (Undefined msg) s"
  by (auto simp: deref_def)

lemma returns_simps [simp]: "returns (Ret x s)" "\<not> returns (Halt e s)"
  by (auto simp: returns_def)

lemma returns_bindO_iff [outcome_simps]:
  "returns (bindO m f) \<longleftrightarrow> (\<exists>x s. m = Ret x s \<and> returns (f x s))"
  by (cases m) auto

lemma returnsE: "returns m \<Longrightarrow> (\<And>x s. m = Ret x s \<Longrightarrow> P) \<Longrightarrow> P"
  by (cases m) auto

text \<open>Loop rules: an invariant of the body is an invariant of the loop; a body that always returns
  makes the loop return.\<close>

lemma forO_invariant:
  assumes "forO f xs s = Ret u t" and "I s"
    and "\<And>x s u t. x \<in> set xs \<Longrightarrow> I s \<Longrightarrow> f x s = Ret u t \<Longrightarrow> I t"
  shows "I t"
  using assms
proof (induction xs arbitrary: s)
  case Nil
  then show ?case by simp
next
  case (Cons x xs)
  from Cons.prems(1) obtain v s' where "f x s = Ret v s'" and rest: "forO f xs s' = Ret u t"
    by (auto simp: outcome_simps)
  with Cons.prems(2,3) have "I s'" by (metis list.set_intros(1))
  with rest show ?case
    using Cons.IH Cons.prems(3) by (meson list.set_intros(2))
qed

lemma forO_append: "forO f (xs @ ys) s = bindO (forO f xs s) (\<lambda>_. forO f ys)"
  by (induction xs arbitrary: s) (auto simp: bindO_assoc intro!: arg_cong2 [where f = bindO])

lemma nth_opt_Some_iff: "nth_opt xs i = Some x \<longleftrightarrow> i < length xs \<and> xs ! i = x"
  by (auto simp: nth_opt_def)

section \<open>Get-or-create services\<close>

text \<open>A service that hands out a shared object per key and creates it on first use: the device map
  of \<open>RDMADevice::get_device\<close> and the completion-queue map of a device. Each request is one section
  under the service's lock, so an interleaving of threads is a list of requests.\<close>

locale get_or_create =
  fixes lookup :: "'s \<Rightarrow> 'k \<Rightarrow> 'v option"
    and create :: "'r \<Rightarrow> 's \<Rightarrow> ('v, 's) outcome"
    and key :: "'r \<Rightarrow> 'k"
  assumes hit: "lookup s (key r) = Some v \<Longrightarrow> create r s = Ret v s"
    and registers: "create r s = Ret v t \<Longrightarrow> lookup t (key r) = Some v"
    and keeps: "create r s = Ret v t \<Longrightarrow> lookup s k = Some v' \<Longrightarrow> lookup t k = Some v'"
begin

lemma serve_keeps:
  assumes "serve create rs s = Ret u t" and "lookup s k = Some v"
  shows "lookup t k = Some v"
  using assms(1)[unfolded serve_def] assms(2)
  by (rule forO_invariant) (auto simp: outcome_simps intro: keeps)

lemma create_again:
  assumes "create r s = Ret v s1" and "serve create rs s1 = Ret u t" and "key r' = key r"
  shows "create r' t = Ret v t"
  using assms by (metis hit registers serve_keeps)

lemma serve_same_key:
  assumes "create r s = Ret v s1" and "serve create rs s1 = Ret u t" and "key r' = key r"
    and "create r' t = Ret v' t'"
  shows "v' = v \<and> t' = t"
  using assms create_again by fastforce

end

section \<open>Container laws\<close>

text \<open>What the channels and devices rely on of an associative container.\<close>

locale registry =
  fixes find :: "'m \<Rightarrow> 'k \<Rightarrow> 'v option"
    and insert :: "'k \<Rightarrow> 'v \<Rightarrow> 'm \<Rightarrow> 'm"
    and erase :: "'k \<Rightarrow> 'm \<Rightarrow> 'm"
    and inv :: "'m \<Rightarrow> bool"
  assumes find_insert: "inv m \<Longrightarrow>
      find (insert k v m) k' = (if k' = k \<and> find m k = None then Some v else find m k')"
    and find_erase: "inv m \<Longrightarrow> find (erase k m) k' = (if k' = k then None else find m k')"
    and inv_insert: "inv m \<Longrightarrow> inv (insert k v m)"
    and inv_erase: "inv m \<Longrightarrow> inv (erase k m)"
begin

lemma find_insert_new: "inv m \<Longrightarrow> find m k = None \<Longrightarrow> find (insert k v m) k = Some v"
  by (simp add: find_insert)

lemma insert_keeps: "inv m \<Longrightarrow> find m k' = Some v' \<Longrightarrow> find (insert k v m) k' = Some v'"
  by (auto simp: find_insert)

lemma insert_insert_same:
  "inv m \<Longrightarrow> find (insert k v2 (insert k v1 m)) k = find (insert k v1 m) k"
  by (auto simp: find_insert inv_insert)

lemma find_erase_insert:
  "inv m \<Longrightarrow> find m k = None \<Longrightarrow> find (erase k (insert k v m)) k' = find m k'"
  by (auto simp: find_insert find_erase inv_insert)

end

lemma smap_insert_keys: "fst ` set (smap_insert k v m) = insert k (fst ` set m)"
  by (induction k v m rule: smap_insert.induct) auto

lemma smap_ok_Cons: "smap_ok ((k, v) # m) \<longleftrightarrow> smap_ok m \<and> (\<forall>k' \<in> fst ` set m. k < k')"
  by (auto simp: smap_ok_def order_le_less)

lemma smap_ok_insert: "smap_ok m \<Longrightarrow> smap_ok (smap_insert k v m)"
proof (induction k v m rule: smap_insert.induct)
  case (1 k v)
  then show ?case by (simp add: smap_ok_def)
next
  case (2 k v k' v' m)
  then show ?case by (auto simp: smap_ok_Cons smap_insert_keys)
qed

lemma smap_find_insert:
  "smap_ok m \<Longrightarrow>
   smap_find (smap_insert k v m) k' = (if k' = k \<and> smap_find m k = None then Some v else smap_find m k')"
proof (induction k v m rule: smap_insert.induct)
  case (1 k v)
  then show ?case by (simp add: smap_find_def)
next
  case (2 k v k1 v1 m)
  show ?case
  proof (cases "k < k1")
    case True
    then have "k \<notin> fst ` set ((k1, v1) # m)"
      using "2.prems" by (auto simp: smap_ok_Cons)
    then show ?thesis
      using True by (auto simp: smap_find_def map_of_eq_None_iff)
  next
    case False
    then show ?thesis
      using 2 by (auto simp: smap_find_def smap_ok_Cons)
  qed
qed

lemma smap_ok_erase: "smap_ok m \<Longrightarrow> smap_ok (smap_erase k m)"
  by (induction m) (auto simp: smap_erase_def smap_ok_Cons)

lemma smap_find_erase: "smap_find (smap_erase k m) k' = (if k' = k then None else smap_find m k')"
  by (induction m) (auto simp: smap_find_def smap_erase_def)

lemma smap_ok_Nil [simp]: "smap_ok []"
  by (simp add: smap_ok_def)

interpretation smap: registry smap_find smap_insert smap_erase smap_ok
  by unfold_locales
    (auto simp: smap_find_insert smap_find_erase smap_ok_insert smap_ok_erase)

interpretation umap: registry umap_find umap_insert umap_erase "\<lambda>_. True"
  by unfold_locales (auto simp: umap_find_def umap_insert_def umap_erase_def split: option.splits)

lemma u8_le_255: "(x :: u8) \<le> 255"
proof -
  have "(255 :: u8) = - 1" by simp
  then show ?thesis by (metis word_order.extremum)
qed

section \<open>Memory lemmas\<close>

lemma length_mem_read [simp]: "length (mem_read a n m) = n"
  by (simp add: mem_read_def)

lemma nth_mem_read: "i < n \<Longrightarrow> mem_read a n m ! i = m (a + of_nat i)"
  by (simp add: mem_read_def)

lemma unat_of_nat_small: "i < 2 ^ 64 \<Longrightarrow> unat (of_nat i :: u64) = i"
  by (simp add: unat_of_nat)

lemma unat_add_sub_cancel: "i < 2 ^ 64 \<Longrightarrow> unat (a + of_nat i - (a :: u64)) = i"
  by (simp add: unat_of_nat_small)

lemma mem_read_write:
  assumes "length bs \<le> 2 ^ 64"
  shows "mem_read a (length bs) (mem_write a bs m) = bs"
proof (rule nth_equalityI)
  fix i assume "i < length (mem_read a (length bs) (mem_write a bs m))"
  then have "i < length bs" by simp
  with assms have "i < 2 ^ 64" by linarith
  with \<open>i < length bs\<close> show "mem_read a (length bs) (mem_write a bs m) ! i = bs ! i"
    by (simp add: nth_mem_read mem_write_def unat_of_nat_small)
qed simp

lemma memset0_outside: "\<not> x - a < n \<Longrightarrow> memset0 a n m x = m x"
  by (simp add: memset0_def)

lemma mem_write_outside: "\<not> unat (x - a) < length bs \<Longrightarrow> mem_write a bs m x = m x"
  by (simp add: mem_write_def)

text \<open>A range that does not wrap: membership on words is membership on naturals.\<close>

lemma in_range_iff:
  assumes "unat a + unat n \<le> 2 ^ 64"
  shows "x - a < (n :: u64) \<longleftrightarrow> unat x \<in> byte_range a n"
proof (cases "a \<le> x")
  case True
  then have "unat (x - a) = unat x - unat a"
    by (simp add: unat_sub)
  with True show ?thesis
    by (auto simp: byte_range_def word_less_nat_alt word_le_nat_alt)
next
  case False
  then have lt: "unat x < unat a" by (simp add: word_le_nat_alt)
  have "unat (x - a) = unat x + (2 ^ 64 - unat a)"
    using lt unsigned_less [of a, where ?'a = nat] by (simp add: unat_sub_if' word_le_nat_alt)
  with assms lt show ?thesis
    by (auto simp: byte_range_def word_less_nat_alt)
qed

section \<open>Byte image lemmas\<close>

lemma length_nat_le_bytes [simp]: "length (nat_le_bytes n k) = n"
  by (induction n arbitrary: k) auto

lemma le_bytes_nat_le: "le_bytes_nat (nat_le_bytes n k) = k mod 256 ^ n"
proof (induction n arbitrary: k)
  case 0
  then show ?case by simp
next
  case (Suc n)
  have "unat (of_nat (k mod 256) :: byte) = k mod 256"
    by (simp add: unat_of_nat)
  with Suc show ?case
    by (simp add: mod_mult2_eq)
qed

lemma length_word_bytes [simp]: "length (word_bytes n w) = n"
  by (simp add: word_bytes_def)

lemma bytes_word_bytes:
  fixes w :: "'a::len word"
  assumes "2 ^ LENGTH('a) \<le> (256 :: nat) ^ n"
  shows "bytes_word (word_bytes n w) = w"
proof -
  have "unat w < 256 ^ n"
    using assms unsigned_less [of w, where ?'a = nat] by linarith
  then show ?thesis
    by (simp add: bytes_word_def word_bytes_def le_bytes_nat_le)
qed

lemma length_string_bytes [simp]: "length (string_bytes s) = length s"
  by (simp add: string_bytes_def)

section \<open>Byte order\<close>

text \<open>\<open>include/rdma_base.h\<close> on a little-endian machine: \<open>bswap_64\<close> turns the eight bytes around.\<close>

definition bswap_64 :: "u64 \<Rightarrow> u64" where
  "bswap_64 x = bytes_word (rev (word_bytes 8 x))"

definition htonll :: "u64 \<Rightarrow> u64" where
  "htonll x = bswap_64 x"

definition ntohll :: "u64 \<Rightarrow> u64" where
  "ntohll x = bswap_64 x"

lemma nat_le_bytes_le: "nat_le_bytes (length bs) (le_bytes_nat bs) = bs"
proof (induction bs)
  case (Cons b bs)
  have "unat b < 2 ^ LENGTH(8)" by (rule unsigned_less)
  with Cons show ?case by simp
qed simp

lemma le_bytes_nat_less: "le_bytes_nat bs < 256 ^ length bs"
proof (induction bs)
  case (Cons b bs)
  have "unat b < 2 ^ LENGTH(8)" by (rule unsigned_less)
  with Cons show ?case by simp
qed simp

lemma word_bytes_word:
  assumes "length bs = 8" shows "word_bytes 8 (bytes_word bs :: u64) = bs"
proof -
  have "le_bytes_nat bs < 2 ^ LENGTH(64)" using le_bytes_nat_less [of bs] assms by simp
  then have "unat (bytes_word bs :: u64) = le_bytes_nat bs" unfolding bytes_word_def by (subst unat_of_nat) simp
  then show ?thesis using nat_le_bytes_le [of bs] assms by (simp add: word_bytes_def)
qed

lemma bswap_64_bswap_64 [simp]: "bswap_64 (bswap_64 x) = x"
proof -
  have "(bytes_word (word_bytes 8 x) :: u64) = x" by (rule bytes_word_bytes) simp
  then show ?thesis by (simp add: bswap_64_def word_bytes_word)
qed

lemma ntohll_htonll: "ntohll (htonll x) = x" "htonll (ntohll x) = x"
  by (simp_all add: htonll_def ntohll_def)

section \<open>Signed division\<close>

text \<open>C++ division cuts towards zero.\<close>

lemma sdiv_nonneg: "0 \<le> (a :: int) \<Longrightarrow> 0 < b \<Longrightarrow> a sdiv b = a div b"
  by (cases "a = 0") (simp_all add: signed_divide_int_def)

end
