(* ===== verification/System_Interface.thy ===== *)
theory System_Interface
  imports Prelude
begin

text \<open>
  The code the repository calls but does not contain: the verbs library (\<open>libibverbs\<close>) and the
  POSIX calls on sockets and memory. Every such function is a field of the record \<open>sys\<close>, a
  parameter of the definitions that call it; the state it acts on has the type variable \<open>'w\<close>.
  The data types below are the arguments and results the sources build or read. What a theorem
  needs to know of a call is a hypothesis of that theorem, stated with the predicates at the end.

  The last section is a small loopback platform, an instance of \<open>sys\<close> on which the witnesses
  run. It is no model of the verbs library.
\<close>

section \<open>Data passed to and from the verbs library\<close>

type_synonym ibv_gid = "byte list" \<comment> \<open>the union's \<open>raw[16]\<close>\<close>
type_synonym ibv_mtu = "32 word"

abbreviation (input) IBV_MTU_256 :: ibv_mtu where "IBV_MTU_256 \<equiv> 1"
abbreviation (input) IBV_MTU_1024 :: ibv_mtu where "IBV_MTU_1024 \<equiv> 3"
abbreviation (input) IBV_MTU_4096 :: ibv_mtu where "IBV_MTU_4096 \<equiv> 5"
abbreviation (input) IBV_LINK_LAYER_INFINIBAND :: u8 where "IBV_LINK_LAYER_INFINIBAND \<equiv> 1"
abbreviation (input) IBV_LINK_LAYER_ETHERNET :: u8 where "IBV_LINK_LAYER_ETHERNET \<equiv> 2"

datatype ibv_access = IBV_ACCESS_LOCAL_WRITE | IBV_ACCESS_REMOTE_READ | IBV_ACCESS_REMOTE_WRITE

datatype ibv_port_state = IBV_PORT_ACTIVE | IBV_PORT_NOT_ACTIVE

record ibv_port_attr =
  port_state :: ibv_port_state
  port_active_mtu :: ibv_mtu
  port_lid :: u16
  port_link_layer :: u8

record ibv_device_attr =
  phys_port_cnt :: u8

datatype ibv_qp_type = IBV_QPT_RC

record ibv_qp_init_attr =
  qp_type :: ibv_qp_type
  sq_sig_all :: int
  send_cq :: oref
  recv_cq :: oref
  cap_max_send_wr :: u32
  cap_max_recv_wr :: u32
  cap_max_send_sge :: u32
  cap_max_recv_sge :: u32
  cap_max_inline_data :: u32
  init_srq :: oref

datatype ibv_qp_state = IBV_QPS_RESET | IBV_QPS_INIT | IBV_QPS_RTR | IBV_QPS_RTS

datatype ibv_qp_attr_mask =
    IBV_QP_STATE | IBV_QP_PKEY_INDEX | IBV_QP_PORT | IBV_QP_ACCESS_FLAGS | IBV_QP_AV
  | IBV_QP_PATH_MTU | IBV_QP_DEST_QPN | IBV_QP_RQ_PSN | IBV_QP_MAX_DEST_RD_ATOMIC
  | IBV_QP_MIN_RNR_TIMER | IBV_QP_TIMEOUT | IBV_QP_RETRY_CNT | IBV_QP_RNR_RETRY
  | IBV_QP_SQ_PSN | IBV_QP_MAX_QP_RD_ATOMIC

record ibv_qp_attr =
  at_qp_state :: ibv_qp_state
  at_port_num :: u8
  at_pkey_index :: u16
  at_access_flags :: "ibv_access set"
  at_path_mtu :: ibv_mtu
  at_dest_qp_num :: u32
  at_rq_psn :: u32
  at_max_dest_rd_atomic :: u8
  at_min_rnr_timer :: u8
  ah_is_global :: u8
  ah_dlid :: u16
  ah_sl :: u8
  ah_src_path_bits :: u8
  ah_port_num :: u8
  grh_dgid :: ibv_gid
  grh_flow_label :: u32
  grh_hop_limit :: u8
  grh_sgid_index :: u8
  grh_traffic_class :: u8
  at_timeout :: u8
  at_retry_cnt :: u8
  at_rnr_retry :: u8
  at_sq_psn :: u32
  at_max_rd_atomic :: u8

text \<open>\<open>memset(&attr, 0, sizeof(attr))\<close>; the enumerator of value 0 is \<open>IBV_QPS_RESET\<close>.\<close>

definition zero_qp_attr :: ibv_qp_attr where
  "zero_qp_attr = \<lparr>at_qp_state = IBV_QPS_RESET, at_port_num = 0, at_pkey_index = 0,
     at_access_flags = {}, at_path_mtu = 0, at_dest_qp_num = 0, at_rq_psn = 0,
     at_max_dest_rd_atomic = 0, at_min_rnr_timer = 0, ah_is_global = 0, ah_dlid = 0, ah_sl = 0,
     ah_src_path_bits = 0, ah_port_num = 0, grh_dgid = replicate 16 0, grh_flow_label = 0,
     grh_hop_limit = 0, grh_sgid_index = 0, grh_traffic_class = 0, at_timeout = 0,
     at_retry_cnt = 0, at_rnr_retry = 0, at_sq_psn = 0, at_max_rd_atomic = 0\<rparr>"

record ibv_sge =
  sge_addr :: u64
  sge_length :: u32
  sge_lkey :: u32

datatype ibv_wr_opcode =
    IBV_WR_SEND_WITH_IMM | IBV_WR_RDMA_WRITE | IBV_WR_RDMA_WRITE_WITH_IMM | IBV_WR_RDMA_READ

datatype ibv_send_flag = IBV_SEND_SIGNALED

text \<open>Fields the code leaves uninitialised are \<open>None\<close>.\<close>

record ibv_send_wr =
  swr_id :: oref
  swr_sg_list :: "ibv_sge list"
  swr_opcode :: ibv_wr_opcode
  swr_send_flags :: "ibv_send_flag set"
  swr_imm_data :: "u32 option"
  swr_remote_addr :: "u64 option"
  swr_rkey :: "u32 option"

record ibv_recv_wr =
  rwr_id :: oref
  rwr_sg_list :: "ibv_sge list"

datatype ibv_wc_status = IBV_WC_SUCCESS | IBV_WC_ERR nat

datatype ibv_wc_opcode =
    IBV_WC_SEND | IBV_WC_RECV | IBV_WC_RDMA_WRITE | IBV_WC_RDMA_READ
  | IBV_WC_RECV_RDMA_WITH_IMM | IBV_WC_OTHER nat

record ibv_wc =
  wc_wr_id :: oref
  wc_status :: ibv_wc_status
  wc_opcode :: ibv_wc_opcode
  wc_byte_len :: u32
  wc_imm_data :: u32
  wc_with_imm :: bool

datatype sockopt = IP_TOS | SO_PRIORITY | SO_REUSEADDR

section \<open>The calls\<close>

record 'w sys =
  ibv_get_device_list :: "'w \<Rightarrow> string list option"
  ibv_open_device :: "nat \<Rightarrow> 'w \<Rightarrow> oref \<times> 'w"
  ibv_close_device :: "oref \<Rightarrow> 'w \<Rightarrow> int \<times> 'w"
  ibv_query_device :: "oref \<Rightarrow> 'w \<Rightarrow> int \<times> ibv_device_attr"
  ibv_query_port :: "oref \<Rightarrow> u8 \<Rightarrow> 'w \<Rightarrow> int \<times> ibv_port_attr"
  ibv_query_gid :: "oref \<Rightarrow> u8 \<Rightarrow> u8 \<Rightarrow> 'w \<Rightarrow> int \<times> ibv_gid"
  ibv_create_comp_channel :: "oref \<Rightarrow> 'w \<Rightarrow> oref \<times> 'w"
  ibv_alloc_pd :: "oref \<Rightarrow> 'w \<Rightarrow> oref \<times> 'w"
  ibv_create_cq :: "oref \<Rightarrow> int \<Rightarrow> oref \<Rightarrow> oref \<Rightarrow> int \<Rightarrow> 'w \<Rightarrow> oref \<times> 'w"
  ibv_create_qp :: "oref \<Rightarrow> ibv_qp_init_attr \<Rightarrow> 'w \<Rightarrow> oref \<times> 'w"
  ibv_qp_num :: "oref \<Rightarrow> 'w \<Rightarrow> u32"
  ibv_query_qp :: "oref \<Rightarrow> 'w \<Rightarrow> int \<times> ibv_qp_attr \<times> ibv_qp_init_attr"
  ibv_modify_qp :: "oref \<Rightarrow> ibv_qp_attr \<Rightarrow> ibv_qp_attr_mask set \<Rightarrow> 'w \<Rightarrow> int \<times> 'w"
  ibv_reg_mr :: "oref \<Rightarrow> u64 \<Rightarrow> u64 \<Rightarrow> ibv_access set \<Rightarrow> 'w \<Rightarrow> oref \<times> 'w"
  ibv_dereg_mr :: "oref \<Rightarrow> 'w \<Rightarrow> int \<times> 'w"
  ibv_mr_lkey :: "oref \<Rightarrow> 'w \<Rightarrow> u32"
  ibv_mr_rkey :: "oref \<Rightarrow> 'w \<Rightarrow> u32"
  ibv_post_send :: "oref \<Rightarrow> ibv_send_wr \<Rightarrow> 'w \<Rightarrow> int \<times> 'w"
  ibv_post_recv :: "oref \<Rightarrow> ibv_recv_wr \<Rightarrow> 'w \<Rightarrow> int \<times> 'w"
  ibv_poll_cq :: "oref \<Rightarrow> int \<Rightarrow> memory \<Rightarrow> 'w \<Rightarrow> (int \<times> ibv_wc list) \<times> memory \<times> 'w"
  os_posix_memalign :: "u64 \<Rightarrow> u64 \<Rightarrow> 'w \<Rightarrow> (int \<times> u64) \<times> 'w"
  os_pagesize :: u64
  os_sysconf_linesize :: int
  os_linesize_file :: "string option option"
  os_socket :: "'w \<Rightarrow> int \<times> 'w"
  os_send :: "int \<Rightarrow> byte list \<Rightarrow> 'w \<Rightarrow> int \<times> 'w"
  os_recv :: "int \<Rightarrow> nat \<Rightarrow> 'w \<Rightarrow> (int \<times> byte list) \<times> 'w"
  os_getsockname :: "int \<Rightarrow> 'w \<Rightarrow> string \<times> u16"
  os_connect :: "int \<Rightarrow> string \<times> u16 \<Rightarrow> 'w \<Rightarrow> int \<times> 'w"
  os_bind :: "int \<Rightarrow> string \<times> u16 \<Rightarrow> 'w \<Rightarrow> int \<times> 'w"
  os_listen :: "int \<Rightarrow> int \<Rightarrow> 'w \<Rightarrow> int \<times> 'w"
  os_accept :: "int \<Rightarrow> 'w \<Rightarrow> (int \<times> string \<times> u16) \<times> 'w"
  os_getsockopt :: "int \<Rightarrow> sockopt \<Rightarrow> 'w \<Rightarrow> int \<times> int"
  os_setsockopt :: "int \<Rightarrow> sockopt \<Rightarrow> int \<Rightarrow> 'w \<Rightarrow> int \<times> 'w"

section \<open>The base of the program state\<close>

text \<open>\<open>hw\<close> is the state behind the calls; \<open>next_ref\<close> is the reference the next \<open>new\<close> returns.
  The components extend this record with their own objects.\<close>

record 'w sys_world =
  hw :: 'w
  next_ref :: oref

definition hw_call :: "('w \<Rightarrow> 'a \<times> 'w) \<Rightarrow> ('w, 'z) sys_world_scheme \<Rightarrow>
    ('a, ('w, 'z) sys_world_scheme) outcome" where
  "hw_call f w = (case f (hw w) of (x, h) \<Rightarrow> Ret x (w\<lparr>hw := h\<rparr>))"

section \<open>Documented behaviour, as predicates\<close>

text \<open>\<open>recv\<close>(2): a positive result is the number of bytes delivered, at most the number asked for.\<close>

definition recv_bounded :: "'w sys \<Rightarrow> bool" where
  "recv_bounded S \<longleftrightarrow> (\<forall>sock n h r bs h'. os_recv S sock n h = ((r, bs), h') \<and> r > 0 \<longrightarrow>
     length bs = nat r \<and> nat r \<le> n)"

text \<open>\<open>send\<close>(2) accepts at most the bytes it was given.\<close>

definition send_bounded :: "'w sys \<Rightarrow> bool" where
  "send_bounded S \<longleftrightarrow> (\<forall>sock bs h. fst (os_send S sock bs h) \<le> int (length bs))"

text \<open>A connected stream socket: \<open>rx\<close> is the bytes still to arrive, in order, and \<open>tx\<close> the bytes
  accepted for the peer. While there is input, \<open>recv\<close> for \<open>n > 0\<close> bytes delivers a nonempty prefix
  of at most \<open>n\<close>; \<open>send\<close> accepts the whole message.\<close>

definition stream_socket :: "'w sys \<Rightarrow> int \<Rightarrow> ('w \<Rightarrow> byte list) \<Rightarrow> ('w \<Rightarrow> byte list) \<Rightarrow> bool" where
  "stream_socket S sock rx tx \<longleftrightarrow>
     (\<forall>h n. n > 0 \<and> rx h \<noteq> [] \<longrightarrow>
       (\<exists>k h'. 0 < k \<and> k \<le> n \<and> k \<le> length (rx h) \<and>
          os_recv S sock n h = ((int k, take k (rx h)), h') \<and> rx h' = drop k (rx h) \<and> tx h' = tx h)) \<and>
     (\<forall>h bs. \<exists>h'. os_send S sock bs h = (int (length bs), h') \<and>
        rx h' = rx h \<and> tx h' = tx h @ bs)"

text \<open>The peer has closed the connection: every \<open>recv\<close> returns 0.\<close>

definition peer_closed :: "'w sys \<Rightarrow> int \<Rightarrow> bool" where
  "peer_closed S sock \<longleftrightarrow> (\<forall>n h. fst (fst (os_recv S sock n h)) = 0)"

text \<open>The state machine of a reliable-connection queue pair (\<open>ibv_modify_qp\<close>(3)): the attributes each
  transition requires, \<open>None\<close> for a transition that does not exist.\<close>

fun qp_required :: "ibv_qp_state \<Rightarrow> ibv_qp_state \<Rightarrow> ibv_qp_attr_mask set option" where
  "qp_required s IBV_QPS_RESET = Some {IBV_QP_STATE}"
| "qp_required IBV_QPS_RESET IBV_QPS_INIT =
     Some {IBV_QP_STATE, IBV_QP_PKEY_INDEX, IBV_QP_PORT, IBV_QP_ACCESS_FLAGS}"
| "qp_required IBV_QPS_INIT IBV_QPS_INIT = Some {IBV_QP_STATE}"
| "qp_required IBV_QPS_INIT IBV_QPS_RTR =
     Some {IBV_QP_STATE, IBV_QP_AV, IBV_QP_PATH_MTU, IBV_QP_DEST_QPN, IBV_QP_RQ_PSN,
       IBV_QP_MAX_DEST_RD_ATOMIC, IBV_QP_MIN_RNR_TIMER}"
| "qp_required IBV_QPS_RTR IBV_QPS_RTS =
     Some {IBV_QP_STATE, IBV_QP_TIMEOUT, IBV_QP_RETRY_CNT, IBV_QP_RNR_RETRY, IBV_QP_SQ_PSN,
       IBV_QP_MAX_QP_RD_ATOMIC}"
| "qp_required IBV_QPS_RTS IBV_QPS_RTS = Some {IBV_QP_STATE}"
| "qp_required _ _ = None"

text \<open>The queue pair follows the machine on the attribute values the device accepts (\<open>valid\<close>).\<close>

definition qp_machine :: "'w sys \<Rightarrow> oref \<Rightarrow> ('w \<Rightarrow> ibv_qp_state) \<Rightarrow> (ibv_qp_attr \<Rightarrow> bool) \<Rightarrow> bool" where
  "qp_machine S qp st valid \<longleftrightarrow> (\<forall>attr flags h req.
     qp_required (st h) (at_qp_state attr) = Some req \<and> req \<subseteq> flags \<and> valid attr \<longrightarrow>
       fst (ibv_modify_qp S qp attr flags h) = 0 \<and> st (snd (ibv_modify_qp S qp attr flags h)) = at_qp_state attr)"

section \<open>A loopback platform for the witnesses\<close>

record lb_state =
  lb_next :: nat
  lb_brk :: u64
  lb_rx :: "byte list"
  lb_tx :: "byte list"
  lb_sends :: "(oref \<times> ibv_send_wr) list"
  lb_recvs :: "(oref \<times> ibv_recv_wr) list"
  lb_qp :: "ibv_qp_state"
  lb_cqes :: "ibv_wc list"
  lb_opts :: "(sockopt \<times> int) list"

definition lb_init :: lb_state where
  "lb_init = \<lparr>lb_next = 100, lb_brk = 4096, lb_rx = [], lb_tx = [], lb_sends = [], lb_recvs = [],
     lb_qp = IBV_QPS_RESET, lb_cqes = [], lb_opts = []\<rparr>"

definition lb_fresh :: "lb_state \<Rightarrow> oref \<times> lb_state" where
  "lb_fresh h = (lb_next h, h\<lparr>lb_next := Suc (lb_next h)\<rparr>)"

definition lb_port :: ibv_port_attr where
  "lb_port = \<lparr>port_state = IBV_PORT_ACTIVE, port_active_mtu = IBV_MTU_1024, port_lid = 0,
     port_link_layer = IBV_LINK_LAYER_ETHERNET\<rparr>"

definition lb_init_attr :: ibv_qp_init_attr where
  "lb_init_attr = \<lparr>qp_type = IBV_QPT_RC, sq_sig_all = 0, send_cq = 0, recv_cq = 0,
     cap_max_send_wr = 0, cap_max_recv_wr = 0, cap_max_send_sge = 0, cap_max_recv_sge = 0,
     cap_max_inline_data = 0, init_srq = 0\<rparr>"

definition loopback :: "lb_state sys" where
  "loopback = \<lparr>
     ibv_get_device_list = (\<lambda>h. Some [''mlx5_0'', ''mlx5_1'']),
     ibv_open_device = (\<lambda>i. lb_fresh),
     ibv_close_device = (\<lambda>ctx h. (0, h)),
     ibv_query_device = (\<lambda>ctx h. (0, \<lparr>phys_port_cnt = 1\<rparr>)),
     ibv_query_port = (\<lambda>ctx p h. (0, lb_port)),
     ibv_query_gid = (\<lambda>ctx p i h. (0, replicate 16 i)),
     ibv_create_comp_channel = (\<lambda>ctx. lb_fresh),
     ibv_alloc_pd = (\<lambda>ctx. lb_fresh),
     ibv_create_cq = (\<lambda>ctx n cb ch v. lb_fresh),
     ibv_create_qp = (\<lambda>pd a. lb_fresh),
     ibv_qp_num = (\<lambda>qp h. of_nat qp),
     ibv_query_qp = (\<lambda>qp h. (0, zero_qp_attr\<lparr>at_qp_state := lb_qp h\<rparr>, lb_init_attr)),
     ibv_modify_qp = (\<lambda>qp a m h.
        case qp_required (lb_qp h) (at_qp_state a) of None \<Rightarrow> (22, h)
        | Some req \<Rightarrow> if req \<subseteq> m then (0, h\<lparr>lb_qp := at_qp_state a\<rparr>) else (22, h)),
     ibv_reg_mr = (\<lambda>pd a n f. lb_fresh),
     ibv_dereg_mr = (\<lambda>mr h. (0, h)),
     ibv_mr_lkey = (\<lambda>mr h. of_nat mr),
     ibv_mr_rkey = (\<lambda>mr h. of_nat mr),
     ibv_post_send = (\<lambda>qp wr h. (0, h\<lparr>lb_sends := lb_sends h @ [(qp, wr)]\<rparr>)),
     ibv_post_recv = (\<lambda>qp wr h. (0, h\<lparr>lb_recvs := lb_recvs h @ [(qp, wr)]\<rparr>)),
     ibv_poll_cq = (\<lambda>cq n m h.
        ((int (length (take (nat n) (lb_cqes h))), take (nat n) (lb_cqes h)), m,
          h\<lparr>lb_cqes := drop (nat n) (lb_cqes h)\<rparr>)),
     os_posix_memalign = (\<lambda>al n h. ((0, lb_brk h), h\<lparr>lb_brk := lb_brk h + n\<rparr>)),
     os_pagesize = 4096,
     os_sysconf_linesize = 0,
     os_linesize_file = Some (Some ''64''),
     os_socket = (\<lambda>h. (3, h)),
     os_send = (\<lambda>s bs h. (int (length bs), h\<lparr>lb_tx := lb_tx h @ bs\<rparr>)),
     os_recv = (\<lambda>s n h.
        ((int (length (take (min n 2) (lb_rx h))), take (min n 2) (lb_rx h)),
          h\<lparr>lb_rx := drop (min n 2) (lb_rx h)\<rparr>)),
     os_getsockname = (\<lambda>s h. (''12.12.12.111'', 2020)),
     os_connect = (\<lambda>s a h. (0, h)),
     os_bind = (\<lambda>s a h. (0, h)),
     os_listen = (\<lambda>s n h. (0, h)),
     os_accept = (\<lambda>s h. ((4, ''12.12.12.113'', 60878), h)),
     os_getsockopt = (\<lambda>s k h. (0, case map_of (lb_opts h) k of None \<Rightarrow> 0 | Some v \<Rightarrow> v)),
     os_setsockopt = (\<lambda>s k v h. (0, h\<lparr>lb_opts := (k, v) # lb_opts h\<rparr>))\<rparr>"

section \<open>Lemmas\<close>

lemma hw_call_Ret_iff [outcome_simps]:
  "hw_call f w = Ret x t \<longleftrightarrow> x = fst (f (hw w)) \<and> t = w\<lparr>hw := snd (f (hw w))\<rparr>"
  by (auto simp: hw_call_def split: prod.splits)

lemma hw_call_eq: "hw_call f w = Ret (fst (f (hw w))) (w\<lparr>hw := snd (f (hw w))\<rparr>)"
  by (simp add: hw_call_def split: prod.splits)

lemma loopback_recv:
  assumes "n > 0" and "lb_rx h \<noteq> []"
  shows "\<exists>k h'. 0 < k \<and> k \<le> n \<and> k \<le> length (lb_rx h) \<and>
     os_recv loopback sock n h = ((int k, take k (lb_rx h)), h') \<and>
     lb_rx h' = drop k (lb_rx h) \<and> lb_tx h' = lb_tx h"
proof -
  let ?k = "min (length (lb_rx h)) (min n 2)"
  have "take ?k (lb_rx h) = take (min n 2) (lb_rx h)" and "drop ?k (lb_rx h) = drop (min n 2) (lb_rx h)"
    by (auto simp: min_def)
  with assms show ?thesis
    by (intro exI [of _ ?k]) (auto simp: loopback_def)
qed

lemma stream_socket_loopback: "stream_socket loopback sock lb_rx lb_tx"
  unfolding stream_socket_def
proof (intro conjI allI impI)
  fix h :: lb_state and n :: nat assume "n > 0 \<and> lb_rx h \<noteq> []"
  then show "\<exists>k h'. 0 < k \<and> k \<le> n \<and> k \<le> length (lb_rx h) \<and>
     os_recv loopback sock n h = ((int k, take k (lb_rx h)), h') \<and>
     lb_rx h' = drop k (lb_rx h) \<and> lb_tx h' = lb_tx h"
    by (intro loopback_recv) auto
qed (simp add: loopback_def)

lemma send_bounded_loopback: "send_bounded loopback"
  by (simp add: send_bounded_def loopback_def)

lemma recv_bounded_loopback: "recv_bounded loopback"
  by (auto simp: recv_bounded_def loopback_def)

lemma qp_machine_loopback: "qp_machine loopback qp lb_qp (\<lambda>_. True)"
  by (simp add: qp_machine_def loopback_def)

end
