(* ===== verification/Ip_Qos.thy ===== *)
theory Ip_Qos
  imports System_Interface
begin

text \<open>
  \<open>include/util/ip_qos_helper.h\<close>: the helper that sets the type-of-service byte, the priority and
  address reuse of a socket, reading the option back to check that it took effect. Both checkers
  return 0 or -1, and the caller ignores the result.
\<close>

section \<open>Definitions\<close>

text \<open>The part the two checkers share: read, write, read back, compare.\<close>

definition set_and_check :: "'w sys \<Rightarrow> sockopt \<Rightarrow> int \<Rightarrow> int \<Rightarrow> ('w, 'z) sys_world_scheme \<Rightarrow>
    (int, ('w, 'z) sys_world_scheme) outcome" where
  "set_and_check S opt sock v w =
     (if fst (os_getsockopt S sock opt (hw w)) < 0 then Ret (- 1) w
      else bindO (hw_call (os_setsockopt S sock opt v) w) (\<lambda>r w.
        if r < 0 then Ret (- 1) w
        else if fst (os_getsockopt S sock opt (hw w)) < 0 then Ret (- 1) w
        else if snd (os_getsockopt S sock opt (hw w)) \<noteq> v then Ret (- 1) w
        else Ret 0 w))"

definition set_and_check_ip_tos :: "'w sys \<Rightarrow> int \<Rightarrow> int \<Rightarrow> ('w, 'z) sys_world_scheme \<Rightarrow>
    (int, ('w, 'z) sys_world_scheme) outcome" where
  "set_and_check_ip_tos S sock tos w = set_and_check S IP_TOS sock tos w"

definition set_and_check_ip_priority :: "'w sys \<Rightarrow> int \<Rightarrow> int \<Rightarrow> ('w, 'z) sys_world_scheme \<Rightarrow>
    (int, ('w, 'z) sys_world_scheme) outcome" where
  "set_and_check_ip_priority S sock prio w =
     (if prio > 6 \<or> prio < 0 then Ret (- 1) w else set_and_check S SO_PRIORITY sock prio w)"

definition set_socket_reuse :: "'w sys \<Rightarrow> int \<Rightarrow> ('w, 'z) sys_world_scheme \<Rightarrow>
    (int, ('w, 'z) sys_world_scheme) outcome" where
  "set_socket_reuse S sock w =
     bindO (hw_call (os_setsockopt S sock SO_REUSEADDR 1) w) (\<lambda>r w.
       if r < 0 then Ret (- 1) w else Ret 0 w)"

section \<open>Lemmas\<close>

lemma set_and_check_cases:
  "\<exists>r t. set_and_check S opt sock v w = Ret r t \<and> (r = 0 \<or> r = - 1) \<and>
     (r = 0 \<longrightarrow> os_getsockopt S sock opt (hw t) = (fst (os_getsockopt S sock opt (hw t)), v)) \<and>
     next_ref t = next_ref w"
  by (auto simp: set_and_check_def hw_call_eq prod_eq_iff)

lemma set_and_check_returns: "returns (set_and_check S opt sock v w)"
  using set_and_check_cases [of S opt sock v w] by auto

lemma set_socket_reuse_returns: "returns (set_socket_reuse S sock w)"
  by (simp add: set_socket_reuse_def hw_call_eq)

text \<open>The priority setter always returns 0 or -1. It returns 0 only when the requested priority is in
  0..6 and the socket then reports that priority; it does return 0 when the platform accepts and
  reports the value. A request out of range returns -1 and touches nothing.\<close>

theorem set_and_check_ip_priority_spec:
  "\<exists>r t. set_and_check_ip_priority S sock prio w = Ret r t \<and> (r = 0 \<or> r = - 1) \<and>
     (r = 0 \<longrightarrow> 0 \<le> prio \<and> prio \<le> 6 \<and> snd (os_getsockopt S sock SO_PRIORITY (hw t)) = prio) \<and>
     (prio < 0 \<or> 6 < prio \<longrightarrow> r = - 1 \<and> t = w) \<and>
     (0 \<le> prio \<and> prio \<le> 6 \<and> 0 \<le> fst (os_getsockopt S sock SO_PRIORITY (hw w)) \<and>
      fst (os_setsockopt S sock SO_PRIORITY prio (hw w)) = 0 \<and>
      os_getsockopt S sock SO_PRIORITY (snd (os_setsockopt S sock SO_PRIORITY prio (hw w))) = (0, prio)
      \<longrightarrow> r = 0)"
  by (auto simp: set_and_check_ip_priority_def set_and_check_def hw_call_eq prod_eq_iff)

theorem set_and_check_ip_priority_spec_witness:
  "(\<exists>t. set_and_check_ip_priority loopback 3 6 (\<lparr>hw = lb_init, next_ref = 1\<rparr> :: lb_state sys_world) = Ret 0 t) \<and>
   set_and_check_ip_priority loopback 3 7 (\<lparr>hw = lb_init, next_ref = 1\<rparr> :: lb_state sys_world) =
     Ret (- 1) \<lparr>hw = lb_init, next_ref = 1\<rparr>"
  using set_and_check_ip_priority_spec [of loopback 3 6 "\<lparr>hw = lb_init, next_ref = 1\<rparr> :: lb_state sys_world"]
    set_and_check_ip_priority_spec [of loopback 3 7 "\<lparr>hw = lb_init, next_ref = 1\<rparr> :: lb_state sys_world"]
  by (auto simp: loopback_def)

end
