(* ===== verification/Tcp_Connector.thy ===== *)
theory Tcp_Connector
  imports Ip_Qos
begin

text \<open>
  \<open>include/tcp_connector.h\<close>, \<open>src/tcp_connector.cc\<close>: the TCP helper that the two ends of a
  connection use to exchange adapter information before RDMA works. A method takes the connector
  and returns it with the result, since \<open>get_or_build_socket\<close> may fill in \<open>root_sock\<close>. The receive
  loops may run forever, so they carry fuel; \<open>NoReturn\<close> is the outcome when it is used up. A
  \<open>char *\<close> buffer is the list of its bytes.
\<close>

section \<open>Definitions\<close>

record TCPConnector =
  root_sock :: int
  peer_ip :: string
  peer_port :: int
  my_ip :: string
  my_port :: int

definition TCPConnector_new :: "'w sys \<Rightarrow> int \<Rightarrow> string \<Rightarrow> int \<Rightarrow> ('w, 'z) sys_world_scheme \<Rightarrow> TCPConnector"
where
  "TCPConnector_new S sock ip port w =
     (case os_getsockname S sock (hw w) of (serv_ip, serv_port) \<Rightarrow>
        \<lparr>root_sock = sock, peer_ip = ip, peer_port = port, my_ip = serv_ip,
          my_port = int (unat serv_port)\<rparr>)"

definition get_or_build_socket :: "'w sys \<Rightarrow> TCPConnector \<Rightarrow> ('w, 'z) sys_world_scheme \<Rightarrow>
    (int \<times> TCPConnector, ('w, 'z) sys_world_scheme) outcome" where
  "get_or_build_socket S c w =
     (if root_sock c = 0
      then bindO (hw_call (os_socket S) w) (\<lambda>s w.
           bindO (fatal_if (s \<le> 0) ''Error of creating socket...'' w) (\<lambda>_ w.
           Ret (s, c\<lparr>root_sock := s\<rparr>) w))
      else Ret (root_sock c, c) w)"

definition send_data :: "'w sys \<Rightarrow> nat \<Rightarrow> byte list \<Rightarrow> TCPConnector \<Rightarrow> ('w, 'z) sys_world_scheme \<Rightarrow>
    (int \<times> TCPConnector, ('w, 'z) sys_world_scheme) outcome" where
  "send_data S msg_size data_placeholder c w =
     bindO (get_or_build_socket S c w) (\<lambda>(sock, c) w.
     bindO (defined_if (msg_size \<le> length data_placeholder) ''read past the message'' w) (\<lambda>_ w.
     bindO (hw_call (os_send S sock (take msg_size data_placeholder)) w) (\<lambda>write_ret w.
     bindO (fatal_if (write_ret < int msg_size) ''Failed writing data to remote'' w) (\<lambda>_ w.
     Ret (write_ret, c) w))))"

text \<open>Bytes stored at an offset of the caller's buffer.\<close>

definition store_at :: "nat \<Rightarrow> byte list \<Rightarrow> byte list \<Rightarrow> byte list" where
  "store_at i bs ph = take i ph @ bs @ drop (i + length bs) ph"

text \<open>The loop of \<open>recv_data_force\<close>: \<open>got\<close> is \<open>total_read_bytes\<close>. A zero-byte read (the peer has
  closed) only logs a warning and the loop goes on.\<close>

fun recv_force_loop :: "'w sys \<Rightarrow> int \<Rightarrow> nat \<Rightarrow> nat \<Rightarrow> nat \<Rightarrow> byte list \<Rightarrow> ('w, 'z) sys_world_scheme \<Rightarrow>
    (nat \<times> byte list, ('w, 'z) sys_world_scheme) outcome" where
  "recv_force_loop S sock msg_size 0 got ph w =
     (if got < msg_size then Halt (NoReturn ''recv_data_force'') w else Ret (got, ph) w)"
| "recv_force_loop S sock msg_size (Suc fuel) got ph w =
     (if got < msg_size
      then bindO (hw_call (os_recv S sock (msg_size - got)) w) (\<lambda>(read_bytes, bs) w.
        if read_bytes > 0
        then recv_force_loop S sock msg_size fuel (got + nat read_bytes) (store_at got bs ph) w
        else if read_bytes < 0 then Halt (LogFatal ''read socket failed'') w
        else recv_force_loop S sock msg_size fuel got ph w)
      else Ret (got, ph) w)"

definition recv_data_force :: "'w sys \<Rightarrow> nat \<Rightarrow> nat \<Rightarrow> byte list \<Rightarrow> TCPConnector \<Rightarrow>
    ('w, 'z) sys_world_scheme \<Rightarrow> (int \<times> byte list \<times> TCPConnector, ('w, 'z) sys_world_scheme) outcome"
where
  "recv_data_force S fuel msg_size data_placeholder c w =
     bindO (get_or_build_socket S c w) (\<lambda>(sock, c) w.
     bindO (recv_force_loop S sock msg_size fuel 0 data_placeholder w) (\<lambda>(got, ph) w.
     Ret (int got, ph, c) w))"

text \<open>The loop of \<open>recv_data\<close>: the guard also tests \<open>rc\<close>, but the only assignment to it is
  \<open>rc = read_bytes\<close> in the branch where \<open>read_bytes\<close> is 0.\<close>

fun recv_loop :: "'w sys \<Rightarrow> int \<Rightarrow> nat \<Rightarrow> nat \<Rightarrow> int \<Rightarrow> nat \<Rightarrow> byte list \<Rightarrow> ('w, 'z) sys_world_scheme \<Rightarrow>
    (int \<times> byte list, ('w, 'z) sys_world_scheme) outcome" where
  "recv_loop S sock msg_size 0 rc got ph w =
     (if rc = 0 \<and> got < msg_size then Halt (NoReturn ''recv_data'') w else Ret (rc, ph) w)"
| "recv_loop S sock msg_size (Suc fuel) rc got ph w =
     (if rc = 0 \<and> got < msg_size
      then bindO (hw_call (os_recv S sock (msg_size - got)) w) (\<lambda>(read_bytes, bs) w.
        if read_bytes > 0
        then recv_loop S sock msg_size fuel rc (got + nat read_bytes) (store_at got bs ph) w
        else if read_bytes < 0 then Halt (LogFatal ''read socket failed'') w
        else recv_loop S sock msg_size fuel read_bytes got ph w)
      else Ret (rc, ph) w)"

definition recv_data :: "'w sys \<Rightarrow> nat \<Rightarrow> nat \<Rightarrow> byte list \<Rightarrow> TCPConnector \<Rightarrow>
    ('w, 'z) sys_world_scheme \<Rightarrow> (int \<times> byte list \<times> TCPConnector, ('w, 'z) sys_world_scheme) outcome"
where
  "recv_data S fuel msg_size data_placeholder c w =
     bindO (get_or_build_socket S c w) (\<lambda>(sock, c) w.
     bindO (recv_loop S sock msg_size fuel 0 0 data_placeholder w) (\<lambda>(rc, ph) w.
     Ret (rc, ph, c) w))"

definition sock_sync_data :: "'w sys \<Rightarrow> nat \<Rightarrow> nat \<Rightarrow> byte list \<Rightarrow> byte list \<Rightarrow> TCPConnector \<Rightarrow>
    ('w, 'z) sys_world_scheme \<Rightarrow> (int \<times> byte list \<times> TCPConnector, ('w, 'z) sys_world_scheme) outcome"
where
  "sock_sync_data S fuel xfer_size local_data remote_data c w =
     bindO (send_data S xfer_size local_data c w) (\<lambda>(write_msg, c) w.
     bindO (recv_data_force S fuel xfer_size remote_data c w) (\<lambda>(recv_msg, ph, c) w.
     Ret (recv_msg - write_msg, ph, c) w))"

definition allocate_socket :: "'w sys \<Rightarrow> string \<Rightarrow> ('w, 'z) sys_world_scheme \<Rightarrow>
    (int, ('w, 'z) sys_world_scheme) outcome" where
  "allocate_socket S info w =
     bindO (hw_call (os_socket S) w) (\<lambda>tmp_socket w.
     bindO (fatal_if (tmp_socket \<le> 0) (''Error of creating socket for '' @ info) w) (\<lambda>_ w.
     bindO (set_and_check_ip_tos S tmp_socket 16 w) (\<lambda>_ w.
     bindO (set_and_check_ip_priority S tmp_socket 4 w) (\<lambda>_ w.
     bindO (set_socket_reuse S tmp_socket w) (\<lambda>_ w.
     Ret tmp_socket w)))))"

section \<open>Lemmas on one transfer\<close>

text \<open>The loop collects exactly the missing bytes of the stream, however \<open>recv\<close> cuts them up.\<close>

lemma recv_force_loop_stream:
  assumes "stream_socket S sock rx tx"
  shows "n - got \<le> length (rx (hw w)) \<Longrightarrow> n - got \<le> fuel \<Longrightarrow> got \<le> n \<Longrightarrow> length pre = got \<Longrightarrow>
    n \<le> length ph \<Longrightarrow>
    \<exists>h. recv_force_loop S sock n fuel got (pre @ drop got ph) w =
          Ret (n, pre @ take (n - got) (rx (hw w)) @ drop n ph) (w\<lparr>hw := h\<rparr>) \<and>
        rx h = drop (n - got) (rx (hw w)) \<and> tx h = tx (hw w)"
proof (induction fuel arbitrary: got pre w)
  case 0
  then show ?case by (auto intro!: exI [of _ "hw w"])
next
  case (Suc fuel)
  show ?case
  proof (cases "got < n")
    case False
    with Suc.prems show ?thesis by (auto intro!: exI [of _ "hw w"])
  next
    case True
    let ?r = "rx (hw w)"
    from True Suc.prems have "?r \<noteq> []" by auto
    with assms True obtain k h where k: "0 < k" "k \<le> n - got" "k \<le> length ?r"
      and rcv: "os_recv S sock (n - got) (hw w) = ((int k, take k ?r), h)"
      and rxh: "rx h = drop k ?r" "tx h = tx (hw w)"
      unfolding stream_socket_def by (metis zero_less_diff)
    let ?w = "w\<lparr>hw := h\<rparr>"
    have st: "store_at got (take k ?r) (pre @ drop got ph) = (pre @ take k ?r) @ drop (got + k) ph"
      using Suc.prems k by (simp add: store_at_def min_absorb2 add.commute)
    have step: "recv_force_loop S sock n (Suc fuel) got (pre @ drop got ph) w =
        recv_force_loop S sock n fuel (got + k) ((pre @ take k ?r) @ drop (got + k) ph) ?w"
      using True k st by (simp add: hw_call_eq rcv)
    have "\<exists>h'. recv_force_loop S sock n fuel (got + k) ((pre @ take k ?r) @ drop (got + k) ph) ?w =
          Ret (n, (pre @ take k ?r) @ take (n - (got + k)) (rx (hw ?w)) @ drop n ph) (?w\<lparr>hw := h'\<rparr>) \<and>
        rx h' = drop (n - (got + k)) (rx (hw ?w)) \<and> tx h' = tx (hw ?w)"
      using Suc.prems k rxh by (intro Suc.IH) auto
    moreover have "take k ?r @ take (n - (got + k)) (drop k ?r) = take (n - got) ?r"
      using k True by (metis add_diff_inverse_nat diff_diff_left not_less take_add)
    moreover have "drop (n - (got + k)) (drop k ?r) = drop (n - got) ?r"
      using k True by (simp add: add.commute)
    ultimately show ?thesis
      using step rxh by auto
  qed
qed

lemma recv_force_loop_exact:
  assumes "recv_bounded S"
  shows "recv_force_loop S sock n fuel got ph w = Ret (t, ph') w' \<Longrightarrow> got \<le> n \<Longrightarrow> t = n"
proof (induction fuel arbitrary: got ph w)
  case 0
  then show ?case by (auto split: if_splits)
next
  case (Suc fuel)
  have "got + nat (fst (fst (os_recv S sock (n - got) (hw w)))) \<le> n"
    if "got < n" "fst (fst (os_recv S sock (n - got) (hw w))) > 0"
    using assms that unfolding recv_bounded_def by (metis le_diff_conv2 less_imp_le prod.collapse add.commute)
  then show ?case
    using Suc.prems by (auto simp: hw_call_eq case_prod_beta split: if_splits elim!: Suc.IH)
qed

lemma recv_loops_closed:
  assumes "peer_closed S sock" and "got < n"
  shows "\<exists>t. recv_force_loop S sock n fuel got ph w = Halt (NoReturn ''recv_data_force'') t"
    and "\<exists>t. recv_loop S sock n fuel 0 got ph w = Halt (NoReturn ''recv_data'') t"
proof -
  have closed: "fst (fst (os_recv S sock m h)) = 0" for m h
    using assms(1) by (simp add: peer_closed_def)
  show "\<exists>t. recv_force_loop S sock n fuel got ph w = Halt (NoReturn ''recv_data_force'') t"
    by (induction fuel arbitrary: w) (use assms(2) in \<open>auto simp: hw_call_eq closed case_prod_beta\<close>)
  show "\<exists>t. recv_loop S sock n fuel 0 got ph w = Halt (NoReturn ''recv_data'') t"
    by (induction fuel arbitrary: w) (use assms(2) in \<open>auto simp: hw_call_eq closed case_prod_beta\<close>)
qed

lemma get_or_build_socket_open [simp]:
  "root_sock c \<noteq> 0 \<Longrightarrow> get_or_build_socket S c w = Ret (root_sock c, c) w"
  by (simp add: get_or_build_socket_def)

lemma send_data_result:
  "send_bounded S \<Longrightarrow> send_data S n d c w = Ret (r, c') t \<Longrightarrow> r = int n"
  unfolding send_bounded_def send_data_def get_or_build_socket_def
  by (auto simp: outcome_simps split: if_splits prod.splits) (metis antisym length_take min_absorb2 not_less)+

lemma recv_data_force_result:
  "recv_bounded S \<Longrightarrow> recv_data_force S fuel n d c w = Ret (r, ph, c') t \<Longrightarrow> r = int n"
  unfolding recv_data_force_def
  by (auto simp: outcome_simps split: prod.splits dest!: recv_force_loop_exact)

lemma sock_sync_data_stream:
  assumes "stream_socket S (root_sock c) rx tx" and "root_sock c \<noteq> 0"
    and "n \<le> length local_data" and "n \<le> length remote_data"
    and "n \<le> length (rx (hw w))" and "n \<le> fuel"
  shows "\<exists>h. sock_sync_data S fuel n local_data remote_data c w =
      Ret (0, take n (rx (hw w)) @ drop n remote_data, c) (w\<lparr>hw := h\<rparr>) \<and>
    rx h = drop n (rx (hw w)) \<and> tx h = tx (hw w) @ take n local_data"
proof -
  obtain h1 where snd: "os_send S (root_sock c) (take n local_data) (hw w) = (int n, h1)"
    and h1: "rx h1 = rx (hw w)" "tx h1 = tx (hw w) @ take n local_data"
    using assms(1,3) unfolding stream_socket_def by (metis length_take min_absorb2)
  let ?w = "w\<lparr>hw := h1\<rparr>"
  have "\<exists>h. recv_force_loop S (root_sock c) n fuel 0 ([] @ drop 0 remote_data) ?w =
      Ret (n, [] @ take (n - 0) (rx (hw ?w)) @ drop n remote_data) (?w\<lparr>hw := h\<rparr>) \<and>
    rx h = drop (n - 0) (rx (hw ?w)) \<and> tx h = tx (hw ?w)"
    using assms h1 by (intro recv_force_loop_stream) auto
  then show ?thesis
    using assms(2,3) snd h1
    by (auto simp: sock_sync_data_def send_data_def recv_data_force_def hw_call_eq)
qed

text \<open>What the calls on the socket leave alone (the state of a queue pair, for instance).\<close>

definition socket_keeps :: "'w sys \<Rightarrow> int \<Rightarrow> ('w \<Rightarrow> 'x) \<Rightarrow> bool" where
  "socket_keeps S sock st \<longleftrightarrow> (\<forall>n h. st (snd (os_recv S sock n h)) = st h) \<and> (\<forall>bs h. st (snd (os_send S sock bs h)) = st h)"

lemma recv_force_loop_keeps:
  assumes "socket_keeps S sock st"
  shows "recv_force_loop S sock n fuel got ph w = Ret x t \<Longrightarrow> st (hw t) = st (hw w)"
proof (induction fuel arbitrary: got ph w)
  case 0
  then show ?case by (auto split: if_splits)
next
  case (Suc fuel)
  have "st (snd (os_recv S sock m h)) = st h" for m h using assms by (simp add: socket_keeps_def)
  with Suc show ?case by (fastforce simp: hw_call_eq case_prod_beta split: if_splits)
qed

lemma sock_sync_data_keeps:
  assumes "socket_keeps S (root_sock c) st" "root_sock c \<noteq> 0" "sock_sync_data S fuel n d ph c w = Ret x t"
  shows "st (hw t) = st (hw w)"
proof -
  from assms(2,3) obtain y where "recv_force_loop S (root_sock c) n fuel 0 ph
      (w\<lparr>hw := snd (os_send S (root_sock c) (take n d) (hw w))\<rparr>) = Ret y t"
    by (auto simp: sock_sync_data_def send_data_def recv_data_force_def outcome_simps)
  from recv_force_loop_keeps [OF assms(1) this] assms(1) show ?thesis by (simp add: socket_keeps_def)
qed

section \<open>Properties\<close>

text \<open>Property C7. the exchange that sets up a connection. On an open stream socket on which \<open>n\<close> bytes will
  arrive, \<open>sock_sync_data\<close> returns, with result 0: the peer's next \<open>n\<close> bytes are in the caller's
  buffer in order, whatever pieces \<open>recv\<close> delivered them in, exactly these are consumed, and the
  \<open>n\<close> local bytes are sent. Fuel \<open>n\<close> is enough.\<close>

theorem sock_sync_data_exchange:
  assumes "stream_socket S (root_sock c) rx tx" and "root_sock c \<noteq> 0"
    and "n \<le> length local_data" and "n \<le> length remote_data"
    and "n \<le> length (rx (hw w))" and "n \<le> fuel"
  shows "\<exists>h. sock_sync_data S fuel n local_data remote_data c w =
      Ret (0, take n (rx (hw w)) @ drop n remote_data, c) (w\<lparr>hw := h\<rparr>) \<and>
    rx h = drop n (rx (hw w)) \<and> tx h = tx (hw w) @ take n local_data"
  using assms by (rule sock_sync_data_stream)

theorem sock_sync_data_exchange_witness:
  "\<exists>h. sock_sync_data loopback 3 3 [1, 2, 3] [0, 0, 0, 0]
        \<lparr>root_sock = 5, peer_ip = ''a'', peer_port = 1, my_ip = ''b'', my_port = 2\<rparr>
        \<lparr>hw = lb_init\<lparr>lb_rx := [7, 8, 9, 10]\<rparr>, next_ref = 1\<rparr> =
      Ret (0, [7, 8, 9, 0], \<lparr>root_sock = 5, peer_ip = ''a'', peer_port = 1, my_ip = ''b'', my_port = 2\<rparr>)
        \<lparr>hw = h, next_ref = 1\<rparr> \<and>
    lb_rx h = [10] \<and> lb_tx h = [1, 2, 3]"
  using sock_sync_data_exchange [of loopback
      "\<lparr>root_sock = 5, peer_ip = ''a'', peer_port = 1, my_ip = ''b'', my_port = 2\<rparr>" lb_rx lb_tx 3
      "[1, 2, 3]" "[0, 0, 0, 0]" "\<lparr>hw = lb_init\<lparr>lb_rx := [7, 8, 9, 10]\<rparr>, next_ref = 1\<rparr>" 3]
  by (simp add: stream_socket_loopback lb_init_def)

text \<open>Property C18. once the peer has closed the connection, neither receive loop ever returns: whatever the
  fuel, a request for at least one byte is still looping. (\<open>recv_data\<close> has an exit condition \<open>rc\<close>,
  but the zero-byte branch assigns it the value 0.)\<close>

theorem receive_never_returns_after_close:
  assumes "peer_closed S (root_sock c)" and "root_sock c \<noteq> 0" and "0 < n"
  shows "(\<exists>t. recv_data_force S fuel n ph c w = Halt (NoReturn ''recv_data_force'') t) \<and>
    (\<exists>t. recv_data S fuel n ph c w = Halt (NoReturn ''recv_data'') t)"
  using recv_loops_closed [OF assms(1,3), where fuel = fuel and w = w and ph = ph] assms(2)
  by (auto simp: recv_data_force_def recv_data_def)

theorem receive_never_returns_after_close_witness:
  "\<exists>t. recv_data (loopback\<lparr>os_recv := \<lambda>s n h. ((0, []), h)\<rparr>) 1000 1 [0]
      \<lparr>root_sock = 5, peer_ip = ''a'', peer_port = 1, my_ip = ''b'', my_port = 2\<rparr>
      \<lparr>hw = lb_init, next_ref = 1\<rparr> = Halt (NoReturn ''recv_data'') t"
  using receive_never_returns_after_close [of "loopback\<lparr>os_recv := \<lambda>s n h. ((0, []), h)\<rparr>"
      "\<lparr>root_sock = 5, peer_ip = ''a'', peer_port = 1, my_ip = ''b'', my_port = 2\<rparr>" 1 1000 "[0]"
      "\<lparr>hw = lb_init, next_ref = 1\<rparr>"]
  by (simp add: peer_closed_def)

text \<open>\<open>sock_sync_data\<close> cannot report an error through its result: when it returns, the value
  is 0, since a short \<open>send\<close> has aborted the process and a short receive is still looping.\<close>

theorem sock_sync_data_result:
  assumes "recv_bounded S" and "send_bounded S"
    and "sock_sync_data S fuel n local_data remote_data c w = Ret (r, ph, c') t"
  shows "r = 0"
  using assms(3) send_data_result [OF assms(2)] recv_data_force_result [OF assms(1)]
  by (fastforce simp: sock_sync_data_def outcome_simps split: prod.splits)

theorem sock_sync_data_result_witness:
  "\<exists>ph c' t. sock_sync_data loopback 3 3 [1, 2, 3] [0, 0, 0, 0]
        \<lparr>root_sock = 5, peer_ip = ''a'', peer_port = 1, my_ip = ''b'', my_port = 2\<rparr>
        \<lparr>hw = lb_init\<lparr>lb_rx := [7, 8, 9, 10]\<rparr>, next_ref = 1\<rparr> = Ret (0, ph, c') t"
proof -
  let ?run = "sock_sync_data loopback 3 3 [1, 2, 3] [0, 0, 0, 0]
        \<lparr>root_sock = 5, peer_ip = ''a'', peer_port = 1, my_ip = ''b'', my_port = 2\<rparr>
        \<lparr>hw = lb_init\<lparr>lb_rx := [7, 8, 9, 10]\<rparr>, next_ref = 1\<rparr>"
  have "returns ?run" by code_simp
  then obtain r ph c' t where run: "?run = Ret (r, ph, c') t"
    by (metis prod.exhaust returnsE)
  with sock_sync_data_result [OF recv_bounded_loopback send_bounded_loopback run] show ?thesis
    by blast
qed

end
