(* ===== verification/Device.thy ===== *)
theory Device
  imports Tcp_Connector
begin

text \<open>
  \<open>include/rdma_device.h\<close>, \<open>src/rdma_device.cc\<close>: the wrapper of one RDMA device. The program state
  gains the static \<open>device_map_\<close> and the device objects. A section under \<open>device_global_lock_\<close> or
  \<open>device_local_lock_\<close> is one step; the static posting functions build a work request and hand it to
  the verbs library.
\<close>

section \<open>State\<close>

record RDMADevice =
  reg_cqs :: "(string, oref) umap"
  adapter_set :: "oref set"
  device_name :: string
  ib_ctx :: oref
  device_attr :: ibv_device_attr
  ports_attrs :: "ibv_port_attr list"

record 'w dev_world = "'w sys_world" +
  device_map :: "(string, oref) umap"
  devices :: "oref \<rightharpoonup> RDMADevice"
  cache_line_size :: int
  cycle_buffer :: int

definition deref_dev :: "oref \<Rightarrow> ('w, 'z) dev_world_scheme \<Rightarrow>
    (RDMADevice, ('w, 'z) dev_world_scheme) outcome" where
  "deref_dev r w = deref (devices w r) ''RDMADevice'' w"

definition set_dev :: "oref \<Rightarrow> RDMADevice \<Rightarrow> ('w, 'z) dev_world_scheme \<Rightarrow> ('w, 'z) dev_world_scheme"
where
  "set_dev r d w = w\<lparr>devices := (devices w)(r \<mapsto> d)\<rparr>"

section \<open>Start-up of a device\<close>

text \<open>\<open>sysconf_size\<close> is the result of \<open>sysconf\<close>, a \<open>long\<close> that is stored in an \<open>int\<close>; \<open>file\<close> is \<open>None\<close> when the
  cache file cannot be opened, \<open>Some None\<close> when it is empty, else its first line (\<open>fgets\<close> keeps nine
  characters).\<close>

definition get_cache_line_size :: "int \<Rightarrow> string option option \<Rightarrow> int" where
  "get_cache_line_size sysconf_size file =
     (let size = sint (of_int sysconf_size :: u32) in
      if size = 0
      then (case file of
          None \<Rightarrow> 64
        | Some None \<Rightarrow> 64
        | Some (Some line) \<Rightarrow> if c_atoi (take 9 line) \<le> 0 then 64 else c_atoi (take 9 line))
      else if size \<le> 0 then 64 else size)"

text \<open>The search loop of \<open>open_device\<close>: an empty name becomes the name of the first device.\<close>

fun find_device :: "string \<Rightarrow> nat \<Rightarrow> string list \<Rightarrow> string \<times> nat option" where
  "find_device dev_name i [] = (dev_name, None)"
| "find_device dev_name i (n # ns) =
     (let dev_name' = (if dev_name = '''' then n else dev_name)
      in if n = dev_name' then (dev_name', Some i) else find_device dev_name' (Suc i) ns)"

definition open_device :: "'w sys \<Rightarrow> oref \<Rightarrow> ('w, 'z) dev_world_scheme \<Rightarrow>
    (bool, ('w, 'z) dev_world_scheme) outcome" where
  "open_device S this w =
     (case ibv_get_device_list S (hw w) of
        None \<Rightarrow> Halt (LogFatal ''failed to get IB devices list'') w
      | Some dev_list \<Rightarrow>
          bindO (fatal_if (dev_list = []) ''found 0 device(s)'' w) (\<lambda>_ w.
          bindO (deref_dev this w) (\<lambda>d w.
          case find_device (device_name d) 0 dev_list of (dev_name, ib_dev) \<Rightarrow>
          (let w = set_dev this (d\<lparr>device_name := dev_name\<rparr>) w in
           case ib_dev of
             None \<Rightarrow> Halt (LogFatal ''Not find the IB device'') w
           | Some i \<Rightarrow>
               bindO (hw_call (ibv_open_device S i) w) (\<lambda>ctx w.
               bindO (fatal_if (ctx = 0) ''failed to open device'' w) (\<lambda>_ w.
               Ret True (set_dev this (d\<lparr>device_name := dev_name, ib_ctx := ctx\<rparr>) w)))))))"

definition query_port_attr :: "'w sys \<Rightarrow> oref \<Rightarrow> u8 \<Rightarrow> ('w, 'z) dev_world_scheme \<Rightarrow>
    (unit, ('w, 'z) dev_world_scheme) outcome" where
  "query_port_attr S this ib_port w =
     bindO (deref_dev this w) (\<lambda>d w.
     case ibv_query_port S (ib_ctx d) ib_port (hw w) of (rc, port_attr) \<Rightarrow>
       bindO (fatal_if (rc \<noteq> 0) ''failed to Query port'' w) (\<lambda>_ w.
       check (port_state port_attr = IBV_PORT_ACTIVE) ''the port is not working properly''
         (set_dev this (d\<lparr>ports_attrs := ports_attrs d @ [port_attr]\<rparr>) w)))"

text \<open>The port loop of \<open>query_hardware_info\<close>: \<open>port_index\<close> is a \<open>uint8_t\<close>, so the increment wraps.\<close>

fun query_ports :: "'w sys \<Rightarrow> oref \<Rightarrow> u8 \<Rightarrow> nat \<Rightarrow> u8 \<Rightarrow> ('w, 'z) dev_world_scheme \<Rightarrow>
    (unit, ('w, 'z) dev_world_scheme) outcome" where
  "query_ports S this cnt 0 port_index w =
     (if port_index \<le> cnt then Halt (NoReturn ''query_hardware_info'') w else Ret () w)"
| "query_ports S this cnt (Suc fuel) port_index w =
     (if port_index \<le> cnt
      then bindO (query_port_attr S this port_index w) (\<lambda>_. query_ports S this cnt fuel (port_index + 1))
      else Ret () w)"

text \<open>Fuel 256 covers every port count below 255 (\<open>query_ports_returns\<close>); for 255 no fuel does
  (\<open>query_ports_255\<close>).\<close>

definition query_hardware_info :: "'w sys \<Rightarrow> oref \<Rightarrow> ('w, 'z) dev_world_scheme \<Rightarrow>
    (unit, ('w, 'z) dev_world_scheme) outcome" where
  "query_hardware_info S this w =
     bindO (deref_dev this w) (\<lambda>d w.
     case ibv_query_device S (ib_ctx d) (hw w) of (rc, attr) \<Rightarrow>
       bindO (fatal_if (rc \<noteq> 0) ''Fail to query device attributes'' w) (\<lambda>_ w.
       query_ports S this (phys_port_cnt attr) 256 1 (set_dev this (d\<lparr>device_attr := attr\<rparr>) w)))"

text \<open>The two statics take the values the system reports; the page size, too, is stored in an \<open>int\<close>.\<close>

definition load_sys_params :: "'w sys \<Rightarrow> ('w, 'z) dev_world_scheme \<Rightarrow> ('w, 'z) dev_world_scheme" where
  "load_sys_params S w =
     w\<lparr>cache_line_size := get_cache_line_size (os_sysconf_linesize S) (os_linesize_file S),
       cycle_buffer := sint (ucast (os_pagesize S) :: u32)\<rparr>"

definition init_resources :: "'w sys \<Rightarrow> oref \<Rightarrow> ('w, 'z) dev_world_scheme \<Rightarrow>
    (bool, ('w, 'z) dev_world_scheme) outcome" where
  "init_resources S this w =
     bindO (open_device S this (load_sys_params S w)) (\<lambda>_ w.
     bindO (query_hardware_info S this w) (\<lambda>_ w.
     Ret False w))"

definition RDMADevice_new :: "'w sys \<Rightarrow> string \<Rightarrow> ('w, 'z) dev_world_scheme \<Rightarrow>
    (oref, ('w, 'z) dev_world_scheme) outcome" where
  "RDMADevice_new S dev_name w =
     (let this = next_ref w;
          d = \<lparr>reg_cqs = Map.empty, adapter_set = {}, device_name = dev_name, ib_ctx = 0,
               device_attr = \<lparr>phys_port_cnt = 0\<rparr>, ports_attrs = []\<rparr>
      in bindO (init_resources S this (set_dev this d (w\<lparr>next_ref := Suc this\<rparr>))) (\<lambda>_ w.
         Ret this w))"

text \<open>The destructor: the result of \<open>ibv_close_device\<close> is not looked at, and the completion queues in \<open>reg_cqs_\<close>
  are not destroyed. It runs when the last \<open>shared_ptr\<close> to the device goes away, which, as \<open>device_map_\<close> never
  loses an entry, is when the process ends.\<close>

definition RDMADevice_delete :: "'w sys \<Rightarrow> oref \<Rightarrow> ('w, 'z) dev_world_scheme \<Rightarrow>
    (unit, ('w, 'z) dev_world_scheme) outcome" where
  "RDMADevice_delete S this w =
     bindO (deref_dev this w) (\<lambda>d w.
     bindO (if ib_ctx d \<noteq> 0 then hw_call (ibv_close_device S (ib_ctx d)) w else Ret 0 w) (\<lambda>_ w.
     Ret () (w\<lparr>devices := (devices w)(this := None)\<rparr>)))"

section \<open>The device map\<close>

definition register_adapter :: "oref \<Rightarrow> oref \<Rightarrow> ('w, 'z) dev_world_scheme \<Rightarrow>
    (bool, ('w, 'z) dev_world_scheme) outcome" where
  "register_adapter this adapter w =
     (if adapter = 0 then Ret False w
      else bindO (deref_dev this w) (\<lambda>d w.
        if adapter \<in> adapter_set d then Ret False w
        else Ret True (set_dev this (d\<lparr>adapter_set := insert adapter (adapter_set d)\<rparr>) w)))"

text \<open>The section of \<open>get_device\<close> under the global lock.\<close>

definition find_or_new_device :: "'w sys \<Rightarrow> string \<Rightarrow> ('w, 'z) dev_world_scheme \<Rightarrow>
    (oref, ('w, 'z) dev_world_scheme) outcome" where
  "find_or_new_device S dev_name w =
     (case umap_find (device_map w) dev_name of
        None \<Rightarrow> bindO (RDMADevice_new S dev_name w) (\<lambda>dev_handler w.
                  Ret dev_handler (w\<lparr>device_map := umap_insert dev_name dev_handler (device_map w)\<rparr>))
      | Some dev_handler \<Rightarrow> Ret dev_handler w)"

definition get_device :: "'w sys \<Rightarrow> string \<Rightarrow> oref \<Rightarrow> ('w, 'z) dev_world_scheme \<Rightarrow>
    (oref, ('w, 'z) dev_world_scheme) outcome" where
  "get_device S dev_name adapter w =
     bindO (check (adapter \<noteq> 0) ''[ERROR]: Adapter cannot be empty'' w) (\<lambda>_ w.
     bindO (find_or_new_device S dev_name w) (\<lambda>dev_handler w.
     bindO (register_adapter dev_handler adapter w) (\<lambda>_ w.
     Ret dev_handler w)))"

section \<open>Resources of a device\<close>

definition create_event_channel :: "'w sys \<Rightarrow> oref \<Rightarrow> ('w, 'z) dev_world_scheme \<Rightarrow>
    (oref, ('w, 'z) dev_world_scheme) outcome" where
  "create_event_channel S this w =
     bindO (deref_dev this w) (\<lambda>d w.
     bindO (hw_call (ibv_create_comp_channel S (ib_ctx d)) w) (\<lambda>event_channel w.
     bindO (fatal_if (event_channel = 0) ''Failed to create completion channel'' w) (\<lambda>_ w.
     Ret event_channel w)))"

definition create_protected_domain :: "'w sys \<Rightarrow> oref \<Rightarrow> ('w, 'z) dev_world_scheme \<Rightarrow>
    (oref, ('w, 'z) dev_world_scheme) outcome" where
  "create_protected_domain S this w =
     bindO (deref_dev this w) (\<lambda>d w.
     bindO (hw_call (ibv_alloc_pd S (ib_ctx d)) w) (\<lambda>pd w.
     bindO (fatal_if (pd = 0) ''Failed to create protection domain'' w) (\<lambda>_ w.
     Ret pd w)))"

definition has_created_cq :: "oref \<Rightarrow> string \<Rightarrow> ('w, 'z) dev_world_scheme \<Rightarrow>
    (bool, ('w, 'z) dev_world_scheme) outcome" where
  "has_created_cq this key w =
     bindO (deref_dev this w) (\<lambda>d w. Ret (umap_find (reg_cqs d) key \<noteq> None) w)"

definition get_qp_attr :: "'w sys \<Rightarrow> oref \<Rightarrow> ('w, 'z) dev_world_scheme \<Rightarrow>
    (ibv_qp_attr \<times> ibv_qp_init_attr option, ('w, 'z) dev_world_scheme) outcome" where
  "get_qp_attr S qp w =
     bindO (check (qp \<noteq> 0) ''Invalid QP'' w) (\<lambda>_ w.
     case ibv_query_qp S qp (hw w) of (rc, qp_attr, init_attr) \<Rightarrow>
       if rc \<noteq> 0 then Ret (zero_qp_attr, None) w else Ret (qp_attr, Some init_attr) w)"

definition create_completion_queue :: "'w sys \<Rightarrow> oref \<Rightarrow> string \<Rightarrow> int \<Rightarrow> oref \<Rightarrow> oref \<Rightarrow> int \<Rightarrow>
    ('w, 'z) dev_world_scheme \<Rightarrow> (oref, ('w, 'z) dev_world_scheme) outcome" where
  "create_completion_queue S this cq_key max_cqe cb_ctx channel comp_vector w =
     bindO (deref_dev this w) (\<lambda>d w.
     case umap_find (reg_cqs d) cq_key of
       Some cq \<Rightarrow> Ret cq w
     | None \<Rightarrow>
         bindO (hw_call (ibv_create_cq S (ib_ctx d) max_cqe cb_ctx channel comp_vector) w) (\<lambda>cq w.
         (let w = set_dev this (d\<lparr>reg_cqs := (reg_cqs d)(cq_key \<mapsto> cq)\<rparr>) w in
          bindO (fatal_if (cq = 0) ''Failed to create completion queue'' w) (\<lambda>_ w. Ret cq w))))"

definition create_queue_pair :: "'w sys \<Rightarrow> oref \<Rightarrow> ibv_qp_init_attr \<Rightarrow> ('w, 'z) dev_world_scheme \<Rightarrow>
    (oref, ('w, 'z) dev_world_scheme) outcome" where
  "create_queue_pair S pd init_attr w =
     bindO (hw_call (ibv_create_qp S pd init_attr) w) (\<lambda>qp w.
     bindO (fatal_if (qp = 0) ''Failed to create completion queue'' w) (\<lambda>_ w.
     Ret qp w))"

definition get_port_attr :: "oref \<Rightarrow> u32 \<Rightarrow> ('w, 'z) dev_world_scheme \<Rightarrow>
    (ibv_port_attr, ('w, 'z) dev_world_scheme) outcome" where
  "get_port_attr this ib_port w =
     bindO (deref_dev this w) (\<lambda>d w.
     bindO (check (ib_port \<ge> 1 \<and> ib_port \<le> ucast (phys_port_cnt (device_attr d)))
       ''Invalid port index'' w) (\<lambda>_ w.
     deref (nth_opt (ports_attrs d) (unat (ib_port - 1))) ''ports_attrs'' w))"

text \<open>\<open>gid_index\<close> has the type \<open>uint8_t\<close>, so the second \<open>CHECK\<close>, \<open>gid_index >= 0\<close>, always holds.\<close>

definition query_gid :: "'w sys \<Rightarrow> oref \<Rightarrow> u8 \<Rightarrow> u8 \<Rightarrow> ('w, 'z) dev_world_scheme \<Rightarrow>
    (ibv_gid, ('w, 'z) dev_world_scheme) outcome" where
  "query_gid S this ib_port gid_index w =
     bindO (deref_dev this w) (\<lambda>d w.
     bindO (check (ib_port \<ge> 1 \<and> unat ib_port \<le> length (ports_attrs d)) ''Invalid ib_port'' w) (\<lambda>_ w.
     bindO (check (gid_index \<ge> 0) ''Invalid gid_index'' w) (\<lambda>_ w.
     case ibv_query_gid S (ib_ctx d) ib_port gid_index (hw w) of (rc, my_gid) \<Rightarrow>
       bindO (fatal_if (rc \<noteq> 0) ''could not get gid for port'' w) (\<lambda>_ w.
       Ret my_gid w))))"

section \<open>Posting work and polling\<close>

text \<open>Memory may change while a completion is polled: the device has written received data.\<close>

definition real_poll_completion_queue :: "'w sys \<Rightarrow> oref \<Rightarrow> int \<Rightarrow> memory \<Rightarrow>
    ('w, 'z) sys_world_scheme \<Rightarrow> (int \<times> ibv_wc list \<times> memory, ('w, 'z) sys_world_scheme) outcome" where
  "real_poll_completion_queue S cq expected m w =
     bindO (check (cq \<noteq> 0) ''The completion queue is empty!'' w) (\<lambda>_ w.
     bindO (check (expected \<ge> 1) ''invalid expected wqe'' w) (\<lambda>_ w.
     case ibv_poll_cq S cq expected m (hw w) of ((num_wcqe, wcs), m', h) \<Rightarrow>
       Ret (num_wcqe, wcs, m') (w\<lparr>hw := h\<rparr>)))"

definition post_send :: "'w sys \<Rightarrow> oref \<Rightarrow> ibv_send_wr \<Rightarrow> string \<Rightarrow> ('w, 'z) sys_world_scheme \<Rightarrow>
    (bool, ('w, 'z) sys_world_scheme) outcome" where
  "post_send S qp wr msg w =
     bindO (hw_call (ibv_post_send S qp wr) w) (\<lambda>rc w.
     bindO (fatal_if (rc \<noteq> 0) msg w) (\<lambda>_ w.
     Ret True w))"

definition real_send :: "'w sys \<Rightarrow> oref \<Rightarrow> oref \<Rightarrow> u64 \<Rightarrow> u32 \<Rightarrow> u32 \<Rightarrow> oref \<Rightarrow>
    ('w, 'z) sys_world_scheme \<Rightarrow> (bool, ('w, 'z) sys_world_scheme) outcome" where
  "real_send S qp mr buffer_addrr msg_size imm_data key w =
     bindO (defined_if (mr \<noteq> 0) ''mr->lkey'' w) (\<lambda>_ w.
     post_send S qp
       \<lparr>swr_id = key,
        swr_sg_list = [\<lparr>sge_addr = buffer_addrr, sge_length = msg_size, sge_lkey = ibv_mr_lkey S mr (hw w)\<rparr>],
        swr_opcode = IBV_WR_SEND_WITH_IMM, swr_send_flags = {IBV_SEND_SIGNALED},
        swr_imm_data = Some imm_data, swr_remote_addr = None, swr_rkey = None\<rparr>
       ''[error] failed to post send_request to Channel'' w)"

definition real_recv :: "'w sys \<Rightarrow> oref \<Rightarrow> oref \<Rightarrow> u64 \<Rightarrow> u32 \<Rightarrow> oref \<Rightarrow>
    ('w, 'z) sys_world_scheme \<Rightarrow> (bool, ('w, 'z) sys_world_scheme) outcome" where
  "real_recv S qp mr buffer_addrr msg_size key w =
     bindO (defined_if (mr \<noteq> 0) ''mr->lkey'' w) (\<lambda>_ w.
     bindO (hw_call (ibv_post_recv S qp
       \<lparr>rwr_id = key,
        rwr_sg_list = [\<lparr>sge_addr = buffer_addrr, sge_length = msg_size, sge_lkey = ibv_mr_lkey S mr (hw w)\<rparr>]\<rparr>) w)
       (\<lambda>rc w.
     bindO (fatal_if (rc \<noteq> 0) ''[error] failed to post RR to Channel'' w) (\<lambda>_ w.
     Ret True w)))"

definition real_write_remote :: "'w sys \<Rightarrow> oref \<Rightarrow> u32 \<Rightarrow> u32 \<Rightarrow> u64 \<Rightarrow> u64 \<Rightarrow> u32 \<Rightarrow> oref \<Rightarrow>
    ('w, 'z) sys_world_scheme \<Rightarrow> (bool, ('w, 'z) sys_world_scheme) outcome" where
  "real_write_remote S qp rkey lkey src_addr dest_addr size_in_bytes wr_id w =
     post_send S qp
       \<lparr>swr_id = wr_id,
        swr_sg_list = [\<lparr>sge_addr = src_addr, sge_length = size_in_bytes, sge_lkey = lkey\<rparr>],
        swr_opcode = IBV_WR_RDMA_WRITE, swr_send_flags = {IBV_SEND_SIGNALED},
        swr_imm_data = None, swr_remote_addr = Some dest_addr, swr_rkey = Some rkey\<rparr>
       ''[error] failed to post SR to Channel'' w"

definition real_write_remote_with_notify :: "'w sys \<Rightarrow> oref \<Rightarrow> u32 \<Rightarrow> u32 \<Rightarrow> u64 \<Rightarrow> u64 \<Rightarrow> u32 \<Rightarrow> u32 \<Rightarrow>
    oref \<Rightarrow> ('w, 'z) sys_world_scheme \<Rightarrow> (bool, ('w, 'z) sys_world_scheme) outcome" where
  "real_write_remote_with_notify S qp rkey lkey src_addr dest_addr size_in_bytes imm_data wr_id w =
     post_send S qp
       \<lparr>swr_id = wr_id,
        swr_sg_list = [\<lparr>sge_addr = src_addr, sge_length = size_in_bytes, sge_lkey = lkey\<rparr>],
        swr_opcode = IBV_WR_RDMA_WRITE_WITH_IMM, swr_send_flags = {IBV_SEND_SIGNALED},
        swr_imm_data = Some imm_data, swr_remote_addr = Some dest_addr, swr_rkey = Some rkey\<rparr>
       ''[error] failed to post SR to Channel'' w"

definition real_read_remote :: "'w sys \<Rightarrow> oref \<Rightarrow> u32 \<Rightarrow> u32 \<Rightarrow> u64 \<Rightarrow> u64 \<Rightarrow> u32 \<Rightarrow> oref \<Rightarrow>
    ('w, 'z) sys_world_scheme \<Rightarrow> (bool, ('w, 'z) sys_world_scheme) outcome" where
  "real_read_remote S qp rkey lkey dest_addr src_addr size_in_bytes wr_id w =
     post_send S qp
       \<lparr>swr_id = wr_id,
        swr_sg_list = [\<lparr>sge_addr = dest_addr, sge_length = size_in_bytes, sge_lkey = lkey\<rparr>],
        swr_opcode = IBV_WR_RDMA_READ, swr_send_flags = {IBV_SEND_SIGNALED},
        swr_imm_data = None, swr_remote_addr = Some src_addr, swr_rkey = Some rkey\<rparr>
       ''[error] failed to post SR to Channel'' w"

section \<open>Memory registration\<close>

text \<open>The parameter \<open>access_flags\<close> is overwritten before it is used.\<close>

definition real_register_mem :: "'w sys \<Rightarrow> oref \<Rightarrow> u64 \<Rightarrow> u64 \<Rightarrow> int \<Rightarrow> string \<Rightarrow>
    ('w, 'z) sys_world_scheme \<Rightarrow> (oref, ('w, 'z) sys_world_scheme) outcome" where
  "real_register_mem S pd data_ptr size_in_byte access_flags info w =
     bindO (check (pd \<noteq> 0) ''protect domain should not be empty for register mem'' w) (\<lambda>_ w.
     bindO (check (size_in_byte > 0) ''Error of register mem buf with size'' w) (\<lambda>_ w.
     bindO (check (data_ptr \<noteq> 0) ''Error of data_ptr'' w) (\<lambda>_ w.
     bindO (hw_call (ibv_reg_mr S pd data_ptr size_in_byte
       {IBV_ACCESS_LOCAL_WRITE, IBV_ACCESS_REMOTE_READ, IBV_ACCESS_REMOTE_WRITE}) w) (\<lambda>tmp_mr w.
     bindO (fatal_if (tmp_mr = 0) ''[error] register mem failed'' w) (\<lambda>_ w.
     Ret tmp_mr w)))))"

definition real_deregister_mem :: "'w sys \<Rightarrow> oref \<Rightarrow> string \<Rightarrow> ('w, 'z) sys_world_scheme \<Rightarrow>
    (bool, ('w, 'z) sys_world_scheme) outcome" where
  "real_deregister_mem S mr info w =
     bindO (hw_call (ibv_dereg_mr S mr) w) (\<lambda>rc w.
     bindO (fatal_if (rc \<noteq> 0) (''Error of deregister_mem for '' @ info) w) (\<lambda>_ w.
     Ret True w))"

section \<open>Specification vocabulary\<close>

text \<open>Port \<open>i\<close> answers the query and is active.\<close>

definition port_ok :: "'w sys \<Rightarrow> oref \<Rightarrow> 'w \<Rightarrow> nat \<Rightarrow> bool" where
  "port_ok S ctx h i \<longleftrightarrow> fst (ibv_query_port S ctx (of_nat i) h) = 0 \<and>
     port_state (snd (ibv_query_port S ctx (of_nat i) h)) = IBV_PORT_ACTIVE"

text \<open>Only the device part of the program state has changed.\<close>

definition dev_only :: "('w, 'z) dev_world_scheme \<Rightarrow> ('w, 'z) dev_world_scheme \<Rightarrow> bool" where
  "dev_only w t \<longleftrightarrow> (\<exists>h n m d c p. t = w\<lparr>hw := h, next_ref := n, device_map := m, devices := d,
     cache_line_size := c, cycle_buffer := p\<rparr>)"

text \<open>What the start-up of the device \<open>this\<close> leaves alone.\<close>

definition dev_frame :: "oref \<Rightarrow> ('w, 'z) dev_world_scheme \<Rightarrow> ('w, 'z) dev_world_scheme \<Rightarrow> bool" where
  "dev_frame this w t \<longleftrightarrow> device_map t = device_map w \<and> next_ref t = next_ref w \<and>
     (\<forall>r. r \<noteq> this \<longrightarrow> devices t r = devices w r) \<and> (devices w this \<noteq> None \<longrightarrow> devices t this \<noteq> None)"

text \<open>Every entry of the device map is an object of its own, allocated before \<open>next_ref\<close>.\<close>

definition dev_inv :: "('w, 'z) dev_world_scheme \<Rightarrow> bool" where
  "dev_inv w \<longleftrightarrow> (\<forall>n r. device_map w n = Some r \<longrightarrow> r < next_ref w \<and> devices w r \<noteq> None) \<and>
     (\<forall>n n' r. device_map w n = Some r \<and> device_map w n' = Some r \<longrightarrow> n = n')"

definition cq_lookup :: "oref \<Rightarrow> ('w, 'z) dev_world_scheme \<Rightarrow> string \<Rightarrow> oref option" where
  "cq_lookup dev w k = (case devices w dev of None \<Rightarrow> None | Some d \<Rightarrow> reg_cqs d k)"

lemmas dev_defs = deref_dev_def set_dev_def umap_find_def umap_insert_def

section \<open>Lemmas on start-up\<close>

lemma get_cache_line_size_pos: "0 < get_cache_line_size n f"
  by (auto simp: get_cache_line_size_def Let_def split: option.splits)

text \<open>The destructor closes the context of the device and frees the object; every other device is kept.\<close>

lemma RDMADevice_delete_closes:
  assumes "devices w this = Some d"
  shows "RDMADevice_delete S this w =
    Ret () (w\<lparr>hw := if ib_ctx d = 0 then hw w else snd (ibv_close_device S (ib_ctx d) (hw w)),
      devices := (devices w)(this := None)\<rparr>)"
  using assms by (simp add: RDMADevice_delete_def deref_dev_def hw_call_eq)

lemma find_device_named:
  "nm \<noteq> '''' \<Longrightarrow> find_device nm i ns = (nm, if nm \<in> set ns then Some (i + length (takeWhile (\<lambda>n. n \<noteq> nm) ns)) else None)"
  by (induction ns arbitrary: i) auto

lemma find_device_default: "find_device '''' i (n # ns) = (n, Some i)"
  by simp

lemma dev_onlyI: "dev_only w (w\<lparr>hw := h, next_ref := n, device_map := m, devices := d, cache_line_size := c, cycle_buffer := p\<rparr>)"
  unfolding dev_only_def by blast

lemma dev_only_refl: "dev_only w w"
  using dev_onlyI [of w "cycle_buffer w" "cache_line_size w" "devices w" "device_map w" "next_ref w" "hw w"] by simp

lemma dev_only_trans: "dev_only w t \<Longrightarrow> dev_only t u \<Longrightarrow> dev_only w u"
  by (clarsimp simp: dev_only_def) blast

lemma dev_only_updates [simp]: "dev_only w (w\<lparr>hw := h\<rparr>)" "dev_only w (w\<lparr>next_ref := n\<rparr>)"
  "dev_only w (w\<lparr>device_map := m\<rparr>)" "dev_only w (set_dev r d w)" "dev_only w (load_sys_params S w)"
  using dev_onlyI [of w "cycle_buffer w" "cache_line_size w" "devices w" "device_map w" "next_ref w" h]
    dev_onlyI [of w "cycle_buffer w" "cache_line_size w" "devices w" "device_map w" n "hw w"]
    dev_onlyI [of w "cycle_buffer w" "cache_line_size w" "devices w" m "next_ref w" "hw w"]
    dev_onlyI [of w "cycle_buffer w" "cache_line_size w" "(devices w)(r \<mapsto> d)" "device_map w" "next_ref w" "hw w"]
    dev_onlyI [of w "sint (ucast (os_pagesize S) :: u32)"
      "get_cache_line_size (os_sysconf_linesize S) (os_linesize_file S)" "devices w" "device_map w" "next_ref w" "hw w"]
  by (simp_all add: set_dev_def load_sys_params_def)

lemma dev_only_opened [simp]: "dev_only w (set_dev r x ((set_dev r y w)\<lparr>hw := h\<rparr>))"
  by (rule dev_only_trans [OF dev_only_trans [OF dev_only_updates(4) dev_only_updates(1)] dev_only_updates(4)])

lemma open_device_only: "open_device S this w = Ret b t \<Longrightarrow> dev_only w t"
  by (auto simp: open_device_def outcome_simps Let_def deref_dev_def split: option.splits)

lemma query_port_attr_only: "query_port_attr S this p w = Ret b t \<Longrightarrow> dev_only w t"
  by (auto simp: query_port_attr_def deref_dev_def outcome_simps)

lemma query_ports_only: "query_ports S this cnt fuel p w = Ret b t \<Longrightarrow> dev_only w t"
proof (induction fuel arbitrary: p w)
  case 0
  then show ?case by (auto simp: dev_only_refl split: if_splits)
next
  case (Suc fuel)
  then show ?case
    by (auto simp: outcome_simps dev_only_refl split: if_splits dest!: query_port_attr_only intro: dev_only_trans)
qed

lemma query_hardware_info_only: "query_hardware_info S this w = Ret b t \<Longrightarrow> dev_only w t"
  by (auto simp: query_hardware_info_def deref_dev_def outcome_simps
      intro: dev_only_trans [OF dev_only_updates(4)] dest!: query_ports_only)

lemma get_device_only:
  assumes "get_device S nm ad w = Ret r t" shows "dev_only w t"
proof -
  from assms obtain s u where s: "find_or_new_device S nm w = Ret r s" and u: "register_adapter r ad s = Ret u t"
    by (auto simp: get_device_def outcome_simps)
  have "dev_only w s"
  proof (cases "umap_find (device_map w) nm")
    case None
    with s obtain s1 s2 d b c where 1: "open_device S (next_ref w)
        (load_sys_params S (set_dev (next_ref w) d (w\<lparr>next_ref := Suc (next_ref w)\<rparr>))) = Ret b s1"
      and 2: "query_hardware_info S (next_ref w) s1 = Ret c s2" and 3: "s = s2\<lparr>device_map := umap_insert nm r (device_map s2)\<rparr>"
      by (auto simp: find_or_new_device_def RDMADevice_new_def init_resources_def outcome_simps Let_def)
    have "dev_only w (load_sys_params S (set_dev (next_ref w) d (w\<lparr>next_ref := Suc (next_ref w)\<rparr>)))"
      by (rule dev_only_trans [OF dev_only_trans [OF dev_only_updates(2) dev_only_updates(4)] dev_only_updates(5)])
    from dev_only_trans [OF dev_only_trans [OF this open_device_only [OF 1]] query_hardware_info_only [OF 2]]
    show ?thesis unfolding 3 by (rule dev_only_trans) simp
  next
    case (Some d)
    with s show ?thesis by (auto simp: find_or_new_device_def dev_only_refl)
  qed
  moreover from u have "dev_only s t"
    by (auto simp: register_adapter_def deref_dev_def outcome_simps dev_only_refl split: if_splits)
  ultimately show ?thesis by (rule dev_only_trans)
qed

lemma dev_frame_refl: "dev_frame this w w"
  by (simp add: dev_frame_def)

lemma dev_frame_trans: "dev_frame this w t \<Longrightarrow> dev_frame this t u \<Longrightarrow> dev_frame this w u"
  by (auto simp: dev_frame_def)

lemma open_device_frame: "open_device S this w = Ret b t \<Longrightarrow> dev_frame this w t"
  by (auto simp: open_device_def dev_frame_def dev_defs outcome_simps Let_def split: option.splits)

lemma query_port_attr_frame: "query_port_attr S this p w = Ret b t \<Longrightarrow> dev_frame this w t"
  by (auto simp: query_port_attr_def dev_frame_def dev_defs outcome_simps)

lemma query_ports_frame: "query_ports S this cnt fuel p w = Ret b t \<Longrightarrow> dev_frame this w t"
proof (induction fuel arbitrary: p w)
  case 0
  then show ?case by (auto simp: dev_frame_refl split: if_splits)
next
  case (Suc fuel)
  then show ?case
    by (auto simp: outcome_simps dev_frame_refl split: if_splits
        dest!: query_port_attr_frame intro: dev_frame_trans)
qed

lemma query_hardware_info_frame: "query_hardware_info S this w = Ret b t \<Longrightarrow> dev_frame this w t"
  by (auto simp: query_hardware_info_def dev_frame_def dev_defs outcome_simps dest!: query_ports_frame)

lemma load_sys_params_frame: "dev_frame this w (load_sys_params S w)"
  by (simp add: dev_frame_def load_sys_params_def)

lemma init_resources_frame: "init_resources S this w = Ret b t \<Longrightarrow> dev_frame this w t"
  by (auto simp: init_resources_def outcome_simps
      dest!: open_device_frame query_hardware_info_frame
      intro: dev_frame_trans dev_frame_trans [OF load_sys_params_frame])

lemma RDMADevice_new_frame:
  assumes "RDMADevice_new S nm w = Ret r t"
  shows "r = next_ref w \<and> next_ref t = Suc (next_ref w) \<and> device_map t = device_map w \<and>
    devices t r \<noteq> None \<and> (\<forall>r'. r' \<noteq> r \<longrightarrow> devices t r' = devices w r')"
  using assms unfolding RDMADevice_new_def Let_def
  by (auto simp: outcome_simps dev_defs dev_frame_def dest!: init_resources_frame split: if_splits)

lemma query_port_attr_ok:
  "devices w this = Some d \<Longrightarrow> port_ok S (ib_ctx d) (hw w) i \<Longrightarrow>
   query_port_attr S this (of_nat i) w =
     Ret () (set_dev this (d\<lparr>ports_attrs := ports_attrs d @ [snd (ibv_query_port S (ib_ctx d) (of_nat i) (hw w))]\<rparr>) w)"
  by (simp add: query_port_attr_def deref_dev_def port_ok_def case_prod_beta)

lemma query_port_attr_bad:
  "devices w this = Some d \<Longrightarrow> \<not> port_ok S (ib_ctx d) (hw w) i \<Longrightarrow>
   \<exists>f t. query_port_attr S this (of_nat i) w = Halt f t \<and> (\<forall>m. f \<noteq> NoReturn m)"
  by (cases "fst (ibv_query_port S (ib_ctx d) (of_nat i) (hw w)) = 0")
    (auto simp: query_port_attr_def deref_dev_def port_ok_def case_prod_beta)

lemma query_ports_run:
  assumes "unat cnt < 255"
  shows "unat cnt + 1 - k \<le> fuel \<Longrightarrow> k \<le> unat cnt + 1 \<Longrightarrow> devices w this = Some d \<Longrightarrow>
    (if \<forall>i \<in> {k..unat cnt}. port_ok S (ib_ctx d) (hw w) i
     then query_ports S this cnt fuel (of_nat k) w = Ret ()
       (set_dev this (d\<lparr>ports_attrs := ports_attrs d @
          map (\<lambda>i. snd (ibv_query_port S (ib_ctx d) (of_nat i) (hw w))) [k..<Suc (unat cnt)]\<rparr>) w)
     else \<exists>f t. query_ports S this cnt fuel (of_nat k) w = Halt f t \<and> (\<forall>m. f \<noteq> NoReturn m))"
proof (induction fuel arbitrary: k w d)
  case 0
  then have k: "k = unat cnt + 1" by simp
  with assms have "k < 256" by simp
  then have "unat (of_nat k :: u8) = k" by (simp add: unat_of_nat)
  with k have "\<not> (of_nat k :: u8) \<le> cnt" by (simp add: word_le_nat_alt)
  with 0 k show ?case by (simp add: set_dev_def map_upd_triv)
next
  case (Suc fuel)
  have uk: "unat (of_nat k :: u8) = k" using assms Suc.prems by (simp add: unat_of_nat)
  show ?case
  proof (cases "k \<le> unat cnt")
    case False
    with uk have "\<not> (of_nat k :: u8) \<le> cnt" by (simp add: word_le_nat_alt)
    with False Suc.prems show ?thesis by (simp add: set_dev_def map_upd_triv)
  next
    case True
    with uk have le: "(of_nat k :: u8) \<le> cnt" by (simp add: word_le_nat_alt)
    have split: "{k..unat cnt} = insert k {Suc k..unat cnt}" using True by auto
    show ?thesis
    proof (cases "port_ok S (ib_ctx d) (hw w) k")
      case False
      with query_port_attr_bad [OF Suc.prems(3) False] le True show ?thesis by auto
    next
      case ok: True
      let ?d = "d\<lparr>ports_attrs := ports_attrs d @ [snd (ibv_query_port S (ib_ctx d) (of_nat k) (hw w))]\<rparr>"
      let ?w = "set_dev this ?d w"
      have step: "query_ports S this cnt (Suc fuel) (of_nat k) w = query_ports S this cnt fuel (of_nat (Suc k)) ?w"
        using le query_port_attr_ok [OF Suc.prems(3) ok] by (simp add: add.commute)
      have upt: "[k..<Suc (unat cnt)] = k # [Suc k..<Suc (unat cnt)]"
        using True by (simp add: upt_conv_Cons)
      have w: "hw ?w = hw w" "devices ?w this = Some ?d" "\<And>x. set_dev this x ?w = set_dev this x w"
        by (simp_all add: set_dev_def)
      have "unat cnt + 1 - Suc k \<le> fuel" "Suc k \<le> unat cnt + 1"
        using Suc.prems True by auto
      from Suc.IH [OF this w(2)] show ?thesis
        unfolding step upt split w(1,3) using ok
        by (auto simp del: upt_Suc of_nat_Suc query_ports.simps split: if_splits)
    qed
  qed
qed

lemma query_ports_255:
  assumes "\<And>i h. port_ok S ctx h i"
  shows "devices w this = Some d \<Longrightarrow> ib_ctx d = ctx \<Longrightarrow>
    \<exists>t. query_ports S this 255 fuel (of_nat k) w = Halt (NoReturn ''query_hardware_info'') t"
proof (induction fuel arbitrary: k w d)
  case 0
  show ?case by (simp add: u8_le_255)
next
  case (Suc fuel)
  have le: "(of_nat k :: u8) \<le> 255" by (rule u8_le_255)
  let ?d = "d\<lparr>ports_attrs := ports_attrs d @ [snd (ibv_query_port S (ib_ctx d) (of_nat k) (hw w))]\<rparr>"
  have "query_ports S this 255 (Suc fuel) (of_nat k) w = query_ports S this 255 fuel (of_nat (Suc k)) (set_dev this ?d w)"
    using le query_port_attr_ok [OF Suc.prems(1), of S k] assms Suc.prems by (simp add: add.commute)
  with Suc.IH [of "set_dev this ?d w" ?d "Suc k"] Suc.prems show ?case by (simp add: set_dev_def)
qed

section \<open>Lemmas on the two maps\<close>

lemma find_or_new_device_cases:
  assumes "find_or_new_device S nm w = Ret r t"
  shows "device_map w nm = Some r \<and> t = w \<or>
    device_map w nm = None \<and> r = next_ref w \<and> device_map t = (device_map w)(nm \<mapsto> r) \<and>
    next_ref t = Suc (next_ref w) \<and> devices t r \<noteq> None \<and> (\<forall>r'. r' \<noteq> r \<longrightarrow> devices t r' = devices w r')"
proof (cases "device_map w nm")
  case None
  with assms obtain s where n: "RDMADevice_new S nm w = Ret r s"
    and t: "t = s\<lparr>device_map := umap_insert nm r (device_map s)\<rparr>"
    by (auto simp: find_or_new_device_def umap_find_def outcome_simps)
  from RDMADevice_new_frame [OF n] t None show ?thesis
    by (auto simp: umap_insert_def)
next
  case (Some r')
  with assms show ?thesis by (simp add: find_or_new_device_def umap_find_def)
qed

interpretation devs: get_or_create device_map "find_or_new_device S" id for S :: "'w sys"
proof
  fix w :: "('w, 'z) dev_world_scheme" and nm r t
  show "device_map w (id nm) = Some r \<Longrightarrow> find_or_new_device S nm w = Ret r w"
    by (simp add: find_or_new_device_def umap_find_def)
  show "device_map t (id nm) = Some r" if "find_or_new_device S nm w = Ret r t"
    using find_or_new_device_cases [OF that] by auto
  show "device_map t k = Some v'" if "find_or_new_device S nm w = Ret r t" "device_map w k = Some v'"
    for k v'
    using find_or_new_device_cases [OF that(1)] that(2) by auto
qed

interpretation cqs: get_or_create "cq_lookup dev"
  "\<lambda>(k, n, cb, ch, v). create_completion_queue S dev k n cb ch v" fst
  for S :: "'w sys" and dev :: oref
proof
  fix w t :: "('w, 'z) dev_world_scheme" and r cq k v'
  show "(case r of (k, n, cb, ch, v) \<Rightarrow> create_completion_queue S dev k n cb ch v) w = Ret cq w"
    if "cq_lookup dev w (fst r) = Some cq"
    using that by (auto simp: cq_lookup_def create_completion_queue_def dev_defs split: option.splits prod.splits)
  show "cq_lookup dev t (fst r) = Some cq"
    if "(case r of (k, n, cb, ch, v) \<Rightarrow> create_completion_queue S dev k n cb ch v) w = Ret cq t"
    using that by (auto simp: cq_lookup_def create_completion_queue_def dev_defs outcome_simps Let_def
        split: option.splits)
  show "cq_lookup dev t k = Some v'"
    if "(case r of (k, n, cb, ch, v) \<Rightarrow> create_completion_queue S dev k n cb ch v) w = Ret cq t"
      and "cq_lookup dev w k = Some v'"
    using that by (auto simp: cq_lookup_def create_completion_queue_def dev_defs outcome_simps Let_def
        split: option.splits)
qed

lemma register_adapter_run:
  assumes "devices w r = Some d" and "a \<noteq> 0"
  shows "\<exists>b. register_adapter r a w =
    Ret b (set_dev r (d\<lparr>adapter_set := insert a (adapter_set d)\<rparr>) w)"
proof (cases "a \<in> adapter_set d")
  case True
  with assms show ?thesis
    by (auto simp: register_adapter_def deref_dev_def set_dev_def insert_absorb map_upd_triv)
next
  case False
  with assms show ?thesis by (auto simp: register_adapter_def deref_dev_def)
qed

lemma get_device_Ret:
  assumes "get_device S nm a w = Ret r t"
  shows "\<exists>w1 d. find_or_new_device S nm w = Ret r w1 \<and> devices w1 r = Some d \<and> a \<noteq> 0 \<and>
    t = set_dev r (d\<lparr>adapter_set := insert a (adapter_set d)\<rparr>) w1"
proof -
  from assms obtain w1 b where f: "find_or_new_device S nm w = Ret r w1" and a: "a \<noteq> 0"
    and ra: "register_adapter r a w1 = Ret b t"
    by (auto simp: get_device_def outcome_simps)
  from ra a obtain d where d: "devices w1 r = Some d"
    by (auto simp: register_adapter_def deref_dev_def outcome_simps)
  with register_adapter_run [OF d a] ra f a show ?thesis by auto
qed

lemma find_or_new_device_inv:
  assumes "dev_inv w" and "find_or_new_device S nm w = Ret r t"
  shows "dev_inv t"
  using find_or_new_device_cases [OF assms(2)] assms(1) unfolding dev_inv_def
  by (auto split: if_splits) (metis less_Suc_eq | blast)+

lemma dev_inv_set_dev: "dev_inv w \<Longrightarrow> dev_inv (set_dev r d w)"
  by (auto simp: dev_inv_def set_dev_def)

lemma get_device_inv: "dev_inv w \<Longrightarrow> get_device S nm a w = Ret r t \<Longrightarrow> dev_inv t"
  by (auto dest!: get_device_Ret intro!: dev_inv_set_dev intro: find_or_new_device_inv)

lemma get_device_keeps:
  "get_device S nm a w = Ret r t \<Longrightarrow> device_map w k = Some v \<Longrightarrow> device_map t k = Some v"
  by (auto dest!: get_device_Ret simp: set_dev_def dest: devs.keeps)

section \<open>Properties\<close>

text \<open>One device object per name. After \<open>get_device\<close> has returned a device for a name, and after
  any further successful calls by other adapters for any names, a call for the same name returns the
  same device, makes no call to the verbs library, and registers the adapter in the device.\<close>

theorem get_device_shared:
  assumes "dev_inv w" and "get_device S nm a w = Ret r w1"
    and "serve (\<lambda>(n, ad). get_device S n ad) rs w1 = Ret u t" and "b \<noteq> 0"
  shows "\<exists>d t'. get_device S nm b t = Ret r t' \<and> hw t' = hw t \<and> device_map t' = device_map t \<and>
    devices t' r = Some d \<and> b \<in> adapter_set d"
proof -
  let ?I = "\<lambda>s. dev_inv s \<and> device_map s nm = Some r"
  have "?I w1"
    using get_device_inv [OF assms(1,2)] get_device_Ret [OF assms(2)] devs.registers [of S nm w r]
    by (auto simp: set_dev_def)
  with assms(3)[unfolded serve_def] have I: "?I t"
    by (rule forO_invariant) (auto simp: outcome_simps intro: get_device_inv get_device_keeps)
  then obtain d where d: "devices t r = Some d" unfolding dev_inv_def by blast
  from I have "find_or_new_device S nm t = Ret r t"
    by (auto intro: devs.hit [of t nm, simplified])
  with register_adapter_run [OF d assms(4)] assms(4) show ?thesis
    by (auto simp: get_device_def set_dev_def)
qed

theorem get_device_shared_witness:
  "\<exists>r w1 t d t'. get_device loopback ''mlx5_0'' 7
       \<lparr>hw = lb_init, next_ref = 1, device_map = Map.empty, devices = Map.empty, cache_line_size = 64, cycle_buffer = 4096\<rparr> = Ret r w1 \<and>
     serve (\<lambda>(n, ad). get_device loopback n ad) [(''mlx5_1'', 8), (''mlx5_0'', 9)] w1 = Ret () t \<and>
     get_device loopback ''mlx5_0'' 10 t = Ret r t' \<and> hw t' = hw t \<and>
     devices t' r = Some d \<and> 10 \<in> adapter_set d"
proof -
  let ?w = "\<lparr>hw = lb_init, next_ref = 1, device_map = Map.empty, devices = Map.empty, cache_line_size = 64, cycle_buffer = 4096\<rparr> :: lb_state dev_world"
  let ?rs = "[(''mlx5_1'', 8), (''mlx5_0'', 9)]"
  have "returns (bindO (get_device loopback ''mlx5_0'' 7 ?w) (\<lambda>_. serve (\<lambda>(n, ad). get_device loopback n ad) ?rs))"
    by code_simp
  then obtain r w1 u t where r: "get_device loopback ''mlx5_0'' 7 ?w = Ret r w1"
    and t: "serve (\<lambda>(n, ad). get_device loopback n ad) ?rs w1 = Ret u t"
    by (auto simp: outcome_simps elim!: returnsE)
  have "dev_inv ?w" by (simp add: dev_inv_def)
  with get_device_shared [OF _ r t, of 10] r t show ?thesis by fastforce
qed

text \<open>Property C9. completion queues are shared by key. Once a device has handed out a completion queue for a
  key, then whatever requests other adapters make of that device, under whatever keys and in whatever
  order, a later request for the key returns the same queue and changes nothing.\<close>

theorem create_completion_queue_shared:
  assumes "create_completion_queue S dev k n cb ch v w = Ret cq w1"
    and "serve (\<lambda>(k, n, cb, ch, v). create_completion_queue S dev k n cb ch v) rs w1 = Ret u t"
  shows "create_completion_queue S dev k n' cb' ch' v' t = Ret cq t"
  using cqs.create_again [of S dev "(k, n, cb, ch, v)" w cq w1 rs u t "(k, n', cb', ch', v')"] assms
  by simp

theorem create_completion_queue_shared_witness:
  "\<exists>cq w1 t. create_completion_queue loopback 1 ''key'' 64 7 0 0
       \<lparr>hw = lb_init, next_ref = 2, device_map = [''mlx5_0'' \<mapsto> 1],
        devices = [1 \<mapsto> \<lparr>reg_cqs = Map.empty, adapter_set = {}, device_name = ''mlx5_0'', ib_ctx = 5,
           device_attr = \<lparr>phys_port_cnt = 1\<rparr>, ports_attrs = [lb_port]\<rparr>], cache_line_size = 64, cycle_buffer = 4096\<rparr> = Ret cq w1 \<and>
     serve (\<lambda>(k, n, cb, ch, v). create_completion_queue loopback 1 k n cb ch v)
       [(''other'', 64, 8, 0, 0), (''key'', 32, 9, 0, 0)] w1 = Ret () t \<and>
     create_completion_queue loopback 1 ''key'' 16 10 0 0 t = Ret cq t"
proof -
  let ?w = "\<lparr>hw = lb_init, next_ref = 2, device_map = [''mlx5_0'' \<mapsto> 1],
        devices = [1 \<mapsto> \<lparr>reg_cqs = Map.empty, adapter_set = {}, device_name = ''mlx5_0'', ib_ctx = 5,
           device_attr = \<lparr>phys_port_cnt = 1\<rparr>, ports_attrs = [lb_port]\<rparr>], cache_line_size = 64, cycle_buffer = 4096\<rparr> :: lb_state dev_world"
  let ?rs = "[(''other'', 64, 8, 0, 0), (''key'', 32, 9, 0, 0)]"
  have "returns (bindO (create_completion_queue loopback 1 ''key'' 64 7 0 0 ?w)
      (\<lambda>_. serve (\<lambda>(k, n, cb, ch, v). create_completion_queue loopback 1 k n cb ch v) ?rs))"
    by code_simp
  then obtain cq w1 u t where c: "create_completion_queue loopback 1 ''key'' 64 7 0 0 ?w = Ret cq w1"
    and t: "serve (\<lambda>(k, n, cb, ch, v). create_completion_queue loopback 1 k n cb ch v) ?rs w1 = Ret u t"
    by (auto simp: outcome_simps elim!: returnsE)
  from create_completion_queue_shared [OF c t] c t show ?thesis by fastforce
qed

text \<open>Enumeration of the ports. For a device with fewer than 255 ports the loop ends: if every
  port answers and is active, \<open>query_hardware_info\<close> returns with the attributes of the ports
  1 to \<open>phys_port_cnt\<close> stored in that order; otherwise the process stops with a diagnosis.\<close>

theorem query_hardware_info_ports:
  assumes "devices w this = Some d" and "ibv_query_device S (ib_ctx d) (hw w) = (0, attr)"
    and "unat (phys_port_cnt attr) < 255" and "ports_attrs d = []"
  shows "if \<forall>i \<in> {1..unat (phys_port_cnt attr)}. port_ok S (ib_ctx d) (hw w) i
    then query_hardware_info S this w = Ret () (set_dev this (d\<lparr>device_attr := attr, ports_attrs :=
      map (\<lambda>i. snd (ibv_query_port S (ib_ctx d) (of_nat i) (hw w))) [1..<Suc (unat (phys_port_cnt attr))]\<rparr>) w)
    else \<exists>f t. query_hardware_info S this w = Halt f t \<and> (\<forall>m. f \<noteq> NoReturn m)"
proof -
  let ?d = "d\<lparr>device_attr := attr\<rparr>" and ?cnt = "phys_port_cnt attr"
  let ?w = "set_dev this ?d w"
  have w: "devices ?w this = Some ?d" "hw ?w = hw w" "\<And>x. set_dev this x ?w = set_dev this x w"
    by (simp_all add: set_dev_def)
  have run: "query_hardware_info S this w = query_ports S this ?cnt 256 (of_nat 1) ?w"
    using assms by (simp add: query_hardware_info_def deref_dev_def)
  have "unat ?cnt + 1 - 1 \<le> 256" using assms(3) by simp
  from query_ports_run [OF assms(3) this _ w(1), of S] show ?thesis
    unfolding run w(2,3) using assms(4) by (auto simp del: upt_Suc split: if_splits)
qed

theorem query_hardware_info_ports_witness:
  "query_hardware_info loopback 1
       \<lparr>hw = lb_init, next_ref = 2, device_map = Map.empty,
        devices = [1 \<mapsto> \<lparr>reg_cqs = Map.empty, adapter_set = {}, device_name = ''mlx5_0'', ib_ctx = 5,
           device_attr = \<lparr>phys_port_cnt = 0\<rparr>, ports_attrs = []\<rparr>], cache_line_size = 64, cycle_buffer = 4096\<rparr> =
   Ret () \<lparr>hw = lb_init, next_ref = 2, device_map = Map.empty,
        devices = [1 \<mapsto> \<lparr>reg_cqs = Map.empty, adapter_set = {}, device_name = ''mlx5_0'', ib_ctx = 5,
           device_attr = \<lparr>phys_port_cnt = 1\<rparr>, ports_attrs = [lb_port]\<rparr>], cache_line_size = 64, cycle_buffer = 4096\<rparr>"
proof -
  let ?d = "\<lparr>reg_cqs = Map.empty, adapter_set = {}, device_name = ''mlx5_0'', ib_ctx = 5,
           device_attr = \<lparr>phys_port_cnt = 0\<rparr>, ports_attrs = []\<rparr>"
  let ?w = "\<lparr>hw = lb_init, next_ref = 2, device_map = Map.empty, devices = [1 \<mapsto> ?d],
    cache_line_size = 64, cycle_buffer = 4096\<rparr> :: lb_state dev_world"
  show ?thesis
    using query_hardware_info_ports [of ?w 1 ?d loopback "\<lparr>phys_port_cnt = 1\<rparr>"]
    by (simp add: loopback_def port_ok_def lb_port_def set_dev_def)
qed



end
