(* ===== verification/Buffer.thy ===== *)
theory Buffer
  imports Device
begin

text \<open>
  \<open>include/rdma_buffer.h\<close>, \<open>src/rdma_buffer.cc\<close>: communication memory cut into equal blocks. A base
  buffer owns the memory; each of its blocks is a buffer object of its own (a sub-buffer) that points
  back to the base. \<open>next\<close> and \<open>last\<close> walk the blocks round-robin with two \<open>int\<close> counters of the base.
  The members that need a channel (registration and the destructor) are in the theory \<open>Channel\<close>.
\<close>

section \<open>State\<close>

record RDMABuffer =
  buffer_name :: string
  buffer_size :: u64
  data_ptr :: u64
  owned_by_channel :: oref
  is_initialized :: bool
  buf_mr :: oref
  next_active :: int
  last_active :: int
  in_used :: bool
  buffer_index :: int
  buffer_mgr :: "oref list"
  is_sub_buffer :: bool
  blocks :: u64
  base_buffer :: oref

record 'w buf_world = "'w dev_world" +
  mem :: memory
  buffers :: "oref \<rightharpoonup> RDMABuffer"

definition deref_buf :: "oref \<Rightarrow> ('w, 'z) buf_world_scheme \<Rightarrow>
    (RDMABuffer, ('w, 'z) buf_world_scheme) outcome" where
  "deref_buf r w = deref (buffers w r) ''RDMABuffer'' w"

definition set_buf :: "oref \<Rightarrow> RDMABuffer \<Rightarrow> ('w, 'z) buf_world_scheme \<Rightarrow> ('w, 'z) buf_world_scheme"
where
  "set_buf r b w = w\<lparr>buffers := (buffers w)(r \<mapsto> b)\<rparr>"

section \<open>Construction\<close>

text \<open>The object the constructor starts from: the member initialisers of the class.\<close>

definition buffer_init :: "u64 \<Rightarrow> u32 \<Rightarrow> string \<Rightarrow> bool \<Rightarrow> RDMABuffer" where
  "buffer_init buffer_size_in_byte num_blocks buffer_info is_sub =
     \<lparr>buffer_name = buffer_info, buffer_size = buffer_size_in_byte * ucast num_blocks, data_ptr = 0,
      owned_by_channel = 0, is_initialized = False, buf_mr = 0, next_active = - 1, last_active = - 1,
      in_used = False, buffer_index = - 1, buffer_mgr = [], is_sub_buffer = is_sub,
      blocks = ucast num_blocks, base_buffer = 0\<rparr>"

text \<open>\<open>get_block_size\<close> returns the size of \<open>buffer_mgr_\<close> as a \<open>uint32_t\<close>.\<close>

definition get_block_size :: "RDMABuffer \<Rightarrow> u32" where
  "get_block_size b = of_nat (length (buffer_mgr b))"

text \<open>The constructor with \<open>is_sub_buffer\<close> set. \<open>buffer_index\<close> is an \<open>int\<close>; in the address computation
  it is converted to \<open>size_t\<close>.\<close>

definition sub_buffer_new :: "u64 \<Rightarrow> u32 \<Rightarrow> string \<Rightarrow> oref \<Rightarrow> ('w, 'z) buf_world_scheme \<Rightarrow>
    (oref, ('w, 'z) buf_world_scheme) outcome" where
  "sub_buffer_new buffer_size_in_byte num_blocks buffer_info base w =
     (let this = next_ref w; w = w\<lparr>next_ref := Suc this\<rparr> in
      bindO (check (base \<noteq> 0) ''error of the base buffer'' w) (\<lambda>_ w.
      bindO (deref_buf base w) (\<lambda>bb w.
      let idx = sint (get_block_size bb) in
      Ret this (set_buf this ((buffer_init buffer_size_in_byte num_blocks buffer_info True)
        \<lparr>base_buffer := base, buffer_index := idx,
         data_ptr := data_ptr bb + of_int idx * buffer_size_in_byte,
         owned_by_channel := owned_by_channel bb, is_initialized := True, buf_mr := buf_mr bb\<rparr>) w))))"

text \<open>One turn of the splitting loop: \<open>buffer_mgr_.push_back(new RDMABuffer(...))\<close>.\<close>

definition add_block :: "u64 \<Rightarrow> string \<Rightarrow> oref \<Rightarrow> nat \<Rightarrow> ('w, 'z) buf_world_scheme \<Rightarrow>
    (unit, ('w, 'z) buf_world_scheme) outcome" where
  "add_block buffer_size_in_byte buffer_info this b_index w =
     bindO (sub_buffer_new buffer_size_in_byte 1 (nat_string b_index @ ''@'' @ buffer_info) this w) (\<lambda>sb w.
     bindO (deref_buf this w) (\<lambda>b w.
     Ret () (set_buf this (b\<lparr>buffer_mgr := buffer_mgr b @ [sb]\<rparr>) w)))"

text \<open>The constructor of a base buffer. The final \<open>memset\<close> clears \<open>buffer_size_in_byte\<close> bytes, the size
  of one block; it is defined when the allocation has that many.\<close>

definition base_buffer_new :: "'w sys \<Rightarrow> u64 \<Rightarrow> u32 \<Rightarrow> string \<Rightarrow> ('w, 'z) buf_world_scheme \<Rightarrow>
    (oref, ('w, 'z) buf_world_scheme) outcome" where
  "base_buffer_new S buffer_size_in_byte num_blocks buffer_info w =
     (let this = next_ref w;
          b = buffer_init buffer_size_in_byte num_blocks buffer_info False;
          w = set_buf this b (w\<lparr>next_ref := Suc this\<rparr>) in
      bindO (check (buffer_size b > 0) ''The buffer should not been empty'' w) (\<lambda>_ w.
      bindO (hw_call (os_posix_memalign S (os_pagesize S) (buffer_size b)) w) (\<lambda>(ret, p) w.
      bindO (fatal_if (ret \<noteq> 0) ''[error] posix_memalign'' w) (\<lambda>_ w.
      bindO (forO (add_block buffer_size_in_byte buffer_info this) [0..<unat num_blocks]
        (set_buf this (b\<lparr>data_ptr := p\<rparr>) w)) (\<lambda>_ w.
      bindO (defined_if (buffer_size_in_byte \<le> buffer_size b) ''memset past the allocation'' w) (\<lambda>_ w.
      bindO (deref_buf this w) (\<lambda>b w.
      Ret this (set_buf this (b\<lparr>base_buffer := this, is_initialized := True\<rparr>)
        (w\<lparr>mem := memset0 p buffer_size_in_byte (mem w)\<rparr>)))))))))"

definition RDMABuffer_new :: "'w sys \<Rightarrow> u64 \<Rightarrow> u32 \<Rightarrow> string \<Rightarrow> oref \<Rightarrow> bool \<Rightarrow> ('w, 'z) buf_world_scheme \<Rightarrow>
    (oref, ('w, 'z) buf_world_scheme) outcome" where
  "RDMABuffer_new S buffer_size_in_byte num_blocks buffer_info base is_sub w =
     (if is_sub then sub_buffer_new buffer_size_in_byte num_blocks buffer_info base w
      else base_buffer_new S buffer_size_in_byte num_blocks buffer_info w)"

definition allocate_buffer :: "'w sys \<Rightarrow> u64 \<Rightarrow> u32 \<Rightarrow> string \<Rightarrow> ('w, 'z) buf_world_scheme \<Rightarrow>
    (oref, ('w, 'z) buf_world_scheme) outcome" where
  "allocate_buffer S buffer_size_in_byte num_blocks buffer_info w =
     RDMABuffer_new S buffer_size_in_byte num_blocks buffer_info 0 False w"

section \<open>Access\<close>

definition security_check :: "oref \<Rightarrow> ('w, 'z) buf_world_scheme \<Rightarrow>
    (bool, ('w, 'z) buf_world_scheme) outcome" where
  "security_check this w =
     bindO (deref_buf this w) (\<lambda>b w.
     bindO (check (buffer_size b \<noteq> 0) ''[ERROR]: buffer size is 0'' w) (\<lambda>_ w.
     bindO (check (data_ptr b \<noteq> 0) ''[ERROR]: buffer data_ptr is nullptr'' w) (\<lambda>_ w.
     bindO (check (owned_by_channel b \<noteq> 0) ''[ERROR]: buffer owned_by_channel is nullptr'' w) (\<lambda>_ w.
     Ret True w))))"

definition buffer_release :: "oref \<Rightarrow> ('w, 'z) buf_world_scheme \<Rightarrow>
    (bool, ('w, 'z) buf_world_scheme) outcome" where
  "buffer_release this w = Halt (LogFatal ''release is not implemented yet'') w"

definition buffer_reset :: "oref \<Rightarrow> u32 \<Rightarrow> string \<Rightarrow> ('w, 'z) buf_world_scheme \<Rightarrow>
    (bool, ('w, 'z) buf_world_scheme) outcome" where
  "buffer_reset this total_size buffer_info w =
     bindO (deref_buf this w) (\<lambda>b w.
     bindO (check (total_size > 0) ''The buffer should not been empty''
       (set_buf this (b\<lparr>buffer_name := buffer_info\<rparr>) w)) (\<lambda>_ w.
     Halt (LogFatal ''reset is not implemented yet'') w))"

definition buffer_clear :: "oref \<Rightarrow> ('w, 'z) buf_world_scheme \<Rightarrow>
    (bool, ('w, 'z) buf_world_scheme) outcome" where
  "buffer_clear this w =
     bindO (deref_buf this w) (\<lambda>b w.
     bindO (defined_if (data_ptr b \<noteq> 0) ''memset(nullptr)'' w) (\<lambda>_ w.
     Ret True (w\<lparr>mem := memset0 (data_ptr b) (buffer_size b) (mem w)\<rparr>)))"

definition fill_in :: "oref \<Rightarrow> byte list \<Rightarrow> u32 \<Rightarrow> ('w, 'z) buf_world_scheme \<Rightarrow>
    (bool, ('w, 'z) buf_world_scheme) outcome" where
  "fill_in this to_copyed_data data_length w =
     bindO (deref_buf this w) (\<lambda>b w.
     bindO (check (ucast data_length \<le> buffer_size b)
       ''Error, the data length cannot be larger than the whole buffer size.'' w) (\<lambda>_ w.
     bindO (buffer_clear this w) (\<lambda>_ w.
     bindO (defined_if (unat data_length \<le> length to_copyed_data) ''memcpy past the source'' w) (\<lambda>_ w.
     Ret True (w\<lparr>mem := mem_write (data_ptr b) (take (unat data_length) to_copyed_data) (mem w)\<rparr>)))))"

definition buffer_at :: "oref \<Rightarrow> u64 \<Rightarrow> ('w, 'z) buf_world_scheme \<Rightarrow>
    (oref, ('w, 'z) buf_world_scheme) outcome" where
  "buffer_at this index w =
     bindO (deref_buf this w) (\<lambda>b w.
     bindO (check (index < blocks b) ''block index exceeds the maximum number of blocks'' w) (\<lambda>_ w.
     deref (nth_opt (buffer_mgr b) (unat index)) ''buffer_mgr_'' w))"

text \<open>\<open>(++next_active) % blocks_\<close>: the increment is on \<open>int\<close> (undefined at \<open>INT_MAX\<close>), the remainder on
  \<open>size_t\<close>.\<close>

definition buffer_next :: "oref \<Rightarrow> ('w, 'z) buf_world_scheme \<Rightarrow>
    (oref, ('w, 'z) buf_world_scheme) outcome" where
  "buffer_next this w =
     bindO (deref_buf this w) (\<lambda>b w.
     bindO (deref_buf (base_buffer b) w) (\<lambda>bb w.
     bindO (defined_if (next_active bb < INT_MAX) ''++next_active overflows'' w) (\<lambda>_ w.
     bindO (defined_if (blocks bb \<noteq> 0) ''remainder by zero'' w) (\<lambda>_ w.
     (let i = next_active bb + 1;
          w = set_buf (base_buffer b) (bb\<lparr>next_active := i\<rparr>) w in
      bindO (deref (nth_opt (buffer_mgr bb) (unat ((of_int i :: u64) mod blocks bb))) ''buffer_mgr_'' w) (\<lambda>r w.
      bindO (deref_buf r w) (\<lambda>nb w.
      Ret r (set_buf r (nb\<lparr>in_used := True\<rparr>) w))))))))"

definition buffer_last :: "oref \<Rightarrow> ('w, 'z) buf_world_scheme \<Rightarrow>
    (oref, ('w, 'z) buf_world_scheme) outcome" where
  "buffer_last this w =
     bindO (deref_buf this w) (\<lambda>b w.
     bindO (deref_buf (base_buffer b) w) (\<lambda>bb w.
     bindO (defined_if (last_active bb < INT_MAX) ''++last_active overflows'' w) (\<lambda>_ w.
     bindO (defined_if (blocks bb \<noteq> 0) ''remainder by zero'' w) (\<lambda>_ w.
     (let i = last_active bb + 1;
          w = set_buf (base_buffer b) (bb\<lparr>last_active := i\<rparr>) w in
      bindO (deref (nth_opt (buffer_mgr bb) (unat ((of_int i :: u64) mod blocks bb))) ''buffer_mgr_'' w) (\<lambda>r w.
      bindO (deref_buf r w) (\<lambda>nb w.
      Ret r (set_buf r (nb\<lparr>in_used := False\<rparr>) w))))))))"

section \<open>Well-formed buffers\<close>

text \<open>\<open>sub_of r b sz i sb\<close>: \<open>sb\<close> is what block \<open>i\<close> of the base buffer \<open>b\<close> at \<open>r\<close> must be.\<close>

definition sub_of :: "oref \<Rightarrow> RDMABuffer \<Rightarrow> u64 \<Rightarrow> nat \<Rightarrow> RDMABuffer \<Rightarrow> bool" where
  "sub_of r b sz i sb \<longleftrightarrow> is_sub_buffer sb \<and> base_buffer sb = r \<and> buffer_size sb = sz \<and>
     data_ptr sb = data_ptr b + of_nat i * sz \<and> buffer_index sb = int i"

text \<open>The blocks built so far: distinct objects, each the sub-buffer its index says.\<close>

definition blocks_ok :: "('w, 'z) buf_world_scheme \<Rightarrow> oref \<Rightarrow> RDMABuffer \<Rightarrow> u64 \<Rightarrow> bool" where
  "blocks_ok w r b sz \<longleftrightarrow> distinct (buffer_mgr b) \<and>
     (\<forall>x \<in> set (buffer_mgr b). r < x \<and> x < next_ref w) \<and>
     (\<forall>i < length (buffer_mgr b). \<exists>sb. buffers w (buffer_mgr b ! i) = Some sb \<and> sub_of r b sz i sb)"

definition wf_buffer :: "('w, 'z) buf_world_scheme \<Rightarrow> oref \<Rightarrow> bool" where
  "wf_buffer w r \<longleftrightarrow> (\<exists>b sz. buffers w r = Some b \<and> r < next_ref w \<and> \<not> is_sub_buffer b \<and>
     base_buffer b = r \<and> 0 < sz \<and> blocks b \<noteq> 0 \<and> length (buffer_mgr b) = unat (blocks b) \<and>
     unat (buffer_size b) = unat sz * unat (blocks b) \<and>
     unat (data_ptr b) + unat (buffer_size b) \<le> 2 ^ 64 \<and> blocks_ok w r b sz)"

text \<open>The blocks handed out by \<open>next\<close> and not yet given back by \<open>last\<close>, oldest first.\<close>

definition outstanding :: "oref \<Rightarrow> ('w, 'z) buf_world_scheme \<Rightarrow> oref list" where
  "outstanding r w = (case buffers w r of None \<Rightarrow> []
     | Some b \<Rightarrow> map (\<lambda>k. buffer_mgr b ! (nat k mod unat (blocks b))) [last_active b + 1..next_active b])"

definition ring_ok :: "oref \<Rightarrow> ('w, 'z) buf_world_scheme \<Rightarrow> bool" where
  "ring_ok r w \<longleftrightarrow> wf_buffer w r \<and> (\<exists>b. buffers w r = Some b \<and> - 1 \<le> last_active b \<and>
     last_active b \<le> next_active b \<and> next_active b \<le> INT_MAX \<and>
     next_active b - last_active b \<le> int (unat (blocks b)) \<and>
     (\<forall>x \<in> set (buffer_mgr b). \<forall>sb. buffers w x = Some sb \<longrightarrow>
        in_used sb = (x \<in> set (outstanding r w))))"

definition ring_capacity :: "oref \<Rightarrow> ('w, 'z) buf_world_scheme \<Rightarrow> nat" where
  "ring_capacity r w = (case buffers w r of None \<Rightarrow> 0 | Some b \<Rightarrow> unat (blocks b))"

text \<open>How many more calls of \<open>next\<close> the \<open>int\<close> counter allows.\<close>

definition ring_budget :: "oref \<Rightarrow> ('w, 'z) buf_world_scheme \<Rightarrow> nat" where
  "ring_budget r w = (case buffers w r of None \<Rightarrow> 0 | Some b \<Rightarrow> nat (INT_MAX - next_active b))"

lemmas buf_defs = deref_buf_def set_buf_def

section \<open>Word lemmas\<close>

lemma unat_ucast_u32 [simp]: "unat (ucast (x :: u32) :: u64) = unat x"
  using unsigned_less [of x, where ?'a = nat] by (simp add: unsigned_ucast_eq take_bit_nat_eq_self)

section \<open>Construction lemmas\<close>

text \<open>The state of the splitting loop after \<open>k\<close> turns: \<open>b\<close> is the base buffer before the loop.\<close>

definition building :: "('w, 'z) buf_world_scheme \<Rightarrow> oref \<Rightarrow> RDMABuffer \<Rightarrow> u64 \<Rightarrow> nat \<Rightarrow> bool" where
  "building w r b sz k \<longleftrightarrow> 0 < r \<and> r < next_ref w \<and> (\<exists>bs. length bs = k \<and>
     buffers w r = Some (b\<lparr>buffer_mgr := bs\<rparr>) \<and> blocks_ok w r (b\<lparr>buffer_mgr := bs\<rparr>) sz \<and>
     (\<forall>x \<in> set bs. \<forall>sb. buffers w x = Some sb \<longrightarrow> \<not> in_used sb))"

definition buf_frame :: "oref \<Rightarrow> ('w, 'z) buf_world_scheme \<Rightarrow> ('w, 'z) buf_world_scheme \<Rightarrow> bool" where
  "buf_frame r w w' \<longleftrightarrow> next_ref w \<le> next_ref w' \<and> hw w' = hw w \<and> mem w' = mem w \<and>
     (\<forall>x < next_ref w. x \<noteq> r \<longrightarrow> buffers w' x = buffers w x)"

lemma buf_frame_refl: "buf_frame r w w"
  by (simp add: buf_frame_def)

lemma buf_frame_trans: "buf_frame r w w' \<Longrightarrow> buf_frame r w' w'' \<Longrightarrow> buf_frame r w w''"
  by (auto simp: buf_frame_def)

lemma get_block_size_small: "length (buffer_mgr b) < 2 ^ 31 \<Longrightarrow>
    sint (get_block_size b) = int (length (buffer_mgr b))"
  by (simp add: get_block_size_def signed_of_nat signed_take_bit_int_eq_self)

lemma add_block_step:
  assumes k: "building w r b sz k" "k < 2 ^ 31"
  shows "\<exists>w'. add_block sz info r i w = Ret () w' \<and> building w' r b sz (Suc k) \<and> buf_frame r w w'"
proof -
  from k(1) obtain bs where bs: "length bs = k" "buffers w r = Some (b\<lparr>buffer_mgr := bs\<rparr>)"
      "blocks_ok w r (b\<lparr>buffer_mgr := bs\<rparr>) sz" "0 < r" "r < next_ref w"
      "\<forall>x \<in> set bs. \<forall>sb. buffers w x = Some sb \<longrightarrow> \<not> in_used sb"
    by (auto simp: building_def)
  let ?n = "next_ref w"
  let ?bb = "b\<lparr>buffer_mgr := bs\<rparr>"
  have idx: "sint (get_block_size ?bb) = int k"
    using bs(1) k(2) get_block_size_small [of ?bb] by simp
  then have sc: "scast (get_block_size ?bb) = (of_nat k :: u64)"
    by (metis of_int_of_nat_eq of_int_sint)
  let ?sb = "(buffer_init sz 1 (nat_string i @ ''@'' @ info) True)
        \<lparr>base_buffer := r, buffer_index := int k, data_ptr := data_ptr b + of_nat k * sz,
         owned_by_channel := owned_by_channel b, is_initialized := True, buf_mr := buf_mr b\<rparr>"
  let ?w = "w\<lparr>next_ref := Suc ?n, buffers := (buffers w)(?n \<mapsto> ?sb, r \<mapsto> b\<lparr>buffer_mgr := bs @ [?n]\<rparr>)\<rparr>"
  have step: "add_block sz info r i w = Ret () ?w"
    using bs idx sc by (simp add: add_block_def sub_buffer_new_def buf_defs Let_def)
  have new: "sub_of r (b\<lparr>buffer_mgr := bs @ [?n]\<rparr>) sz k ?sb"
    by (simp add: sub_of_def buffer_init_def)
  have ok: "blocks_ok ?w r (b\<lparr>buffer_mgr := bs @ [?n]\<rparr>) sz"
    unfolding blocks_ok_def
  proof (intro conjI allI impI ballI)
    fix j assume "j < length (buffer_mgr (b\<lparr>buffer_mgr := bs @ [?n]\<rparr>))"
    then consider "j < k" | "j = k" using bs(1) by fastforce
    then show "\<exists>sb. buffers ?w (buffer_mgr (b\<lparr>buffer_mgr := bs @ [?n]\<rparr>) ! j) = Some sb \<and>
        sub_of r (b\<lparr>buffer_mgr := bs @ [?n]\<rparr>) sz j sb"
    proof cases
      case 1
      with bs(1) have "bs ! j \<in> set bs" by simp
      with bs(3) have "bs ! j \<noteq> r" "bs ! j \<noteq> ?n" by (auto simp: blocks_ok_def)
      moreover from 1 bs(1,3) obtain sb where "buffers w (bs ! j) = Some sb" "sub_of r ?bb sz j sb"
        by (auto simp: blocks_ok_def)
      ultimately show ?thesis using 1 bs(1) by (auto simp: nth_append sub_of_def)
    next
      case 2
      with new bs(1,5) show ?thesis by (auto simp: nth_append)
    qed
  qed (use bs in \<open>auto simp: blocks_ok_def\<close>)
  have "r \<notin> set bs" "r \<noteq> ?n" using bs(3,5) by (auto simp: blocks_ok_def)
  then have "\<forall>x \<in> set (bs @ [?n]). \<forall>sb. buffers ?w x = Some sb \<longrightarrow> \<not> in_used sb"
    using bs(6) by (auto simp: buffer_init_def)
  then have "building ?w r b sz (Suc k)"
    unfolding building_def using ok bs(1,4,5) by (intro conjI exI [of _ "bs @ [?n]"]) auto
  moreover have "buf_frame r w ?w" by (simp add: buf_frame_def)
  ultimately show ?thesis using step by blast
qed

lemma add_blocks:
  assumes "building w r b sz k" "k + length is \<le> 2 ^ 31"
  shows "\<exists>w'. forO (add_block sz info r) is w = Ret () w' \<and> building w' r b sz (k + length is) \<and>
    buf_frame r w w'"
  using assms
proof (induction "is" arbitrary: w k)
  case Nil
  then show ?case by (simp add: buf_frame_refl)
next
  case (Cons i "is")
  then obtain w1 where w1: "add_block sz info r i w = Ret () w1" "building w1 r b sz (Suc k)" "buf_frame r w w1"
    using add_block_step [OF Cons.prems(1)] by fastforce
  moreover from Cons.IH [OF w1(2)] Cons.prems(2) obtain w2 where
    "forO (add_block sz info r) is w1 = Ret () w2" "building w2 r b sz (Suc k + length is)" "buf_frame r w1 w2"
    by auto
  ultimately show ?case using buf_frame_trans [OF w1(3)] by auto
qed

lemma base_buffer_new_ok:
  assumes fresh: "0 < next_ref w"
    and alloc: "os_posix_memalign S (os_pagesize S) (sz * ucast nb) (hw w) = ((0, p), h)"
      "unat p + unat sz * unat nb \<le> 2 ^ 64"
    and size: "0 < sz" "0 < nb" "unat nb \<le> 2 ^ 31" "unat sz * unat nb < 2 ^ 64"
  shows "\<exists>w' b. base_buffer_new S sz nb info w = Ret (next_ref w) w' \<and> wf_buffer w' (next_ref w) \<and>
    buffers w' (next_ref w) = Some b \<and> data_ptr b = p \<and> blocks b = ucast nb \<and> unat (buffer_size b) = unat sz * unat nb \<and>
    next_active b = - 1 \<and> last_active b = - 1 \<and>
    (\<forall>x \<in> set (buffer_mgr b). \<forall>sb. buffers w' x = Some sb \<longrightarrow> \<not> in_used sb) \<and>
    hw w' = h \<and> mem w' = memset0 p sz (mem w) \<and>
    (\<forall>x < next_ref w. buffers w' x = buffers w x) \<and> next_ref w < next_ref w'"
proof -
  let ?r = "next_ref w"
  let ?b = "(buffer_init sz nb info False)\<lparr>data_ptr := p\<rparr>"
  let ?w0 = "w\<lparr>next_ref := Suc ?r, hw := h, buffers := (buffers w)(?r \<mapsto> ?b)\<rparr>"
  have bsz: "unat (sz * ucast nb :: u64) = unat sz * unat nb"
    using size(4) by (simp add: unat_word_ariths)
  then have pos: "0 < sz * (ucast nb :: u64)" and le: "sz \<le> sz * (ucast nb :: u64)"
    using size(1,2) by (auto simp: word_less_nat_alt word_le_nat_alt simp del: word_gt_0)
  have nz: "(ucast nb :: u64) \<noteq> 0"
    using size(2) by (metis unat_ucast_u32 unsigned_0 word_less_nat_alt less_numeral_extra(3))
  have mgr: "buffer_mgr ?b = []" by (simp add: buffer_init_def)
  have "building ?w0 ?r ?b sz 0"
    unfolding building_def using fresh mgr by (auto simp: blocks_ok_def)
  from add_blocks [OF this, of "[0..<unat nb]" info] size(3) obtain w1 where
    w1: "forO (add_block sz info ?r) [0..<unat nb] ?w0 = Ret () w1" "building w1 ?r ?b sz (unat nb)"
      "buf_frame ?r ?w0 w1"
    by auto
  from w1(2) obtain bs where bs: "length bs = unat nb" "buffers w1 ?r = Some (?b\<lparr>buffer_mgr := bs\<rparr>)"
      "blocks_ok w1 ?r (?b\<lparr>buffer_mgr := bs\<rparr>) sz" "?r < next_ref w1"
      "\<forall>x \<in> set bs. \<forall>sb. buffers w1 x = Some sb \<longrightarrow> \<not> in_used sb"
    by (auto simp: building_def)
  let ?b' = "?b\<lparr>buffer_mgr := bs, base_buffer := ?r, is_initialized := True\<rparr>"
  let ?w' = "w1\<lparr>mem := memset0 p sz (mem w1), buffers := (buffers w1)(?r \<mapsto> ?b')\<rparr>"
  have run: "base_buffer_new S sz nb info w = Ret ?r ?w'"
    using w1(1) bs(2) alloc(1) pos le
    by (simp add: base_buffer_new_def buf_defs Let_def hw_call_eq buffer_init_def)
  have notin: "?r \<notin> set bs" using bs(3) by (auto simp: blocks_ok_def)
  have sub: "sub_of ?r ?b' sz i = sub_of ?r (?b\<lparr>buffer_mgr := bs\<rparr>) sz i" for i
    by (simp add: sub_of_def fun_eq_iff)
  have "blocks_ok ?w' ?r ?b' sz"
    using bs(3) notin unfolding blocks_ok_def sub by (auto simp: in_set_conv_nth)
  then have "wf_buffer ?w' ?r"
    unfolding wf_buffer_def using bs(1,4) bsz size alloc(2) nz
    by (auto simp: buffer_init_def intro!: exI [of _ sz])
  then show ?thesis
    using run bs notin w1(3) bsz
    by (intro exI [of _ ?w'] exI [of _ ?b']) (auto simp: buffer_init_def buf_frame_def)
qed

section \<open>Frame of construction\<close>

definition buf_only :: "('w, 'z) buf_world_scheme \<Rightarrow> ('w, 'z) buf_world_scheme \<Rightarrow> bool" where
  "buf_only w t \<longleftrightarrow> (\<exists>h n m bs. t = w\<lparr>hw := h, next_ref := n, mem := m, buffers := bs\<rparr>)"

lemma buf_onlyI: "buf_only w (w\<lparr>hw := h, next_ref := n, mem := m, buffers := bs\<rparr>)"
  unfolding buf_only_def by blast

lemma buf_only_refl: "buf_only w w"
  using buf_onlyI [of w "buffers w" "mem w" "next_ref w" "hw w"] by simp

lemma buf_only_trans: "buf_only w t \<Longrightarrow> buf_only t u \<Longrightarrow> buf_only w u"
  by (clarsimp simp: buf_only_def) blast

lemma buf_only_updates [simp]: "buf_only w (w\<lparr>hw := h\<rparr>)" "buf_only w (w\<lparr>next_ref := n\<rparr>)"
  "buf_only w (w\<lparr>mem := m\<rparr>)" "buf_only w (set_buf r b w)"
  using buf_onlyI [of w "buffers w" "mem w" "next_ref w" h] buf_onlyI [of w "buffers w" "mem w" n "hw w"]
    buf_onlyI [of w "buffers w" m "next_ref w" "hw w"]
    buf_onlyI [of w "(buffers w)(r \<mapsto> b)" "mem w" "next_ref w" "hw w"]
  by (simp_all add: set_buf_def)

lemma add_block_only: "add_block sz info r i w = Ret u t \<Longrightarrow> buf_only w t"
  unfolding add_block_def sub_buffer_new_def Let_def
  by (auto simp: outcome_simps deref_buf_def
      intro!: buf_only_trans [OF buf_only_trans [OF buf_only_updates(2) buf_only_updates(4)] buf_only_updates(4)])

lemma allocate_buffer_only:
  assumes "allocate_buffer S sz nb info w = Ret r t" shows "buf_only w t"
proof -
  let ?b = "buffer_init sz nb info False"
  from assms obtain p h b s u where
    loop: "forO (add_block sz info (next_ref w)) [0..<unat nb]
      (set_buf (next_ref w) (?b\<lparr>data_ptr := p\<rparr>) ((set_buf (next_ref w) ?b (w\<lparr>next_ref := Suc (next_ref w)\<rparr>))\<lparr>hw := h\<rparr>)) = Ret u s"
    and t: "t = set_buf (next_ref w) (b\<lparr>base_buffer := next_ref w, is_initialized := True\<rparr>) (s\<lparr>mem := memset0 p sz (mem s)\<rparr>)"
    by (auto simp: allocate_buffer_def RDMABuffer_new_def base_buffer_new_def Let_def outcome_simps deref_buf_def)
  have "buf_only w (set_buf (next_ref w) (?b\<lparr>data_ptr := p\<rparr>) ((set_buf (next_ref w) ?b (w\<lparr>next_ref := Suc (next_ref w)\<rparr>))\<lparr>hw := h\<rparr>))"
    by (rule buf_only_trans [OF buf_only_trans [OF buf_only_trans [OF buf_only_updates(2) buf_only_updates(4)]
      buf_only_updates(1)] buf_only_updates(4)])
  with loop have "buf_only w s"
    by (rule forO_invariant) (auto intro: buf_only_trans add_block_only)
  then show ?thesis unfolding t
    by (rule buf_only_trans [OF _ buf_only_trans [OF buf_only_updates(3) buf_only_updates(4)]])
qed

section \<open>Blocks\<close>

text \<open>The block a reference in \<open>buffer_mgr_\<close> stands for lies where its index says, inside the base.\<close>

lemma block_range:
  assumes "unat (data_ptr b) + unat sz * n \<le> 2 ^ 64" "i < n" "sub_of r b sz i sb" "0 < sz"
  shows "byte_range (data_ptr sb) (buffer_size sb) =
    {unat (data_ptr b) + i * unat sz ..< unat (data_ptr b) + Suc i * unat sz}"
proof -
  have "Suc i * unat sz \<le> n * unat sz" using assms(2) by (intro mult_le_mono1) simp
  then have lt: "unat (data_ptr b) + i * unat sz < 2 ^ 64"
    using assms(1,4) by (simp add: mult.commute word_less_nat_alt)
  have "(of_nat i * sz :: u64) = of_nat (i * unat sz)" by simp
  with lt have "unat (of_nat i * sz :: u64) = i * unat sz"
    by (simp only: unat_of_nat_small add_lessD1 [of _ "unat (data_ptr b)"] add.commute)
  then have "unat (data_ptr sb) = unat (data_ptr b) + i * unat sz"
    using assms(3) lt by (simp add: sub_of_def unat_word_ariths)
  then show ?thesis
    using assms(3) by (simp add: byte_range_def sub_of_def algebra_simps)
qed

lemma wf_bufferE:
  assumes "wf_buffer w r"
  obtains b sz where "buffers w r = Some b" "r < next_ref w" "\<not> is_sub_buffer b" "base_buffer b = r"
    "0 < sz" "blocks b \<noteq> 0" "length (buffer_mgr b) = unat (blocks b)"
    "unat (buffer_size b) = unat sz * unat (blocks b)"
    "unat (data_ptr b) + unat (buffer_size b) \<le> 2 ^ 64" "blocks_ok w r b sz"
  using assms unfolding wf_buffer_def by blast

text \<open>The address ranges of the blocks of a buffer, by index.\<close>

definition block_bytes :: "('w, 'z) buf_world_scheme \<Rightarrow> oref \<Rightarrow> nat \<Rightarrow> nat set" where
  "block_bytes w r i = (case buffers w r of None \<Rightarrow> {}
     | Some b \<Rightarrow> (case nth_opt (buffer_mgr b) i of None \<Rightarrow> {}
       | Some x \<Rightarrow> (case buffers w x of None \<Rightarrow> {}
         | Some sb \<Rightarrow> byte_range (data_ptr sb) (buffer_size sb))))"

lemma block_bytes_eq:
  assumes "wf_buffer w r" "buffers w r = Some b"
  obtains sz :: u64 where "0 < sz" "unat (buffer_size b) = unat sz * unat (blocks b)"
    "\<And>i. i < unat (blocks b) \<Longrightarrow> block_bytes w r i =
      {unat (data_ptr b) + i * unat sz ..< unat (data_ptr b) + Suc i * unat sz}"
proof -
  from assms obtain sz where f: "0 < sz" "length (buffer_mgr b) = unat (blocks b)"
    "unat (buffer_size b) = unat sz * unat (blocks b)"
    "unat (data_ptr b) + unat (buffer_size b) \<le> 2 ^ 64" "blocks_ok w r b sz"
    by (auto simp: wf_buffer_def)
  have "block_bytes w r i = {unat (data_ptr b) + i * unat sz ..< unat (data_ptr b) + Suc i * unat sz}"
    if i: "i < unat (blocks b)" for i
  proof -
    from f(2,5) i obtain sb where "buffers w (buffer_mgr b ! i) = Some sb" "sub_of r b sz i sb"
      by (auto simp: blocks_ok_def)
    moreover have "unat (data_ptr b) + unat sz * unat (blocks b) \<le> 2 ^ 64"
      using f(3,4) by simp
    ultimately show ?thesis
      using block_range [OF _ i _ f(1)] assms(2) f(2) i by (simp add: block_bytes_def nth_opt_def)
  qed
  then show ?thesis by (rule that [OF f(1,3)])
qed

lemma slices_cover: "0 < s \<Longrightarrow> (\<Union>i < n. {a + i * s ..< a + Suc i * s}) = {a ..< a + s * (n :: nat)}"
proof (induction n)
  case (Suc n)
  then show ?case by (auto simp: lessThan_Suc algebra_simps)
qed simp

lemma slices_disjoint:
  assumes "i \<noteq> j" shows "{a + i * s ..< a + Suc i * s} \<inter> {a + j * s ..< a + Suc j * s} = ({} :: nat set)"
proof -
  have "Suc i * s \<le> j * s \<or> Suc j * s \<le> i * s"
    using assms by (metis Suc_leI mult_le_mono1 nat_neq_iff)
  then show ?thesis by auto
qed

section \<open>The contract of a block ring\<close>

text \<open>What the users of \<open>next\<close> and \<open>last\<close> (the connection handlers and the event loops of the
  programs) rely on: \<open>acquire\<close> hands out a block nobody holds while one is free, \<open>release\<close> gives the
  oldest one back. \<open>budget\<close> is how many more blocks can be acquired before the counter ends.\<close>

datatype ring_op = Next | Last

text \<open>A sequence of operations, with the blocks acquired and released, in order.\<close>

fun ring_run :: "('s \<Rightarrow> ('b, 's) outcome) \<Rightarrow> ('s \<Rightarrow> ('b, 's) outcome) \<Rightarrow> ring_op list \<Rightarrow> 's \<Rightarrow>
    ('b list \<times> 'b list, 's) outcome" where
  "ring_run acquire release [] s = Ret ([], []) s"
| "ring_run acquire release (Next # ops) s = bindO (acquire s) (\<lambda>b s.
     bindO (ring_run acquire release ops s) (\<lambda>(got, given). Ret (b # got, given)))"
| "ring_run acquire release (Last # ops) s = bindO (release s) (\<lambda>b s.
     bindO (ring_run acquire release ops s) (\<lambda>(got, given). Ret (got, b # given)))"

text \<open>Sequences that never hold more than \<open>cap\<close> blocks and never give back one that is not held.\<close>

fun balanced :: "nat \<Rightarrow> nat \<Rightarrow> ring_op list \<Rightarrow> bool" where
  "balanced cap k [] = True"
| "balanced cap k (Next # ops) = (k < cap \<and> balanced cap (Suc k) ops)"
| "balanced cap k (Last # ops) = (0 < k \<and> balanced cap (k - 1) ops)"

locale block_ring =
  fixes ok :: "'s \<Rightarrow> bool"
    and held :: "'s \<Rightarrow> 'b list"
    and capacity budget :: "'s \<Rightarrow> nat"
    and acquire release :: "'s \<Rightarrow> ('b, 's) outcome"
  assumes acquires: "ok s \<Longrightarrow> length (held s) < capacity s \<Longrightarrow> 0 < budget s \<Longrightarrow>
      \<exists>b t. acquire s = Ret b t \<and> ok t \<and> held t = held s @ [b] \<and>
        capacity t = capacity s \<and> Suc (budget t) = budget s"
    and releases: "ok s \<Longrightarrow> held s = b # bs \<Longrightarrow>
      \<exists>t. release s = Ret b t \<and> ok t \<and> held t = bs \<and> capacity t = capacity s \<and> budget t = budget s"
    and held_distinct: "ok s \<Longrightarrow> distinct (held s)"
begin

lemma run_fifo:
  assumes "ok s" "balanced (capacity s) (length (held s)) ops"
    "length (filter (\<lambda>p. p = Next) ops) \<le> budget s"
  shows "\<exists>got given t. ring_run acquire release ops s = Ret (got, given) t \<and> ok t \<and>
    held s @ got = given @ held t \<and> distinct (held t)"
  using assms
proof (induction ops arbitrary: s)
  case Nil
  then show ?case by (simp add: held_distinct)
next
  case (Cons p ops)
  show ?case
  proof (cases p)
    case Next
    with Cons.prems acquires [of s] obtain b t where t: "acquire s = Ret b t" "ok t" "held t = held s @ [b]"
        "capacity t = capacity s" "Suc (budget t) = budget s"
      by auto
    with Cons.prems Next Cons.IH [of t] show ?thesis by fastforce
  next
    case Last
    with Cons.prems obtain b bs where h: "held s = b # bs" by (cases "held s") auto
    with Cons.prems(1) releases obtain t where "release s = Ret b t" "ok t" "held t = bs"
        "capacity t = capacity s" "budget t = budget s"
      by blast
    with Cons.prems Last h Cons.IH [of t] show ?thesis by fastforce
  qed
qed

end

section \<open>The ring of a base buffer\<close>

text \<open>What \<open>next\<close>, \<open>last\<close> and registration change of a buffer object leaves its shape alone.\<close>

definition buf_shape :: "RDMABuffer \<Rightarrow> RDMABuffer" where
  "buf_shape b = b\<lparr>next_active := 0, last_active := 0, in_used := False, owned_by_channel := 0, buf_mr := 0\<rparr>"

lemma buf_shape_fields:
  "buf_shape b = buf_shape b' \<Longrightarrow> is_sub_buffer b = is_sub_buffer b' \<and> base_buffer b = base_buffer b' \<and>
     buffer_size b = buffer_size b' \<and> data_ptr b = data_ptr b' \<and> buffer_index b = buffer_index b' \<and>
     buffer_mgr b = buffer_mgr b' \<and> blocks b = blocks b'"
  by (cases b; cases b') (simp add: buf_shape_def)

lemma buf_shape_idem [simp]: "buf_shape (b\<lparr>next_active := i\<rparr>) = buf_shape b"
  "buf_shape (b\<lparr>last_active := i\<rparr>) = buf_shape b" "buf_shape (b\<lparr>in_used := u\<rparr>) = buf_shape b"
  "buf_shape (b\<lparr>owned_by_channel := c\<rparr>) = buf_shape b" "buf_shape (b\<lparr>buf_mr := m\<rparr>) = buf_shape b"
  by (simp_all add: buf_shape_def)

lemma wf_buffer_shape:
  assumes wf: "wf_buffer w r" and "next_ref w' = next_ref w"
    and sh: "\<And>x. map_option buf_shape (buffers w' x) = map_option buf_shape (buffers w x)"
  shows "wf_buffer w' r"
proof -
  from wf obtain b sz where f: "buffers w r = Some b" "r < next_ref w" "\<not> is_sub_buffer b" "base_buffer b = r"
    "0 < sz" "blocks b \<noteq> 0" "length (buffer_mgr b) = unat (blocks b)"
    "unat (buffer_size b) = unat sz * unat (blocks b)"
    "unat (data_ptr b) + unat (buffer_size b) \<le> 2 ^ 64" "blocks_ok w r b sz"
    by (rule wf_bufferE)
  from sh [of r] f(1) obtain b' where b': "buffers w' r = Some b'" "buf_shape b' = buf_shape b"
    by auto
  note eqs = buf_shape_fields [OF b'(2)]
  have "\<exists>sb. buffers w' (buffer_mgr b' ! i) = Some sb \<and> sub_of r b' sz i sb" if i: "i < length (buffer_mgr b')" for i
  proof -
    from f(10) i eqs obtain sb where sb: "buffers w (buffer_mgr b' ! i) = Some sb" "sub_of r b sz i sb"
      by (auto simp: blocks_ok_def)
    with sh [of "buffer_mgr b' ! i"] obtain sb' where "buffers w' (buffer_mgr b' ! i) = Some sb'"
        "buf_shape sb' = buf_shape sb"
      by auto
    with sb eqs buf_shape_fields [of sb' sb] show ?thesis by (auto simp: sub_of_def)
  qed
  then have "blocks_ok w' r b' sz"
    using f(10) eqs assms(2) by (auto simp: blocks_ok_def)
  then show ?thesis
    unfolding wf_buffer_def using f b' eqs assms(2)
    by (intro exI [of _ b'] exI [of _ sz]) simp
qed

definition ring_slot :: "RDMABuffer \<Rightarrow> int \<Rightarrow> oref" where
  "ring_slot b k = buffer_mgr b ! (nat k mod unat (blocks b))"

lemma ring_index:
  assumes "0 \<le> i" "i \<le> INT_MAX"
  shows "unat ((of_int i :: u64) mod n) = nat i mod unat n"
proof -
  have "(of_int i :: u64) = of_nat (nat i)" using assms(1) by simp
  moreover have "nat i < 2 ^ 64" using assms(2) by simp
  ultimately show ?thesis by (simp only: unat_mod_distrib unat_of_nat_small)
qed

lemma window_inj:
  assumes "0 \<le> j" "j < k" "k - j < int n" shows "nat j mod n \<noteq> nat k mod n"
proof
  assume "nat j mod n = nat k mod n"
  then have "int n dvd k - j"
    using assms by (metis int_nat_eq mod_eq_dvd_iff of_nat_mod order_less_imp_le order_trans)
  with assms show False by (auto dest: zdvd_imp_le)
qed

lemma wf_block:
  assumes "wf_buffer w r" "buffers w r = Some b"
  shows "ring_slot b k \<in> set (buffer_mgr b)" "ring_slot b k \<noteq> r"
    "\<exists>sb. buffers w (ring_slot b k) = Some sb \<and> base_buffer sb = r" "distinct (buffer_mgr b)" "0 < unat (blocks b)"
    "base_buffer b = r" "length (buffer_mgr b) = unat (blocks b)"
proof -
  from assms obtain sz where f: "base_buffer b = r" "blocks b \<noteq> 0" "length (buffer_mgr b) = unat (blocks b)"
     "blocks_ok w r b sz"
    by (auto simp: wf_buffer_def)
  then show pos: "0 < unat (blocks b)" and "distinct (buffer_mgr b)" "base_buffer b = r"
      "length (buffer_mgr b) = unat (blocks b)"
    by (auto simp: blocks_ok_def unat_gt_0)
  then have lt: "nat k mod unat (blocks b) < length (buffer_mgr b)" using f(3) by simp
  then show mgr: "ring_slot b k \<in> set (buffer_mgr b)" by (simp add: ring_slot_def)
  from mgr f(4) show "ring_slot b k \<noteq> r" by (auto simp: blocks_ok_def)
  show "\<exists>sb. buffers w (ring_slot b k) = Some sb \<and> base_buffer sb = r"
    using f(4) lt by (auto simp: ring_slot_def blocks_ok_def sub_of_def)
qed

lemma slot_window_inj:
  assumes "wf_buffer w r" "buffers w r = Some b" "0 \<le> j" "j < k" "k - j < int (unat (blocks b))"
  shows "ring_slot b j \<noteq> ring_slot b k"
  using wf_block(4,5,7) [OF assms(1,2)] window_inj [OF assms(3-5)]
  by (simp add: ring_slot_def nth_eq_iff_index_eq)

lemma outstanding_eq:
  "buffers w r = Some b \<Longrightarrow> outstanding r w = map (ring_slot b) [last_active b + 1..next_active b]"
  by (simp add: outstanding_def ring_slot_def)

lemma buffer_next_eq:
  assumes "wf_buffer w r" "buffers w r = Some b" "- 1 \<le> next_active b" "next_active b < INT_MAX"
    and "buffers w (ring_slot b (next_active b + 1)) = Some sb"
  shows "buffer_next r w = Ret (ring_slot b (next_active b + 1))
     (w\<lparr>buffers := (buffers w)(r \<mapsto> b\<lparr>next_active := next_active b + 1\<rparr>,
        ring_slot b (next_active b + 1) \<mapsto> sb\<lparr>in_used := True\<rparr>)\<rparr>)"
proof -
  have "unat ((of_int (next_active b + 1) :: u64) mod blocks b) = nat (next_active b + 1) mod unat (blocks b)"
    using assms(3,4) by (intro ring_index) auto
  moreover have "blocks b \<noteq> 0" using wf_block(5) [OF assms(1,2)] by auto
  ultimately show ?thesis
    using assms(2,4,5) wf_block(2) [OF assms(1,2), of "next_active b + 1"] wf_block(5-7) [OF assms(1,2)]
    by (simp add: buffer_next_def buf_defs Let_def nth_opt_def ring_slot_def del: of_int_add)
qed

lemma buffer_last_eq:
  assumes "wf_buffer w r" "buffers w r = Some b" "- 1 \<le> last_active b" "last_active b < INT_MAX"
    and "buffers w (ring_slot b (last_active b + 1)) = Some sb"
  shows "buffer_last r w = Ret (ring_slot b (last_active b + 1))
     (w\<lparr>buffers := (buffers w)(r \<mapsto> b\<lparr>last_active := last_active b + 1\<rparr>,
        ring_slot b (last_active b + 1) \<mapsto> sb\<lparr>in_used := False\<rparr>)\<rparr>)"
proof -
  have "unat ((of_int (last_active b + 1) :: u64) mod blocks b) = nat (last_active b + 1) mod unat (blocks b)"
    using assms(3,4) by (intro ring_index) auto
  moreover have "blocks b \<noteq> 0" using wf_block(5) [OF assms(1,2)] by auto
  ultimately show ?thesis
    using assms(2,4,5) wf_block(2) [OF assms(1,2), of "last_active b + 1"] wf_block(5-7) [OF assms(1,2)]
    by (simp add: buffer_last_def buf_defs Let_def nth_opt_def ring_slot_def del: of_int_add)
qed

lemma ring_okE:
  assumes "ring_ok r w"
  obtains b where "wf_buffer w r" "buffers w r = Some b" "- 1 \<le> last_active b"
    "last_active b \<le> next_active b" "next_active b \<le> INT_MAX"
    "next_active b - last_active b \<le> int (unat (blocks b))"
    "\<forall>x \<in> set (buffer_mgr b). \<forall>sb. buffers w x = Some sb \<longrightarrow> in_used sb = (x \<in> set (outstanding r w))"
  using assms unfolding ring_ok_def by blast

lemma outstanding_length: "buffers w r = Some b \<Longrightarrow>
    length (outstanding r w) = nat (next_active b - last_active b)"
  by (simp add: outstanding_eq)

lemma outstanding_distinct:
  assumes "ring_ok r w" shows "distinct (outstanding r w)"
proof -
  from assms obtain b where b: "wf_buffer w r" "buffers w r = Some b" "- 1 \<le> last_active b"
    "next_active b - last_active b \<le> int (unat (blocks b))"
    by (rule ring_okE)
  have "inj_on (ring_slot b) {last_active b + 1..next_active b}"
    using slot_window_inj [OF b(1,2)] b(3,4)
    by (intro linorder_inj_onI) auto
  then show ?thesis using b(2) by (simp add: outstanding_eq distinct_map)
qed

lemma ring_update:
  assumes "wf_buffer w r" "buffers w r = Some b" "buf_shape b' = buf_shape b"
    "buffers w (ring_slot b k) = Some sb" "- 1 \<le> last_active b'" "last_active b' \<le> next_active b'"
    "next_active b' \<le> INT_MAX" "next_active b' - last_active b' \<le> int (unat (blocks b))"
    and used: "\<And>x sb'. x \<in> set (buffer_mgr b) \<Longrightarrow> x \<noteq> ring_slot b k \<Longrightarrow> buffers w x = Some sb' \<Longrightarrow>
        in_used sb' = (x \<in> ring_slot b ` {last_active b' + 1..next_active b'})"
      "u = (ring_slot b k \<in> ring_slot b ` {last_active b' + 1..next_active b'})"
  shows "ring_ok r (w\<lparr>buffers := (buffers w)(r \<mapsto> b', ring_slot b k \<mapsto> sb\<lparr>in_used := u\<rparr>)\<rparr>)"
    (is "ring_ok r ?w")
proof -
  note eqs = buf_shape_fields [OF assms(3)]
  from eqs have slot: "ring_slot b' = ring_slot b" by (simp add: ring_slot_def fun_eq_iff)
  have ne: "ring_slot b k \<noteq> r" using wf_block(2) [OF assms(1,2)] .
  have "wf_buffer ?w r"
    using assms(1) by (rule wf_buffer_shape) (use assms(2-4) in auto)
  moreover have r: "buffers ?w r = Some b'" using ne by simp
  moreover have "set (outstanding r ?w) = ring_slot b ` {last_active b' + 1..next_active b'}"
    using slot by (simp add: outstanding_eq [OF r])
  moreover have "r \<notin> set (buffer_mgr b)"
    using assms(1,2) by (auto simp: wf_buffer_def blocks_ok_def)
  ultimately show ?thesis
    unfolding ring_ok_def using assms(5-8) eqs used ne
    by (intro conjI exI [of _ b']) (auto split: if_splits)
qed

lemma buffer_next_acquires:
  assumes ok: "ring_ok r w" and free: "length (outstanding r w) < ring_capacity r w" and "0 < ring_budget r w"
  shows "\<exists>x w'. buffer_next r w = Ret x w' \<and> ring_ok r w' \<and> outstanding r w' = outstanding r w @ [x] \<and>
    ring_capacity r w' = ring_capacity r w \<and> Suc (ring_budget r w') = ring_budget r w"
proof -
  from ok obtain b where b: "wf_buffer w r" "buffers w r = Some b" "- 1 \<le> last_active b"
    "last_active b \<le> next_active b" "next_active b \<le> INT_MAX"
    "next_active b - last_active b \<le> int (unat (blocks b))"
    "\<forall>x \<in> set (buffer_mgr b). \<forall>sb. buffers w x = Some sb \<longrightarrow> in_used sb = (x \<in> set (outstanding r w))"
    by (rule ring_okE)
  let ?i = "next_active b + 1"
  from b(2) assms(3) have lt: "next_active b < INT_MAX" by (simp add: ring_budget_def)
  from free b(2,4) have room: "?i - last_active b \<le> int (unat (blocks b))"
    by (simp add: ring_capacity_def outstanding_length del: uint_nat of_nat_unat)
  from wf_block(3) [OF b(1,2), of ?i] obtain sb where sb: "buffers w (ring_slot b ?i) = Some sb" by auto
  let ?b = "b\<lparr>next_active := ?i\<rparr>"
  let ?w = "w\<lparr>buffers := (buffers w)(r \<mapsto> ?b, ring_slot b ?i \<mapsto> sb\<lparr>in_used := True\<rparr>)\<rparr>"
  have win: "{last_active b + 1..?i} = insert ?i {last_active b + 1..next_active b}"
    using b(4) by auto
  have ok': "ring_ok r ?w"
    using b(1,2) _ sb
  proof (rule ring_update)
    fix x sb' assume "x \<in> set (buffer_mgr b)" "x \<noteq> ring_slot b ?i" "buffers w x = Some sb'"
    with b(7) show "in_used sb' = (x \<in> ring_slot b ` {last_active ?b + 1..next_active ?b})"
      by (simp add: win outstanding_eq [OF b(2)])
  qed (use b room lt in \<open>auto simp: win\<close>)
  have "ring_slot b ?i \<noteq> r" by (rule wf_block(2) [OF b(1,2)])
  then have r: "buffers ?w r = Some ?b" by simp
  have "ring_slot ?b = ring_slot b" by (simp add: ring_slot_def fun_eq_iff)
  then have "outstanding r ?w = outstanding r w @ [ring_slot b ?i]"
    using b(4) by (simp add: outstanding_eq [OF r] outstanding_eq [OF b(2)] upto_rec2)
  with ok' buffer_next_eq [OF b(1,2) _ lt sb] r b(2-4) lt show ?thesis
    by (intro exI [of _ "ring_slot b ?i"] exI [of _ ?w]) (auto simp: ring_capacity_def ring_budget_def)
qed

lemma buffer_last_releases:
  assumes ok: "ring_ok r w" and held: "outstanding r w = x # xs"
  shows "\<exists>w'. buffer_last r w = Ret x w' \<and> ring_ok r w' \<and> outstanding r w' = xs \<and>
    ring_capacity r w' = ring_capacity r w \<and> ring_budget r w' = ring_budget r w"
proof -
  from ok obtain b where b: "wf_buffer w r" "buffers w r = Some b" "- 1 \<le> last_active b"
    "last_active b \<le> next_active b" "next_active b \<le> INT_MAX"
    "next_active b - last_active b \<le> int (unat (blocks b))"
    "\<forall>x \<in> set (buffer_mgr b). \<forall>sb. buffers w x = Some sb \<longrightarrow> in_used sb = (x \<in> set (outstanding r w))"
    by (rule ring_okE)
  let ?i = "last_active b + 1"
  have some: "?i \<le> next_active b" using held by (cases "?i \<le> next_active b") (auto simp: outstanding_eq [OF b(2)])
  then have out: "outstanding r w = ring_slot b ?i # map (ring_slot b) [?i + 1..next_active b]"
    by (simp add: outstanding_eq [OF b(2)] upto_rec1)
  with held have x: "x = ring_slot b ?i" and xs: "xs = map (ring_slot b) [?i + 1..next_active b]" by auto
  have dist: "ring_slot b ?i \<notin> set xs" using outstanding_distinct [OF ok] out xs by simp
  from wf_block(3) [OF b(1,2), of ?i] obtain sb where sb: "buffers w (ring_slot b ?i) = Some sb" by auto
  let ?b = "b\<lparr>last_active := ?i\<rparr>"
  let ?w = "w\<lparr>buffers := (buffers w)(r \<mapsto> ?b, ring_slot b ?i \<mapsto> sb\<lparr>in_used := False\<rparr>)\<rparr>"
  have ok': "ring_ok r ?w"
    using b(1,2) _ sb
  proof (rule ring_update)
    fix x sb' assume "x \<in> set (buffer_mgr b)" "x \<noteq> ring_slot b ?i" "buffers w x = Some sb'"
    with b(7) show "in_used sb' = (x \<in> ring_slot b ` {last_active ?b + 1..next_active ?b})"
      by (simp add: out)
  qed (use b some dist xs in auto)
  have "ring_slot b ?i \<noteq> r" by (rule wf_block(2) [OF b(1,2)])
  then have r: "buffers ?w r = Some ?b" by simp
  have "ring_slot ?b = ring_slot b" by (simp add: ring_slot_def fun_eq_iff)
  then have "outstanding r ?w = xs" by (simp add: outstanding_eq [OF r] xs)
  with ok' buffer_last_eq [OF b(1,2,3) _ sb] r b(2-5) some x show ?thesis
    by (intro exI [of _ ?w]) (auto simp: ring_capacity_def ring_budget_def)
qed

interpretation ring: block_ring "ring_ok r" "outstanding r" "ring_capacity r" "ring_budget r"
  "buffer_next r" "buffer_last r" for r
  by unfold_locales (auto intro: buffer_next_acquires buffer_last_releases outstanding_distinct)

section \<open>Properties\<close>

text \<open>Property C11. \<open>RDMABuffer::allocate_buffer\<close>: when the allocation succeeds and the total size fits in
  \<open>size_t\<close>, the constructor returns a well-formed buffer of \<open>nb\<close> blocks whose ring is idle: no block
  is handed out, the capacity is the number of blocks and \<open>next\<close> may be called \<open>2 ^ 31\<close> times. No
  object that existed before changes.\<close>

theorem allocate_buffer_ring:
  assumes "0 < next_ref w"
    and "os_posix_memalign S (os_pagesize S) (sz * ucast nb) (hw w) = ((0, p), h)"
      "unat p + unat sz * unat nb \<le> 2 ^ 64"
    and "0 < sz" "0 < nb" "unat nb \<le> 2 ^ 31" "unat sz * unat nb < 2 ^ 64"
  shows "\<exists>w'. allocate_buffer S sz nb info w = Ret (next_ref w) w' \<and> ring_ok (next_ref w) w' \<and>
    outstanding (next_ref w) w' = [] \<and> ring_capacity (next_ref w) w' = unat nb \<and>
    ring_budget (next_ref w) w' = 2 ^ 31 \<and> (\<forall>x < next_ref w. buffers w' x = buffers w x)"
proof -
  from base_buffer_new_ok [OF assms] obtain w' b where
    "base_buffer_new S sz nb info w = Ret (next_ref w) w'" "wf_buffer w' (next_ref w)"
    "buffers w' (next_ref w) = Some b" "blocks b = ucast nb" "next_active b = - 1" "last_active b = - 1"
    "\<forall>x \<in> set (buffer_mgr b). \<forall>sb. buffers w' x = Some sb \<longrightarrow> \<not> in_used sb"
    "\<forall>x < next_ref w. buffers w' x = buffers w x"
    by blast
  then show ?thesis
    by (intro exI [of _ w'])
      (auto simp: allocate_buffer_def RDMABuffer_new_def ring_ok_def outstanding_eq ring_capacity_def ring_budget_def)
qed

definition buf_world0 :: "lb_state buf_world" where
  "buf_world0 = \<lparr>hw = lb_init, next_ref = 1, device_map = Map.empty, devices = Map.empty, cache_line_size = 64, cycle_buffer = 4096, mem = (\<lambda>_. 7),
     buffers = Map.empty\<rparr>"

lemma buf_world0_alloc: "os_posix_memalign loopback (os_pagesize loopback) n (hw buf_world0) =
    ((0, 4096), lb_init\<lparr>lb_brk := 4096 + n\<rparr>)"
  by (simp add: loopback_def buf_world0_def lb_init_def)

theorem allocate_buffer_ring_witness:
  "\<exists>w'. allocate_buffer loopback 16384 20 ''ring'' buf_world0 = Ret 1 w' \<and> ring_ok 1 w' \<and>
    outstanding 1 w' = [] \<and> ring_capacity 1 w' = 20 \<and> ring_budget 1 w' = 2 ^ 31"
  using allocate_buffer_ring [OF _ buf_world0_alloc, of 16384 20 "''ring''"]
  by (auto simp: buf_world0_def)


text \<open>A buffer of three blocks of 16 bytes, as the constructor builds it, for the witnesses.\<close>

definition three_blocks :: "lb_state buf_world" where
  "three_blocks = state_of (allocate_buffer loopback 16 3 ''b'' buf_world0)"

lemma three_blocks_ok:
  "allocate_buffer loopback 16 3 ''b'' buf_world0 = Ret 1 three_blocks \<and> ring_ok 1 three_blocks \<and>
   outstanding 1 three_blocks = [] \<and> ring_capacity 1 three_blocks = 3 \<and> ring_budget 1 three_blocks = 2 ^ 31"
proof -
  from base_buffer_new_ok [OF _ buf_world0_alloc, of 16 3 "''b''"] obtain w' b where
    "base_buffer_new loopback 16 3 ''b'' buf_world0 = Ret 1 w'" "wf_buffer w' 1"
    "buffers w' 1 = Some b" "blocks b = 3" "next_active b = - 1" "last_active b = - 1"
    "\<forall>x \<in> set (buffer_mgr b). \<forall>sb. buffers w' x = Some sb \<longrightarrow> \<not> in_used sb"
    by (auto simp: buf_world0_def)
  then show ?thesis
    by (auto simp: three_blocks_def allocate_buffer_def RDMABuffer_new_def ring_ok_def outstanding_eq
      ring_capacity_def ring_budget_def)
qed


text \<open>Property C4. The ring of blocks is a FIFO: from any consistent state, every sequence of \<open>next\<close> and
  \<open>last\<close> that never holds more blocks than there are (and stays within the \<open>int\<close> counter) returns;
  the blocks given back are the ones handed out, in the same order, and at no time are two holders
  given the same block.\<close>

theorem buffer_ring_fifo:
  assumes "ring_ok r w" "balanced (ring_capacity r w) (length (outstanding r w)) ops"
    "length (filter (\<lambda>p. p = Next) ops) \<le> ring_budget r w"
  shows "\<exists>got given w'. ring_run (buffer_next r) (buffer_last r) ops w = Ret (got, given) w' \<and> ring_ok r w' \<and>
    outstanding r w @ got = given @ outstanding r w' \<and> distinct (outstanding r w')"
  using assms by (rule ring.run_fifo)

theorem buffer_ring_fifo_witness:
  "\<exists>got given w'. ring_run (buffer_next 1) (buffer_last 1) [Next, Next, Last, Next, Next, Last] three_blocks
      = Ret (got, given) w' \<and> ring_ok 1 w' \<and> got = given @ outstanding 1 w'"
  using buffer_ring_fifo [of 1 three_blocks "[Next, Next, Last, Next, Next, Last]"] three_blocks_ok
  by (auto simp del: ring_run.simps)

text \<open>Property C23. Without a free block \<open>next\<close> does not refuse: its \<open>CHECK\<close> on \<open>in_used\<close> is commented out,
  and it hands out the oldest block that is still in use. At \<open>INT_MAX\<close> the increment of the counter is
  undefined.\<close>

theorem buffer_next_overrun:
  assumes "ring_ok r w" "length (outstanding r w) = ring_capacity r w"
  shows "if 0 < ring_budget r w then \<exists>w'. buffer_next r w = Ret (hd (outstanding r w)) w' \<and>
           hd (outstanding r w) \<in> set (outstanding r w)
         else \<exists>w'. buffer_next r w = Halt (Undefined ''++next_active overflows'') w'"
proof -
  from assms(1) obtain b where b: "wf_buffer w r" "buffers w r = Some b" "- 1 \<le> last_active b"
    "last_active b \<le> next_active b" by (rule ring_okE)
  note wf = wf_block(5,6) [OF b(1,2)]
  have "nat (next_active b - last_active b) = unat (blocks b)"
    using assms(2) b(2) by (simp add: ring_capacity_def outstanding_length)
  with b(4) have n: "next_active b - last_active b = int (unat (blocks b))" by linarith
  have out: "outstanding r w = ring_slot b (last_active b + 1) # map (ring_slot b) [2 + last_active b..next_active b]"
    using n wf(1) by (simp add: outstanding_eq [OF b(2)] upto_rec1 del: uint_nat of_nat_unat)
  have "nat (next_active b + 1) = nat (last_active b + 1) + unat (blocks b)"
    using n b(3) by linarith
  then have slot: "ring_slot b (next_active b + 1) = hd (outstanding r w)"
    by (simp add: out ring_slot_def)
  obtain sb where "buffers w (ring_slot b (next_active b + 1)) = Some sb"
    using wf_block(3) [OF b(1,2)] by blast
  then show ?thesis
    using buffer_next_eq [OF b(1,2)] b(2-4) slot wf out
    by (auto simp: ring_budget_def buffer_next_def buf_defs)
qed

theorem buffer_next_overrun_witness:
  "\<exists>(w :: lb_state buf_world) w'. buffer_next 1 w = Ret (hd (outstanding 1 w)) w' \<and> hd (outstanding 1 w) \<in> set (outstanding 1 w)"
proof -
  obtain got given w where run: "ring_run (buffer_next 1) (buffer_last 1) [Next, Next, Next] three_blocks
      = Ret (got, given) w" "ring_ok 1 w"
    using ring.run_fifo [of 1 three_blocks "[Next, Next, Next]"] three_blocks_ok by auto
  have "case buffers (state_of (ring_run (buffer_next 1) (buffer_last 1) [Next, Next, Next] three_blocks)) 1 of
      None \<Rightarrow> False | Some b \<Rightarrow> last_active b = - 1 \<and> next_active b = 2 \<and> blocks b = 3"
    by code_simp
  with run(1) have "length (outstanding 1 w) = ring_capacity 1 w" "0 < ring_budget 1 w"
    by (auto simp: outstanding_eq ring_capacity_def ring_budget_def split: option.splits simp del: ring_run.simps)
  with buffer_next_overrun [OF run(2)] show ?thesis by auto
qed

text \<open>What \<open>fill_in\<close> does to memory.\<close>

lemma fill_in_eq:
  assumes "buffers w x = Some b" "data_ptr b \<noteq> 0" "unat n \<le> unat (buffer_size b)" "unat n \<le> length bs"
  shows "fill_in x bs n w = Ret True (w\<lparr>mem := mem_write (data_ptr b) (take (unat n) bs)
    (memset0 (data_ptr b) (buffer_size b) (mem w))\<rparr>)"
proof -
  have "ucast n \<le> buffer_size b" using assms(3) by (simp add: word_le_nat_alt)
  with assms show ?thesis by (simp add: fill_in_def buffer_clear_def buf_defs)
qed

lemma block_nowrap:
  assumes "wf_buffer w r" "buffers w r = Some b" "i < unat (blocks b)" "buffers w (buffer_mgr b ! i) = Some sb"
  shows "unat (data_ptr sb) + unat (buffer_size sb) \<le> 2 ^ 64"
proof -
  from assms obtain sz where f: "0 < sz" "unat (data_ptr b) + unat sz * unat (blocks b) \<le> 2 ^ 64"
      "sub_of r b sz i sb"
    by (auto simp: wf_buffer_def blocks_ok_def)
  have "byte_range (data_ptr sb) (buffer_size sb) =
      {unat (data_ptr b) + i * unat sz ..< unat (data_ptr b) + Suc i * unat sz}"
    using f(2) assms(3) f(3,1) by (rule block_range)
  then have "unat (data_ptr sb) + unat (buffer_size sb) = unat (data_ptr b) + Suc i * unat sz"
    using f(1) by (simp add: byte_range_def word_less_nat_alt Ico_eq_Ico)
  moreover have "Suc i * unat sz \<le> unat (blocks b) * unat sz"
    using assms(3) by (intro mult_le_mono1) simp
  ultimately show ?thesis using f(2) by (simp add: mult.commute)
qed

text \<open>\<open>fill_in\<close> on block \<open>i\<close> of a buffer stores the message at the start of the block, zeroes
  the rest of the block, and leaves every other byte of memory alone, in particular every other block.
  A message longer than the block is refused.\<close>

theorem fill_in_block:
  assumes wf: "wf_buffer w r" and b: "buffers w r = Some b" and i: "i < unat (blocks b)"
    and x: "buffer_mgr b ! i = x" "buffers w x = Some sb" "data_ptr sb \<noteq> 0" and n: "unat n \<le> length bs"
  shows "if unat n \<le> unat (buffer_size sb)
    then \<exists>w'. fill_in x bs n w = Ret True w' \<and>
      (\<forall>a. unat a \<notin> block_bytes w r i \<longrightarrow> mem w' a = mem w a) \<and>
      mem_read (data_ptr sb) (unat (buffer_size sb)) (mem w') =
        take (unat n) bs @ replicate (unat (buffer_size sb) - unat n) 0
    else \<exists>msg. fill_in x bs n w = Halt (CheckFailed msg) w"
proof (cases "unat n \<le> unat (buffer_size sb)")
  case True
  let ?w = "w\<lparr>mem := mem_write (data_ptr sb) (take (unat n) bs) (memset0 (data_ptr sb) (buffer_size sb) (mem w))\<rparr>"
  have run: "fill_in x bs n w = Ret True ?w"
    using x(2,3) True n by (rule fill_in_eq)
  have blk: "block_bytes w r i = byte_range (data_ptr sb) (buffer_size sb)"
    using b x i wf_block(7) [OF wf b] by (simp add: block_bytes_def nth_opt_def)
  have nowrap: "unat (data_ptr sb) + unat (buffer_size sb) \<le> 2 ^ 64"
    using block_nowrap [OF wf b i] x by blast
  have out: "mem ?w a = mem w a" if "unat a \<notin> block_bytes w r i" for a
  proof -
    from that blk have "\<not> a - data_ptr sb < buffer_size sb"
      using in_range_iff [OF nowrap] by blast
    with True show ?thesis
      by (simp add: memset0_def mem_write_def word_less_nat_alt)
  qed
  have "mem_read (data_ptr sb) (unat (buffer_size sb)) (mem ?w) =
        take (unat n) bs @ replicate (unat (buffer_size sb) - unat n) 0"
    using True n unsigned_less [of "buffer_size sb", where ?'a = nat]
    by (intro nth_equalityI)
      (auto simp: nth_mem_read nth_append mem_write_def memset0_def unat_of_nat_small word_less_nat_alt)
  with run out True show ?thesis by auto
next
  case False
  then have "\<not> ucast n \<le> buffer_size sb" by (simp add: word_le_nat_alt)
  with x(2) False show ?thesis by (auto simp: fill_in_def buf_defs)
qed

theorem fill_in_block_witness:
  "\<exists>b x sb w'. buffers three_blocks 1 = Some b \<and> buffer_mgr b ! 1 = x \<and> buffers three_blocks x = Some sb \<and>
     fill_in x [1, 2, 3, 4] 3 three_blocks = Ret True w' \<and>
     (\<forall>a. unat a \<notin> block_bytes three_blocks 1 1 \<longrightarrow> mem w' a = mem three_blocks a) \<and>
     mem_read (data_ptr sb) 16 (mem w') = [1, 2, 3] @ replicate 13 0"
proof -
  from three_blocks_ok have "ring_ok 1 three_blocks" by blast
  then obtain b where b: "wf_buffer three_blocks 1" "buffers three_blocks 1 = Some b" by (rule ring_okE)
  have "case buffers three_blocks 1 of None \<Rightarrow> False
      | Some b \<Rightarrow> blocks b = 3 \<and> (case buffers three_blocks (buffer_mgr b ! 1) of None \<Rightarrow> False
        | Some sb \<Rightarrow> data_ptr sb \<noteq> 0 \<and> buffer_size sb = 16)"
    by code_simp
  with b(2) obtain sb where sb: "blocks b = 3" "buffers three_blocks (buffer_mgr b ! 1) = Some sb"
      "data_ptr sb \<noteq> 0" "buffer_size sb = 16"
    by (auto split: option.splits)
  have "1 < unat (blocks b)" using sb(1) by simp
  from fill_in_block [OF b this refl sb(2,3), of 3 "[1, 2, 3, 4]"] sb b(2) show ?thesis
    by (auto simp: take_Cons')
qed

text \<open>The constructor clears the first block only (its comment says all of the buffer): after a
  successful allocation the bytes outside the first block are those of the fresh allocation.\<close>

theorem allocate_buffer_clears_first_block:
  assumes "0 < next_ref w"
    and "os_posix_memalign S (os_pagesize S) (sz * ucast nb) (hw w) = ((0, p), h)"
      "unat p + unat sz * unat nb \<le> 2 ^ 64"
    and "0 < sz" "0 < nb" "unat nb \<le> 2 ^ 31" "unat sz * unat nb < 2 ^ 64"
  shows "\<exists>w'. allocate_buffer S sz nb info w = Ret (next_ref w) w' \<and>
    (\<forall>a. mem w' a = (if unat a \<in> block_bytes w' (next_ref w) 0 then 0 else mem w a))"
proof -
  from base_buffer_new_ok [OF assms] obtain w' b where r:
    "base_buffer_new S sz nb info w = Ret (next_ref w) w'" "wf_buffer w' (next_ref w)"
    "buffers w' (next_ref w) = Some b" "data_ptr b = p" "blocks b = ucast nb" "unat (buffer_size b) = unat sz * unat nb" "mem w' = memset0 p sz (mem w)"
    by blast
  from block_bytes_eq [OF r(2,3)] obtain sz' :: u64 where "0 < sz'" and sz': "unat (buffer_size b) = unat sz' * unat (blocks b)"
      "\<And>i. i < unat (blocks b) \<Longrightarrow> block_bytes w' (next_ref w) i =
      {unat (data_ptr b) + i * unat sz' ..< unat (data_ptr b) + Suc i * unat sz'}"
    by blast
  have nb: "0 < unat nb" using assms(5) by (simp add: word_less_nat_alt)
  with r(5,6) sz'(1) have "unat sz' = unat sz" by simp
  with sz'(2) [of 0] r(4,5) nb have "block_bytes w' (next_ref w) 0 = byte_range p sz"
    by (simp add: byte_range_def)
  moreover have "unat sz \<le> unat sz * unat nb" using nb by simp
  then have "unat p + unat sz \<le> 2 ^ 64" using assms(3) by linarith
  ultimately show ?thesis
    using r(1,7) in_range_iff [of p sz]
    by (intro exI [of _ w']) (simp add: allocate_buffer_def RDMABuffer_new_def memset0_def)
qed

theorem allocate_buffer_clears_first_block_witness:
  "\<exists>w'. allocate_buffer loopback 16384 20 ''ring'' buf_world0 = Ret 1 w' \<and>
    (\<forall>a. mem w' a = (if unat a \<in> block_bytes w' 1 0 then 0 else mem buf_world0 a))"
proof -
  have "next_ref buf_world0 = 1" by (simp add: buf_world0_def)
  with allocate_buffer_clears_first_block [OF _ buf_world0_alloc, of 16384 20 "''ring''"] show ?thesis
    by simp
qed

end
