(* ===== verification/Adapter.thy ===== *)
theory Adapter
  imports Buffer
begin

text \<open>
  \<open>include/rdma_adapter.h\<close>, \<open>src/rdma_adapter.cc\<close>: the virtual adapter of a connection. It owns the
  queue pair, brings it from RESET to RTS, and posts the work requests of its user. The only subclass
  is \<open>RDMAChannel\<close>, so the objects of this theory are channel records: the fields of \<open>RDMAAdapter\<close> and
  the three that \<open>RDMAChannel\<close> adds. The virtual \<open>get_id\<close> leads through the endpoint to the session;
  the operations that use \<open>info()\<close> for more than a log line take its value as an argument. Log output
  is not modelled.
\<close>

section \<open>Data\<close>

datatype MessageType = UNSET | RAW_DATA_BLOCK | TEST_FOR_CONNECTION | TEST_FOR_SYNC_DATA | SAY_HELLO
  | REQUEST_EXCHANGE_KEY | RESPONSE_EXCHANGE_KEY

primrec message_code :: "MessageType \<Rightarrow> u32" where
  "message_code UNSET = 0"
| "message_code RAW_DATA_BLOCK = 1"
| "message_code TEST_FOR_CONNECTION = 2"
| "message_code TEST_FOR_SYNC_DATA = 3"
| "message_code SAY_HELLO = 127"
| "message_code REQUEST_EXCHANGE_KEY = push_bit 31 1 + 1"
| "message_code RESPONSE_EXCHANGE_KEY = push_bit 31 1 + 2"

record CommDescriptor =
  cd_buffer_addr :: u64
  cd_buffer_length :: u64
  cd_rkey :: u32
  cd_fd :: u32

datatype AdapterState = UNUSED | RESET | RESOURCE_ALLOCATED | CONNECTING

record AdapterConfig =
  ac_unique_id :: string
  ac_dev_name :: string
  ac_traffic_class :: u32
  ac_cq_size :: u32
  ac_ib_port :: int
  ac_gid_index :: int
  ac_used_mtu :: ibv_mtu
  ac_cq_key :: string
  ac_signal_all_wqe :: bool
  ac_using_shared_cq :: bool
  ac_use_event_channel :: bool
  ac_max_send_wr :: u32
  ac_max_recv_wr :: u32
  ac_max_send_sge :: u32
  ac_max_recv_sge :: u32
  ac_max_inline_data :: u32

definition default_AdapterConfig :: AdapterConfig where
  "default_AdapterConfig = \<lparr>ac_unique_id = ''Adapter'', ac_dev_name = ''mlx5_0'', ac_traffic_class = 0,
     ac_cq_size = 1024, ac_ib_port = 1, ac_gid_index = 3, ac_used_mtu = IBV_MTU_4096, ac_cq_key = '''',
     ac_signal_all_wqe = False, ac_using_shared_cq = True, ac_use_event_channel = False,
     ac_max_send_wr = 128, ac_max_recv_wr = 128, ac_max_send_sge = 1, ac_max_recv_sge = 1,
     ac_max_inline_data = 1\<rparr>"

record AdapterInfo =
  ai_gid :: ibv_gid
  ai_qp_num :: u32
  ai_lid :: u16
  ai_link_layer :: u8
  ai_active_mtu :: ibv_mtu
  ai_unique_id :: "byte list"

text \<open>The default member initialisers. \<open>gid\<close> has none; it is set before it is first read.\<close>

definition default_AdapterInfo :: AdapterInfo where
  "default_AdapterInfo = \<lparr>ai_gid = replicate 16 0, ai_qp_num = 0, ai_lid = 0, ai_link_layer = 0,
     ai_active_mtu = IBV_MTU_256, ai_unique_id = replicate 128 0\<rparr>"

section \<open>The packed structures as bytes\<close>

text \<open>\<open>AdapterInfo\<close> and \<open>CommDescriptor\<close> are packed and travel as their memory image
  (\<open>RDMAEndPoint::connecting\<close>, \<open>default_process_recv_done\<close>).\<close>

definition AdapterInfo_bytes :: "AdapterInfo \<Rightarrow> byte list" where
  "AdapterInfo_bytes a = ai_gid a @ word_bytes 4 (ai_qp_num a) @ word_bytes 2 (ai_lid a) @
     word_bytes 1 (ai_link_layer a) @ word_bytes 4 (ai_active_mtu a) @ ai_unique_id a"

definition bytes_AdapterInfo :: "byte list \<Rightarrow> AdapterInfo" where
  "bytes_AdapterInfo bs = \<lparr>ai_gid = take 16 bs, ai_qp_num = bytes_word (take 4 (drop 16 bs)),
     ai_lid = bytes_word (take 2 (drop 20 bs)), ai_link_layer = bytes_word (take 1 (drop 22 bs)),
     ai_active_mtu = bytes_word (take 4 (drop 23 bs)), ai_unique_id = take 128 (drop 27 bs)\<rparr>"

abbreviation (input) sizeof_AdapterInfo :: nat where "sizeof_AdapterInfo \<equiv> 155"

definition CommDescriptor_bytes :: "CommDescriptor \<Rightarrow> byte list" where
  "CommDescriptor_bytes d = word_bytes 8 (cd_buffer_addr d) @ word_bytes 8 (cd_buffer_length d) @
     word_bytes 4 (cd_rkey d) @ word_bytes 4 (cd_fd d)"

definition bytes_CommDescriptor :: "byte list \<Rightarrow> CommDescriptor" where
  "bytes_CommDescriptor bs = \<lparr>cd_buffer_addr = bytes_word (take 8 bs),
     cd_buffer_length = bytes_word (take 8 (drop 8 bs)), cd_rkey = bytes_word (take 4 (drop 16 bs)),
     cd_fd = bytes_word (take 4 (drop 20 bs))\<rparr>"

abbreviation (input) sizeof_CommDescriptor :: nat where "sizeof_CommDescriptor \<equiv> 24"

section \<open>State\<close>

record RDMAAdapter =
  adapter_id :: string
  vadapt_status :: AdapterState
  adapter_config :: AdapterConfig
  self_info :: AdapterInfo
  remote_info :: AdapterInfo
  resource_is_allocated :: bool
  rdma_device :: oref
  owning_buffers :: "oref smap"
  sq_inflight :: int
  rq_inflight :: int
  indexed_by_session :: int
  ad_pd :: oref
  ad_qp :: oref
  ad_qp_init_attr :: "ibv_qp_init_attr option"
  used_cq :: oref
  ad_event_channel :: oref

record RDMAChannel = RDMAAdapter +
  peer_buffer_mgr :: "(string, CommDescriptor) umap"
  registered_endpoint :: oref

record 'w chan_world = "'w buf_world" +
  channels :: "oref \<rightharpoonup> RDMAChannel"

text \<open>The object after the constructors of \<open>RDMAAdapter\<close> and \<open>RDMAChannel\<close>.\<close>

definition RDMAChannel_init :: "string \<Rightarrow> oref \<Rightarrow> RDMAChannel" where
  "RDMAChannel_init info ep = \<lparr>adapter_id = info, vadapt_status = RESET, adapter_config = default_AdapterConfig,
     self_info = default_AdapterInfo, remote_info = default_AdapterInfo, resource_is_allocated = False,
     rdma_device = 0, owning_buffers = [], sq_inflight = 0, rq_inflight = 0, indexed_by_session = - 1,
     ad_pd = 0, ad_qp = 0, ad_qp_init_attr = None, used_cq = 0, ad_event_channel = 0,
     peer_buffer_mgr = Map.empty, registered_endpoint = ep\<rparr>"

definition deref_chan :: "oref \<Rightarrow> ('w, 'z) chan_world_scheme \<Rightarrow>
    (RDMAChannel, ('w, 'z) chan_world_scheme) outcome" where
  "deref_chan r w = deref (channels w r) ''RDMAChannel'' w"

definition set_chan :: "oref \<Rightarrow> RDMAChannel \<Rightarrow> ('w, 'z) chan_world_scheme \<Rightarrow> ('w, 'z) chan_world_scheme"
where
  "set_chan r c w = w\<lparr>channels := (channels w)(r \<mapsto> c)\<rparr>"

section \<open>Resources\<close>

definition create_pd :: "'w sys \<Rightarrow> oref \<Rightarrow> ('w, 'z) chan_world_scheme \<Rightarrow>
    (unit, ('w, 'z) chan_world_scheme) outcome" where
  "create_pd S this w =
     bindO (deref_chan this w) (\<lambda>a w.
     bindO (check (ad_pd a = 0) ''Protected has been instanced'' w) (\<lambda>_ w.
     bindO (create_protected_domain S (rdma_device a) w) (\<lambda>pd w.
     Ret () (set_chan this (a\<lparr>ad_pd := pd\<rparr>) w))))"

definition create_compt_channel :: "'w sys \<Rightarrow> oref \<Rightarrow> ('w, 'z) chan_world_scheme \<Rightarrow>
    (unit, ('w, 'z) chan_world_scheme) outcome" where
  "create_compt_channel S this w =
     bindO (deref_chan this w) (\<lambda>a w.
     if ac_use_event_channel (adapter_config a)
     then bindO (create_event_channel S (rdma_device a) w) (\<lambda>ch w.
          Ret () (set_chan this (a\<lparr>ad_event_channel := ch\<rparr>) w))
     else Ret () w)"

text \<open>\<open>cq_size\<close>, a \<open>uint32_t\<close>, is passed for an \<open>int\<close>.\<close>

definition create_cq :: "'w sys \<Rightarrow> oref \<Rightarrow> ('w, 'z) chan_world_scheme \<Rightarrow>
    (unit, ('w, 'z) chan_world_scheme) outcome" where
  "create_cq S this w =
     bindO (deref_chan this w) (\<lambda>a w.
     (let cfg = adapter_config a;
          create = (\<lambda>w. bindO (create_completion_queue S (rdma_device a) (ac_cq_key cfg)
            (sint (ac_cq_size cfg)) this (ad_event_channel a) 0 w) (\<lambda>cq w.
            Ret () (set_chan this (a\<lparr>used_cq := cq\<rparr>) w))) in
      bindO (check (ac_cq_key cfg \<noteq> '''') ''please explicitly speficy the cq_key'' w) (\<lambda>_ w.
      if ac_using_shared_cq cfg
      then bindO (check (ac_cq_key cfg \<noteq> '''') ''detected the shared_cq is empty'' w) (\<lambda>_. create)
      else bindO (has_created_cq (rdma_device a) (ac_cq_key cfg) w) (\<lambda>created w.
           bindO (check (\<not> created) ''[ConfigError], detect previous one'' w) (\<lambda>_. create)))))"

definition qp_init :: "AdapterConfig \<Rightarrow> oref \<Rightarrow> ibv_qp_init_attr" where
  "qp_init cfg cq = \<lparr>qp_type = IBV_QPT_RC, sq_sig_all = (if ac_signal_all_wqe cfg then 1 else 0),
     send_cq = cq, recv_cq = cq, cap_max_send_wr = ac_max_send_wr cfg,
     cap_max_recv_wr = ac_max_recv_wr cfg, cap_max_send_sge = ac_max_send_sge cfg,
     cap_max_recv_sge = ac_max_recv_sge cfg, cap_max_inline_data = 0, init_srq = 0\<rparr>"

definition create_qp :: "'w sys \<Rightarrow> oref \<Rightarrow> ('w, 'z) chan_world_scheme \<Rightarrow>
    (unit, ('w, 'z) chan_world_scheme) outcome" where
  "create_qp S this w =
     bindO (deref_chan this w) (\<lambda>a w.
     (let init = qp_init (adapter_config a) (used_cq a);
          a = a\<lparr>ad_qp_init_attr := Some init\<rparr> in
      bindO (check (ad_qp a = 0) ''queue pair has been instanced'' (set_chan this a w)) (\<lambda>_ w.
      bindO (deref_dev (rdma_device a) w) (\<lambda>_ w.
      bindO (create_queue_pair S (ad_pd a) init w) (\<lambda>qp w.
      Ret () (set_chan this (a\<lparr>ad_qp := qp\<rparr>) w))))))"

text \<open>\<open>ib_port\<close> and \<open>gid_index\<close> are \<open>int\<close>; \<open>query_gid\<close> takes \<open>uint8_t\<close> and \<open>get_port_attr\<close> an \<open>unsigned\<close>.\<close>

definition update_my_adapter_info :: "'w sys \<Rightarrow> string \<Rightarrow> oref \<Rightarrow> ('w, 'z) chan_world_scheme \<Rightarrow>
    (unit, ('w, 'z) chan_world_scheme) outcome" where
  "update_my_adapter_info S info this w =
     bindO (deref_chan this w) (\<lambda>a w.
     bindO (check (rdma_device a \<noteq> 0) ''rdma_device is not initialized'' w) (\<lambda>_ w.
     bindO (query_gid S (rdma_device a) (of_int (ac_ib_port (adapter_config a)))
       (of_int (ac_gid_index (adapter_config a))) w) (\<lambda>gid w.
     bindO (check (ad_qp a \<noteq> 0) ''QP is not initialized yet'' w) (\<lambda>_ w.
     bindO (get_port_attr (rdma_device a) (of_int (ac_ib_port (adapter_config a))) w) (\<lambda>port w.
     (let cfg = adapter_config a;
          lower = sint (port_active_mtu port) < sint (ac_used_mtu cfg);
          mtu = (if lower then port_active_mtu port else ac_used_mtu cfg);
          a = a\<lparr>adapter_config := cfg\<lparr>ac_used_mtu := mtu\<rparr>,
               self_info := (self_info a)\<lparr>ai_gid := gid, ai_qp_num := ibv_qp_num S (ad_qp a) (hw w),
                 ai_link_layer := port_link_layer port, ai_active_mtu := mtu, ai_lid := port_lid port\<rparr>\<rparr> in
      bindO (check (length info < 128 - 20) ''Invalid adapter unique_id'' (set_chan this a w)) (\<lambda>_ w.
      Ret () (set_chan this (a\<lparr>self_info := (self_info a)
        \<lparr>ai_unique_id := string_bytes info @ replicate (128 - length info) 0\<rparr>\<rparr>) w))))))))"

definition get_adapter_info :: "bool \<Rightarrow> oref \<Rightarrow> ('w, 'z) chan_world_scheme \<Rightarrow>
    (AdapterInfo, ('w, 'z) chan_world_scheme) outcome" where
  "get_adapter_info self this w =
     bindO (deref_chan this w) (\<lambda>a w. Ret (if self then self_info a else remote_info a) w)"

definition loading :: "'w sys \<Rightarrow> string \<Rightarrow> oref \<Rightarrow> ('w, 'z) chan_world_scheme \<Rightarrow>
    (AdapterInfo, ('w, 'z) chan_world_scheme) outcome" where
  "loading S info this w =
     bindO (deref_chan this w) (\<lambda>a w.
     if resource_is_allocated a then Ret (self_info a) w
     else
       (let cfg = adapter_config a;
            cfg' = (if ac_using_shared_cq cfg then cfg else cfg\<lparr>ac_cq_key := info\<rparr>) in
        bindO (check (ac_using_shared_cq cfg \<longrightarrow> ac_cq_key cfg \<noteq> '''') ''Configure ERROR'' w) (\<lambda>_ w.
        bindO (get_device S (ac_dev_name cfg') this (set_chan this (a\<lparr>adapter_config := cfg'\<rparr>) w)) (\<lambda>dev w.
        bindO (create_pd S this (set_chan this (a\<lparr>adapter_config := cfg', rdma_device := dev\<rparr>) w)) (\<lambda>_ w.
        bindO (create_compt_channel S this w) (\<lambda>_ w.
        bindO (create_cq S this w) (\<lambda>_ w.
        bindO (create_qp S this w) (\<lambda>_ w.
        bindO (update_my_adapter_info S info this w) (\<lambda>_ w.
        bindO (deref_chan this w) (\<lambda>a w.
        get_adapter_info True this
          (set_chan this (a\<lparr>vadapt_status := RESOURCE_ALLOCATED, resource_is_allocated := True\<rparr>) w)))))))))))"

section \<open>The queue pair\<close>

definition modify_qp :: "'w sys \<Rightarrow> oref \<Rightarrow> ibv_qp_attr \<Rightarrow> ibv_qp_attr_mask set \<Rightarrow> ('w, 'z) chan_world_scheme \<Rightarrow>
    (int, ('w, 'z) chan_world_scheme) outcome" where
  "modify_qp S this attr flags w =
     bindO (deref_chan this w) (\<lambda>a w.
     bindO (check (ad_qp a \<noteq> 0) ''Qpair has not been initialized'' w) (\<lambda>_ w.
     hw_call (ibv_modify_qp S (ad_qp a) attr flags) w))"

definition modify_qp_to_reset :: "'w sys \<Rightarrow> oref \<Rightarrow> ('w, 'z) chan_world_scheme \<Rightarrow>
    (int, ('w, 'z) chan_world_scheme) outcome" where
  "modify_qp_to_reset S this w = modify_qp S this (zero_qp_attr\<lparr>at_qp_state := IBV_QPS_RESET\<rparr>) {IBV_QP_STATE} w"

definition init_attr :: "RDMAChannel \<Rightarrow> ibv_qp_attr" where
  "init_attr a = zero_qp_attr\<lparr>at_qp_state := IBV_QPS_INIT, at_port_num := of_int (ac_ib_port (adapter_config a)),
     at_pkey_index := 0,
     at_access_flags := {IBV_ACCESS_LOCAL_WRITE, IBV_ACCESS_REMOTE_READ, IBV_ACCESS_REMOTE_WRITE}\<rparr>"

definition modify_qp_to_init :: "'w sys \<Rightarrow> oref \<Rightarrow> ('w, 'z) chan_world_scheme \<Rightarrow>
    (int, ('w, 'z) chan_world_scheme) outcome" where
  "modify_qp_to_init S this w =
     bindO (deref_chan this w) (\<lambda>a w.
     modify_qp S this (init_attr a) {IBV_QP_STATE, IBV_QP_PKEY_INDEX, IBV_QP_PORT, IBV_QP_ACCESS_FLAGS} w)"

text \<open>The attributes of the RTR transition; the second record update is the branch for RoCE.\<close>

definition rtr_attr :: "RDMAChannel \<Rightarrow> ibv_qp_attr" where
  "rtr_attr a =
     (let cfg = adapter_config a; remote = remote_info a;
          attr = zero_qp_attr\<lparr>at_qp_state := IBV_QPS_RTR, at_path_mtu := ac_used_mtu cfg,
            at_dest_qp_num := ai_qp_num remote, at_rq_psn := 0, at_max_dest_rd_atomic := 1,
            at_min_rnr_timer := 12, ah_is_global := 0, ah_dlid := ai_lid remote, ah_sl := 0,
            ah_src_path_bits := 0, ah_port_num := of_int (ac_ib_port cfg)\<rparr> in
      if ai_link_layer (self_info a) = IBV_LINK_LAYER_ETHERNET
      then attr\<lparr>ah_is_global := 1, ah_port_num := 1, grh_dgid := ai_gid remote, grh_flow_label := 0,
        grh_hop_limit := 255, grh_sgid_index := of_int (ac_gid_index cfg),
        grh_traffic_class := ucast (ac_traffic_class cfg)\<rparr>
      else attr)"

definition modify_qp_to_rtr :: "'w sys \<Rightarrow> oref \<Rightarrow> ('w, 'z) chan_world_scheme \<Rightarrow>
    (int, ('w, 'z) chan_world_scheme) outcome" where
  "modify_qp_to_rtr S this w =
     bindO (deref_chan this w) (\<lambda>a w.
     bindO (check (ad_qp a \<noteq> 0) ''Qpair has not been initialized'' w) (\<lambda>_ w.
     bindO (check (ai_link_layer (self_info a) = IBV_LINK_LAYER_ETHERNET \<longrightarrow>
         ai_link_layer (self_info a) = ai_link_layer (remote_info a)) ''QP should working in the same mode'' w) (\<lambda>_ w.
     bindO (check (ai_link_layer (self_info a) = IBV_LINK_LAYER_ETHERNET \<longrightarrow>
         ac_gid_index (adapter_config a) \<ge> 0) ''Running under RoCE requires to speficy the gid_index'' w) (\<lambda>_ w.
     modify_qp S this (rtr_attr a) {IBV_QP_STATE, IBV_QP_AV, IBV_QP_PATH_MTU, IBV_QP_DEST_QPN,
       IBV_QP_RQ_PSN, IBV_QP_MAX_DEST_RD_ATOMIC, IBV_QP_MIN_RNR_TIMER} w))))"

definition rts_attr :: ibv_qp_attr where
  "rts_attr = zero_qp_attr\<lparr>at_qp_state := IBV_QPS_RTS, at_timeout := 14, at_retry_cnt := 7,
     at_rnr_retry := 7, at_sq_psn := 0, at_max_rd_atomic := 1\<rparr>"

definition modify_qp_to_rts :: "'w sys \<Rightarrow> oref \<Rightarrow> ('w, 'z) chan_world_scheme \<Rightarrow>
    (int, ('w, 'z) chan_world_scheme) outcome" where
  "modify_qp_to_rts S this w =
     modify_qp S this rts_attr {IBV_QP_STATE, IBV_QP_TIMEOUT, IBV_QP_RETRY_CNT, IBV_QP_RNR_RETRY,
       IBV_QP_SQ_PSN, IBV_QP_MAX_QP_RD_ATOMIC} w"

definition show_qp_info :: "'w sys \<Rightarrow> oref \<Rightarrow> ('w, 'z) chan_world_scheme \<Rightarrow>
    (unit, ('w, 'z) chan_world_scheme) outcome" where
  "show_qp_info S this w =
     bindO (deref_chan this w) (\<lambda>a w.
     bindO (deref_dev (rdma_device a) w) (\<lambda>_ w.
     bindO (get_qp_attr S (ad_qp a) w) (\<lambda>(_, init) w.
     Ret () (set_chan this (a\<lparr>ad_qp_init_attr := (case init of None \<Rightarrow> ad_qp_init_attr a | Some i \<Rightarrow> Some i)\<rparr>) w))))"

text \<open>\<open>CHECK(params.link_layer = self_.link_layer)\<close> assigns: the caller's structure changes, and the
  check only fails when the own link layer is 0. The result is the caller's structure.\<close>

definition update_peer_adapter_info :: "AdapterInfo \<Rightarrow> oref \<Rightarrow> ('w, 'z) chan_world_scheme \<Rightarrow>
    (AdapterInfo, ('w, 'z) chan_world_scheme) outcome" where
  "update_peer_adapter_info params this w =
     bindO (deref_chan this w) (\<lambda>a w.
     (let w = set_chan this (a\<lparr>remote_info := params\<rparr>) w;
          params = params\<lparr>ai_link_layer := ai_link_layer (self_info a)\<rparr> in
      bindO (check (ai_link_layer params \<noteq> 0) ''params.link_layer = self_.link_layer'' w) (\<lambda>_ w.
      Ret params w)))"

text \<open>The text \<open>connecting_info\<close> prints both identifiers with \<open>%s\<close>, which reads on until a NUL; the text itself only
  goes to the log.\<close>

definition print_ids :: "oref \<Rightarrow> ('w, 'z) chan_world_scheme \<Rightarrow> (unit, ('w, 'z) chan_world_scheme) outcome" where
  "print_ids this w =
     bindO (deref_chan this w) (\<lambda>a w.
     defined_if (0 \<in> set (ai_unique_id (self_info a)) \<and> 0 \<in> set (ai_unique_id (remote_info a))) ''unique_id without NUL'' w)"

text \<open>The results of the three transitions are dropped.\<close>

definition connecting :: "'w sys \<Rightarrow> AdapterInfo \<Rightarrow> oref \<Rightarrow> ('w, 'z) chan_world_scheme \<Rightarrow>
    (bool, ('w, 'z) chan_world_scheme) outcome" where
  "connecting S peer this w =
     bindO (check (nth_opt (ai_unique_id peer) 0 \<noteq> Some 0) ''Invalid remote adaper'' w) (\<lambda>_ w.
     bindO (update_peer_adapter_info peer this w) (\<lambda>_ w.
     bindO (print_ids this w) (\<lambda>_ w.
     bindO (modify_qp_to_init S this w) (\<lambda>_ w.
     bindO (show_qp_info S this w) (\<lambda>_ w.
     bindO (modify_qp_to_rtr S this w) (\<lambda>_ w.
     bindO (show_qp_info S this w) (\<lambda>_ w.
     bindO (modify_qp_to_rts S this w) (\<lambda>_ w.
     bindO (show_qp_info S this w) (\<lambda>_ w.
     bindO (deref_chan this w) (\<lambda>a w.
     Ret True (set_chan this (a\<lparr>vadapt_status := CONNECTING\<rparr>) w)))))))))))"

definition reset_hca :: "'w sys \<Rightarrow> oref \<Rightarrow> ('w, 'z) chan_world_scheme \<Rightarrow>
    (bool, ('w, 'z) chan_world_scheme) outcome" where
  "reset_hca S this w = bindO (modify_qp_to_reset S this w) (\<lambda>_. Ret False)"

section \<open>Memory and work requests\<close>

definition register_mem :: "'w sys \<Rightarrow> oref \<Rightarrow> u64 \<Rightarrow> u64 \<Rightarrow> int \<Rightarrow> string \<Rightarrow> ('w, 'z) chan_world_scheme \<Rightarrow>
    (oref, ('w, 'z) chan_world_scheme) outcome" where
  "register_mem S this ptr size_in_byte access_flags info w =
     bindO (deref_chan this w) (\<lambda>a w.
     bindO (deref_dev (rdma_device a) w) (\<lambda>_ w.
     real_register_mem S (ad_pd a) ptr size_in_byte access_flags info w))"

definition deregister_mem :: "'w sys \<Rightarrow> oref \<Rightarrow> oref \<Rightarrow> string \<Rightarrow> ('w, 'z) chan_world_scheme \<Rightarrow>
    (bool, ('w, 'z) chan_world_scheme) outcome" where
  "deregister_mem S this mr info w =
     bindO (deref_chan this w) (\<lambda>a w.
     bindO (deref_dev (rdma_device a) w) (\<lambda>_ w.
     real_deregister_mem S mr info w))"

text \<open>\<open>increase_sqe\<close> and the other counter functions. The counters are \<open>int64_t\<close>; their end is out of
  reach.\<close>

definition add_sqe :: "int \<Rightarrow> oref \<Rightarrow> ('w, 'z) chan_world_scheme \<Rightarrow> (unit, ('w, 'z) chan_world_scheme) outcome"
where
  "add_sqe d this w = bindO (deref_chan this w) (\<lambda>a w. Ret () (set_chan this (a\<lparr>sq_inflight := sq_inflight a + d\<rparr>) w))"

definition add_rqe :: "int \<Rightarrow> oref \<Rightarrow> ('w, 'z) chan_world_scheme \<Rightarrow> (unit, ('w, 'z) chan_world_scheme) outcome"
where
  "add_rqe d this w = bindO (deref_chan this w) (\<lambda>a w. Ret () (set_chan this (a\<lparr>rq_inflight := rq_inflight a + d\<rparr>) w))"

text \<open>The checks every posting function starts with; \<open>limit\<close> is the length the peer allows, for the
  one-sided operations.\<close>

definition usable_buffer :: "oref \<Rightarrow> u32 \<Rightarrow> u64 option \<Rightarrow> ('w, 'z) chan_world_scheme \<Rightarrow>
    (RDMABuffer, ('w, 'z) chan_world_scheme) outcome" where
  "usable_buffer buffer len limit w =
     bindO (check (buffer \<noteq> 0) ''RDMABuffer has not been initialized'' w) (\<lambda>_ w.
     bindO (security_check buffer w) (\<lambda>_ w.
     bindO (deref_buf buffer w) (\<lambda>b w.
     bindO (check (ucast len \<le> buffer_size b \<and> (case limit of None \<Rightarrow> True | Some n \<Rightarrow> ucast len \<le> n))
       ''Invalid data length'' w) (\<lambda>_ w.
     Ret b w))))"

definition send_remote :: "'w sys \<Rightarrow> oref \<Rightarrow> oref \<Rightarrow> u32 \<Rightarrow> u32 \<Rightarrow> ('w, 'z) chan_world_scheme \<Rightarrow>
    (bool, ('w, 'z) chan_world_scheme) outcome" where
  "send_remote S this buffer data_length_in_bytes msg_tag w =
     bindO (usable_buffer buffer data_length_in_bytes None w) (\<lambda>b w.
     bindO (add_sqe 1 this w) (\<lambda>_ w.
     bindO (deref_chan this w) (\<lambda>a w.
     real_send S (ad_qp a) (buf_mr b) (data_ptr b) data_length_in_bytes msg_tag this w)))"

definition recv_remote :: "'w sys \<Rightarrow> oref \<Rightarrow> oref \<Rightarrow> u32 \<Rightarrow> ('w, 'z) chan_world_scheme \<Rightarrow>
    (bool, ('w, 'z) chan_world_scheme) outcome" where
  "recv_remote S this buffer data_length_in_bytes w =
     bindO (usable_buffer buffer data_length_in_bytes None w) (\<lambda>b w.
     bindO (add_rqe 1 this w) (\<lambda>_ w.
     bindO (deref_chan this w) (\<lambda>a w.
     real_recv S (ad_qp a) (buf_mr b) (data_ptr b) data_length_in_bytes this w)))"

definition read_remote :: "'w sys \<Rightarrow> oref \<Rightarrow> oref \<Rightarrow> u32 \<Rightarrow> CommDescriptor \<Rightarrow> ('w, 'z) chan_world_scheme \<Rightarrow>
    (bool, ('w, 'z) chan_world_scheme) outcome" where
  "read_remote S this buffer data_length_in_bytes remote w =
     bindO (usable_buffer buffer data_length_in_bytes (Some (cd_buffer_length remote)) w) (\<lambda>b w.
     bindO (add_sqe 1 this w) (\<lambda>_ w.
     bindO (deref_chan this w) (\<lambda>a w.
     bindO (defined_if (buf_mr b \<noteq> 0) ''mr_->lkey'' w) (\<lambda>_ w.
     real_read_remote S (ad_qp a) (cd_rkey remote) (ibv_mr_lkey S (buf_mr b) (hw w)) (data_ptr b)
       (cd_buffer_addr remote) data_length_in_bytes this w))))"

definition write_remote :: "'w sys \<Rightarrow> oref \<Rightarrow> oref \<Rightarrow> u32 \<Rightarrow> CommDescriptor \<Rightarrow> u32 \<Rightarrow> bool \<Rightarrow>
    ('w, 'z) chan_world_scheme \<Rightarrow> (bool, ('w, 'z) chan_world_scheme) outcome" where
  "write_remote S this buffer data_length_in_bytes remote msg_tag notify_peer w =
     bindO (usable_buffer buffer data_length_in_bytes (Some (cd_buffer_length remote)) w) (\<lambda>b w.
     bindO (add_sqe 1 this w) (\<lambda>_ w.
     bindO (deref_chan this w) (\<lambda>a w.
     bindO (defined_if (buf_mr b \<noteq> 0) ''mr_->lkey'' w) (\<lambda>_ w.
     (let lkey = ibv_mr_lkey S (buf_mr b) (hw w) in
      if notify_peer
      then real_write_remote_with_notify S (ad_qp a) (cd_rkey remote) lkey (data_ptr b)
             (cd_buffer_addr remote) data_length_in_bytes msg_tag this w
      else real_write_remote S (ad_qp a) (cd_rkey remote) lkey (data_ptr b)
             (cd_buffer_addr remote) data_length_in_bytes this w)))))"

definition poll_cq_batch :: "'w sys \<Rightarrow> oref \<Rightarrow> int \<Rightarrow> ('w, 'z) chan_world_scheme \<Rightarrow>
    (int \<times> ibv_wc list, ('w, 'z) chan_world_scheme) outcome" where
  "poll_cq_batch S this num_wqe w =
     bindO (deref_chan this w) (\<lambda>a w.
     bindO (real_poll_completion_queue S (used_cq a) num_wqe (mem w) w) (\<lambda>(n, wcs, m) w.
     Ret (n, wcs) (w\<lparr>mem := m\<rparr>)))"

lemmas chan_defs = deref_chan_def set_chan_def


section \<open>Byte images: lemmas\<close>

definition wf_AdapterInfo :: "AdapterInfo \<Rightarrow> bool" where
  "wf_AdapterInfo a \<longleftrightarrow> length (ai_gid a) = 16 \<and> length (ai_unique_id a) = 128"

lemma AdapterInfo_length: "wf_AdapterInfo a \<Longrightarrow> length (AdapterInfo_bytes a) = sizeof_AdapterInfo"
  by (simp add: wf_AdapterInfo_def AdapterInfo_bytes_def)

lemma word_slice:
  "length xs = n \<Longrightarrow> take k (drop n (xs @ ys)) = take k ys"
  "length xs = n \<Longrightarrow> drop n (xs @ ys) = ys"
  by auto

lemma AdapterInfo_bytes_inverse:
  assumes "wf_AdapterInfo a" shows "bytes_AdapterInfo (AdapterInfo_bytes a) = a"
  using assms unfolding wf_AdapterInfo_def bytes_AdapterInfo_def AdapterInfo_bytes_def
  by (simp add: bytes_word_bytes)

lemma CommDescriptor_bytes_inverse: "bytes_CommDescriptor (CommDescriptor_bytes d) = d"
  unfolding bytes_CommDescriptor_def CommDescriptor_bytes_def by (simp add: bytes_word_bytes)

lemma CommDescriptor_length [simp]: "length (CommDescriptor_bytes d) = sizeof_CommDescriptor"
  by (simp add: CommDescriptor_bytes_def)

section \<open>The queue pair: lemmas\<close>

lemma bind_then: "bindO m g = Ret x t \<Longrightarrow> bindO m (\<lambda>y s. bindO (g y s) f) = f x t"
  by (simp flip: bindO_assoc)

lemma modify_qp_eq:
  assumes "channels w this = Some a" "ad_qp a \<noteq> 0"
  shows "modify_qp S this attr flags w = Ret (fst (ibv_modify_qp S (ad_qp a) attr flags (hw w)))
    (w\<lparr>hw := snd (ibv_modify_qp S (ad_qp a) attr flags (hw w))\<rparr>)"
  using assms by (simp add: modify_qp_def chan_defs hw_call_eq)

lemma show_qp_info_eq:
  assumes "channels w this = Some a" "ad_qp a \<noteq> 0" "devices w (rdma_device a) \<noteq> None"
  obtains i where "show_qp_info S this w = Ret () (w\<lparr>channels := (channels w)(this \<mapsto> a\<lparr>ad_qp_init_attr := i\<rparr>)\<rparr>)"
proof -
  obtain rc attr ini where q: "ibv_query_qp S (ad_qp a) (hw w) = (rc, attr, ini)" by (cases "ibv_query_qp S (ad_qp a) (hw w)")
  show thesis
    by (rule that [of "if rc = 0 then Some ini else ad_qp_init_attr a"])
      (use assms q in \<open>auto simp: show_qp_info_def chan_defs deref_dev_def get_qp_attr_def\<close>)
qed

text \<open>What the connection needs of the peer's and of the own data.\<close>

definition peer_acceptable :: "RDMAChannel \<Rightarrow> AdapterInfo \<Rightarrow> bool" where
  "peer_acceptable a peer \<longleftrightarrow> nth_opt (ai_unique_id peer) 0 \<noteq> Some 0 \<and> 0 \<in> set (ai_unique_id peer) \<and>
     0 \<in> set (ai_unique_id (self_info a)) \<and> ai_link_layer (self_info a) \<noteq> 0 \<and>
     (ai_link_layer (self_info a) = IBV_LINK_LAYER_ETHERNET \<longrightarrow>
        ai_link_layer peer = IBV_LINK_LAYER_ETHERNET \<and> 0 \<le> ac_gid_index (adapter_config a))"

text \<open>One transition followed by \<open>show_qp_info\<close>: the device state is the one the transition left.\<close>

lemma transition_and_show:
  assumes "channels w this = Some a" "ad_qp a \<noteq> 0" "devices w (rdma_device a) \<noteq> None"
  obtains i where "bindO (modify_qp S this attr flags w) (\<lambda>_ w. show_qp_info S this w) =
    Ret () (w\<lparr>hw := snd (ibv_modify_qp S (ad_qp a) attr flags (hw w)),
      channels := (channels w)(this \<mapsto> a\<lparr>ad_qp_init_attr := i\<rparr>)\<rparr>)"
proof -
  let ?w = "w\<lparr>hw := snd (ibv_modify_qp S (ad_qp a) attr flags (hw w))\<rparr>"
  obtain i where "show_qp_info S this ?w = Ret () (?w\<lparr>channels := (channels ?w)(this \<mapsto> a\<lparr>ad_qp_init_attr := i\<rparr>)\<rparr>)"
    using show_qp_info_eq [of ?w this a S] assms by auto
  then show thesis using that [of i] assms by (simp add: modify_qp_eq)
qed

text \<open>The device state after the three transitions of \<open>connecting\<close>.\<close>

definition connected_hw :: "'w sys \<Rightarrow> RDMAChannel \<Rightarrow> 'w \<Rightarrow> 'w" where
  "connected_hw S a h =
     (let h1 = snd (ibv_modify_qp S (ad_qp a) (init_attr a)
            {IBV_QP_STATE, IBV_QP_PKEY_INDEX, IBV_QP_PORT, IBV_QP_ACCESS_FLAGS} h);
          h2 = snd (ibv_modify_qp S (ad_qp a) (rtr_attr a)
            {IBV_QP_STATE, IBV_QP_AV, IBV_QP_PATH_MTU, IBV_QP_DEST_QPN, IBV_QP_RQ_PSN,
             IBV_QP_MAX_DEST_RD_ATOMIC, IBV_QP_MIN_RNR_TIMER} h1) in
      snd (ibv_modify_qp S (ad_qp a) rts_attr
            {IBV_QP_STATE, IBV_QP_TIMEOUT, IBV_QP_RETRY_CNT, IBV_QP_RNR_RETRY, IBV_QP_SQ_PSN,
             IBV_QP_MAX_QP_RD_ATOMIC} h2))"

lemma init_attr_cong [simp]: "init_attr (a\<lparr>ad_qp_init_attr := i\<rparr>) = init_attr a"
  "rtr_attr (a\<lparr>ad_qp_init_attr := i\<rparr>) = rtr_attr a"
  by (simp_all add: init_attr_def rtr_attr_def)

lemma connecting_eq:
  assumes a: "channels w this = Some a" "ad_qp a \<noteq> 0" "devices w (rdma_device a) \<noteq> None"
    and peer: "peer_acceptable a peer"
  obtains i where "connecting S peer this w = Ret True
    (w\<lparr>hw := connected_hw S (a\<lparr>remote_info := peer\<rparr>) (hw w),
       channels := (channels w)(this \<mapsto> a\<lparr>remote_info := peer, ad_qp_init_attr := i, vadapt_status := CONNECTING\<rparr>)\<rparr>)"
proof -
  let ?a = "a\<lparr>remote_info := peer\<rparr>"
  let ?w0 = "w\<lparr>channels := (channels w)(this \<mapsto> ?a)\<rparr>"
  have start: "bindO (check (nth_opt (ai_unique_id peer) 0 \<noteq> Some 0) msg w) (\<lambda>_ w.
      bindO (update_peer_adapter_info peer this w) (\<lambda>_ w. bindO (print_ids this w) f)) = f () ?w0" for msg f
    using a peer by (simp add: update_peer_adapter_info_def print_ids_def chan_defs peer_acceptable_def Let_def)
  let ?h1 = "snd (ibv_modify_qp S (ad_qp ?a) (init_attr ?a)
            {IBV_QP_STATE, IBV_QP_PKEY_INDEX, IBV_QP_PORT, IBV_QP_ACCESS_FLAGS} (hw w))"
  obtain i1 where i1: "bindO (modify_qp_to_init S this ?w0) (\<lambda>_ w. show_qp_info S this w) =
     Ret () (?w0\<lparr>hw := ?h1, channels := (channels ?w0)(this \<mapsto> ?a\<lparr>ad_qp_init_attr := i1\<rparr>)\<rparr>)"
    using transition_and_show [of ?w0 this ?a S "init_attr ?a"
        "{IBV_QP_STATE, IBV_QP_PKEY_INDEX, IBV_QP_PORT, IBV_QP_ACCESS_FLAGS}"] a
    by (auto simp: modify_qp_to_init_def chan_defs)
  let ?a1 = "?a\<lparr>ad_qp_init_attr := i1\<rparr>"
  let ?w1 = "w\<lparr>hw := ?h1, channels := (channels w)(this \<mapsto> ?a1)\<rparr>"
  let ?f = "{IBV_QP_STATE, IBV_QP_AV, IBV_QP_PATH_MTU, IBV_QP_DEST_QPN, IBV_QP_RQ_PSN,
             IBV_QP_MAX_DEST_RD_ATOMIC, IBV_QP_MIN_RNR_TIMER}"
  let ?h2 = "snd (ibv_modify_qp S (ad_qp ?a) (rtr_attr ?a) ?f ?h1)"
  have rtr: "modify_qp_to_rtr S this ?w1 = modify_qp S this (rtr_attr ?a) ?f ?w1"
    using a peer by (auto simp: modify_qp_to_rtr_def chan_defs peer_acceptable_def)
  obtain i2 where i2: "bindO (modify_qp_to_rtr S this ?w1) (\<lambda>_ w. show_qp_info S this w) =
     Ret () (?w1\<lparr>hw := ?h2, channels := (channels ?w1)(this \<mapsto> ?a\<lparr>ad_qp_init_attr := i2\<rparr>)\<rparr>)"
    unfolding rtr using transition_and_show [of ?w1 this ?a1 S "rtr_attr ?a" ?f] a by auto
  let ?w2 = "w\<lparr>hw := ?h2, channels := (channels w)(this \<mapsto> ?a\<lparr>ad_qp_init_attr := i2\<rparr>)\<rparr>"
  let ?g = "{IBV_QP_STATE, IBV_QP_TIMEOUT, IBV_QP_RETRY_CNT, IBV_QP_RNR_RETRY, IBV_QP_SQ_PSN,
             IBV_QP_MAX_QP_RD_ATOMIC}"
  obtain i3 where i3: "bindO (modify_qp_to_rts S this ?w2) (\<lambda>_ w. show_qp_info S this w) =
     Ret () (?w2\<lparr>hw := snd (ibv_modify_qp S (ad_qp ?a) rts_attr ?g ?h2),
       channels := (channels ?w2)(this \<mapsto> ?a\<lparr>ad_qp_init_attr := i3\<rparr>)\<rparr>)"
    unfolding modify_qp_to_rts_def
    using transition_and_show [of ?w2 this "?a\<lparr>ad_qp_init_attr := i2\<rparr>" S rts_attr ?g] a by auto
  show thesis
    by (rule that [of i3])
      (simp add: connecting_def start bind_then [OF i1] bind_then [OF i2 [simplified]]
        bind_then [OF i3 [simplified]] connected_hw_def Let_def chan_defs)
qed

section \<open>Loading: lemmas\<close>

lemma create_pd_Ret:
  assumes "create_pd S this w = Ret u t" "channels w this = Some a"
  obtains pd h where "pd \<noteq> 0" "t = w\<lparr>hw := h, channels := (channels w)(this \<mapsto> a\<lparr>ad_pd := pd\<rparr>)\<rparr>"
  using assms by (auto simp: create_pd_def create_protected_domain_def chan_defs deref_dev_def outcome_simps)

lemma create_compt_channel_Ret:
  assumes "create_compt_channel S this w = Ret u t" "channels w this = Some a"
  obtains ch h where "t = w\<lparr>hw := h, channels := (channels w)(this \<mapsto> a\<lparr>ad_event_channel := ch\<rparr>)\<rparr>"
proof (cases "ac_use_event_channel (adapter_config a)")
  case True
  with assms that show thesis
    by (auto simp: create_compt_channel_def create_event_channel_def chan_defs deref_dev_def outcome_simps)
next
  case False
  with assms that [where h = "hw w" and ch = "ad_event_channel a"] show thesis
    by (auto simp: create_compt_channel_def chan_defs map_upd_triv)
qed

lemma create_completion_queue_Ret:
  assumes "create_completion_queue S dev key n cb ch v w = Ret cq t"
  obtains h ds where "t = w\<lparr>hw := h, devices := ds\<rparr>" "cq_lookup dev t key = Some cq"
    "\<forall>r. ds r = None \<longleftrightarrow> devices w r = None"
proof -
  from assms obtain d where d: "devices w dev = Some d"
    by (auto simp: create_completion_queue_def deref_dev_def outcome_simps)
  show thesis
  proof (cases "reg_cqs d key")
    case None
    with assms d that show thesis
      by (auto simp: create_completion_queue_def dev_defs outcome_simps Let_def cq_lookup_def)
  next
    case (Some cq')
    with assms d that [where h = "hw w" and ds = "devices w"] show thesis
      by (auto simp: create_completion_queue_def dev_defs cq_lookup_def)
  qed
qed

lemma create_cq_Ret:
  assumes "create_cq S this w = Ret u t" "channels w this = Some a"
  obtains cq h ds where "t = w\<lparr>hw := h, devices := ds, channels := (channels w)(this \<mapsto> a\<lparr>used_cq := cq\<rparr>)\<rparr>"
    "cq_lookup (rdma_device a) t (ac_cq_key (adapter_config a)) = Some cq"
    "\<forall>r. ds r = None \<longleftrightarrow> devices w r = None"
proof -
  from assms obtain cq s where s: "create_completion_queue S (rdma_device a) (ac_cq_key (adapter_config a))
      (sint (ac_cq_size (adapter_config a))) this (ad_event_channel a) 0 w = Ret cq s"
    and t: "t = set_chan this (a\<lparr>used_cq := cq\<rparr>) s"
    by (auto simp: create_cq_def chan_defs outcome_simps Let_def has_created_cq_def deref_dev_def split: if_splits)
  from s obtain h ds where hs: "s = w\<lparr>hw := h, devices := ds\<rparr>"
      "cq_lookup (rdma_device a) s (ac_cq_key (adapter_config a)) = Some cq"
      "\<forall>r. ds r = None \<longleftrightarrow> devices w r = None"
    by (rule create_completion_queue_Ret)
  show thesis
    by (rule that [where h = h and ds = ds and cq = cq]) (use hs t in \<open>auto simp: set_chan_def cq_lookup_def\<close>)
qed

lemma create_qp_Ret:
  assumes "create_qp S this w = Ret u t" "channels w this = Some a"
  obtains qp h where "qp \<noteq> 0" "devices w (rdma_device a) \<noteq> None"
    "t = w\<lparr>hw := h, channels := (channels w)(this \<mapsto>
       a\<lparr>ad_qp_init_attr := Some (qp_init (adapter_config a) (used_cq a)), ad_qp := qp\<rparr>)\<rparr>"
  using assms by (auto simp: create_qp_def create_queue_pair_def chan_defs deref_dev_def outcome_simps Let_def)

definition negotiated_mtu :: "AdapterConfig \<Rightarrow> ibv_port_attr \<Rightarrow> ibv_mtu" where
  "negotiated_mtu cfg port = (if sint (port_active_mtu port) < sint (ac_used_mtu cfg)
     then port_active_mtu port else ac_used_mtu cfg)"

lemma update_my_adapter_info_Ret:
  assumes "update_my_adapter_info S info this w = Ret u t" "channels w this = Some a"
  obtains gid port where
    "get_port_attr (rdma_device a) (of_int (ac_ib_port (adapter_config a))) w = Ret port w" "length info < 108"
    "t = w\<lparr>channels := (channels w)(this \<mapsto>
       a\<lparr>adapter_config := (adapter_config a)\<lparr>ac_used_mtu := negotiated_mtu (adapter_config a) port\<rparr>,
         self_info := (self_info a)\<lparr>ai_gid := gid, ai_qp_num := ibv_qp_num S (ad_qp a) (hw w),
           ai_link_layer := port_link_layer port, ai_active_mtu := negotiated_mtu (adapter_config a) port,
           ai_lid := port_lid port, ai_unique_id := string_bytes info @ replicate (128 - length info) 0\<rparr>\<rparr>)\<rparr>"
proof -
  have port: "get_port_attr d p w = Ret port s \<Longrightarrow> s = w" for d p port s
    by (auto simp: get_port_attr_def deref_dev_def outcome_simps)
  have gid: "query_gid S d p i w = Ret g s \<Longrightarrow> s = w" for d p i g s
    by (auto simp: query_gid_def deref_dev_def outcome_simps)
  from assms obtain g p s1 s2 where 1: "query_gid S (rdma_device a) (of_int (ac_ib_port (adapter_config a)))
       (of_int (ac_gid_index (adapter_config a))) w = Ret g s1"
    and 2: "get_port_attr (rdma_device a) (of_int (ac_ib_port (adapter_config a))) s1 = Ret p s2"
    and 3: "length info < 108" "t = s2\<lparr>channels := (channels s2)(this \<mapsto>
       a\<lparr>adapter_config := (adapter_config a)\<lparr>ac_used_mtu := negotiated_mtu (adapter_config a) p\<rparr>,
         self_info := (self_info a)\<lparr>ai_gid := g, ai_qp_num := ibv_qp_num S (ad_qp a) (hw s2),
           ai_link_layer := port_link_layer p, ai_active_mtu := negotiated_mtu (adapter_config a) p,
           ai_lid := port_lid p, ai_unique_id := string_bytes info @ replicate (128 - length info) 0\<rparr>\<rparr>)\<rparr>"
    unfolding update_my_adapter_info_def
    by (auto simp: chan_defs outcome_simps Let_def negotiated_mtu_def)
  have s1: "s1 = w" by (rule gid [OF 1])
  with 2 have s2: "s2 = w" by (auto intro: port)
  show thesis using 2 3 unfolding s1 s2 by (rule that)
qed

lemma get_device_exists:
  assumes "get_device S nm ad w = Ret r t" shows "devices t r \<noteq> None"
  using assms by (auto simp: get_device_def register_adapter_def dev_defs outcome_simps split: if_splits)

text \<open>What \<open>loading\<close> leaves behind in the adapter.\<close>

definition loaded :: "'w sys \<Rightarrow> string \<Rightarrow> oref \<Rightarrow> AdapterConfig \<Rightarrow> ('w, 'z) chan_world_scheme \<Rightarrow> RDMAChannel \<Rightarrow> bool" where
  "loaded S info this cfg t a \<longleftrightarrow> channels t this = Some a \<and> resource_is_allocated a \<and>
     vadapt_status a = RESOURCE_ALLOCATED \<and> ad_pd a \<noteq> 0 \<and> ad_qp a \<noteq> 0 \<and> devices t (rdma_device a) \<noteq> None \<and>
     cq_lookup (rdma_device a) t (if ac_using_shared_cq cfg then ac_cq_key cfg else info) = Some (used_cq a) \<and>
     ai_qp_num (self_info a) = ibv_qp_num S (ad_qp a) (hw t) \<and> length info < 108 \<and>
     ai_unique_id (self_info a) = string_bytes info @ replicate (128 - length info) 0 \<and>
     ai_active_mtu (self_info a) = ac_used_mtu (adapter_config a) \<and>
     (\<exists>port. get_port_attr (rdma_device a) (of_int (ac_ib_port cfg)) t = Ret port t \<and>
        ai_link_layer (self_info a) = port_link_layer port \<and> ai_lid (self_info a) = port_lid port \<and>
        sint (ac_used_mtu (adapter_config a)) = min (sint (ac_used_mtu cfg)) (sint (port_active_mtu port)))"

text \<open>The configuration \<open>loading\<close> works with: a completion queue of its own has the name of the adapter.\<close>

definition own_cq_key :: "string \<Rightarrow> AdapterConfig \<Rightarrow> AdapterConfig" where
  "own_cq_key info cfg = (if ac_using_shared_cq cfg then cfg else cfg\<lparr>ac_cq_key := info\<rparr>)"

text \<open>\<open>loading\<close> up to the queue pair, and the two steps that are left.\<close>

lemma loading_resources:
  assumes run: "loading S info this w = Ret i t" and a: "channels w this = Some a" "\<not> resource_is_allocated a"
  obtains dev pd ch cq qp s4 s5 a5 u where "pd \<noteq> 0" "qp \<noteq> 0" "devices s4 dev \<noteq> None"
    "cq_lookup dev s4 (ac_cq_key (own_cq_key info (adapter_config a))) = Some cq"
    "channels s4 this = Some (a\<lparr>adapter_config := own_cq_key info (adapter_config a), rdma_device := dev, ad_pd := pd, ad_event_channel := ch,
       used_cq := cq, ad_qp_init_attr := Some (qp_init (own_cq_key info (adapter_config a)) cq), ad_qp := qp\<rparr>)"
    "update_my_adapter_info S info this s4 = Ret u s5" "channels s5 this = Some a5"
    "i = self_info a5" "t = set_chan this (a5\<lparr>vadapt_status := RESOURCE_ALLOCATED, resource_is_allocated := True\<rparr>) s5"
proof -
  let ?a0 = "a\<lparr>adapter_config := own_cq_key info (adapter_config a)\<rparr>"
  from run a obtain dev s0 s1 s2 s3 s4 s5 a5 u1 u2 u3 u4 u5 where
    0: "get_device S (ac_dev_name (adapter_config ?a0)) this (w\<lparr>channels := (channels w)(this \<mapsto> ?a0)\<rparr>) = Ret dev s0" and
    1: "create_pd S this (set_chan this (?a0\<lparr>rdma_device := dev\<rparr>) s0) = Ret u1 s1" and
    2: "create_compt_channel S this s1 = Ret u2 s2" and
    3: "create_cq S this s2 = Ret u3 s3" and
    4: "create_qp S this s3 = Ret u4 s4" and
    5: "update_my_adapter_info S info this s4 = Ret u5 s5" and
    6: "channels s5 this = Some a5"
      "i = self_info a5" "t = set_chan this (a5\<lparr>vadapt_status := RESOURCE_ALLOCATED, resource_is_allocated := True\<rparr>) s5"
    unfolding loading_def get_adapter_info_def own_cq_key_def
    by (auto simp: outcome_simps Let_def chan_defs)
  let ?a1 = "?a0\<lparr>rdma_device := dev\<rparr>"
  from 1 obtain pd h1 where 1: "pd \<noteq> 0" "s1 = s0\<lparr>hw := h1, channels := (channels s0)(this \<mapsto> ?a1\<lparr>ad_pd := pd\<rparr>)\<rparr>"
    by (rule create_pd_Ret) (auto simp: set_chan_def)
  from 2 obtain ch h2 where 2: "s2 = s1\<lparr>hw := h2, channels := (channels s1)(this \<mapsto> ?a1\<lparr>ad_pd := pd, ad_event_channel := ch\<rparr>)\<rparr>"
    by (rule create_compt_channel_Ret) (auto simp: 1)
  let ?a2 = "?a1\<lparr>ad_pd := pd, ad_event_channel := ch\<rparr>"
  from 3 obtain cq h3 ds where 3: "s3 = s2\<lparr>hw := h3, devices := ds, channels := (channels s2)(this \<mapsto> ?a2\<lparr>used_cq := cq\<rparr>)\<rparr>"
      "cq_lookup (rdma_device ?a2) s3 (ac_cq_key (adapter_config ?a2)) = Some cq"
    by (rule create_cq_Ret) (auto simp: 2)
  let ?a3 = "?a2\<lparr>used_cq := cq\<rparr>"
  from 4 obtain qp h4 where 4: "qp \<noteq> 0" "devices s3 (rdma_device ?a3) \<noteq> None"
    "s4 = s3\<lparr>hw := h4, channels := (channels s3)(this \<mapsto>
       ?a3\<lparr>ad_qp_init_attr := Some (qp_init (adapter_config ?a3) (used_cq ?a3)), ad_qp := qp\<rparr>)\<rparr>"
    by (rule create_qp_Ret) (auto simp: 3)
  show thesis
    by (rule that [OF 1(1) 4(1) _ _ _ 5 6]) (use 3(2) 4(2,3) in \<open>auto simp: cq_lookup_def\<close>)
qed

lemma loading_loaded:
  assumes run: "loading S info this w = Ret i t" and a: "channels w this = Some a" "\<not> resource_is_allocated a"
  shows "\<exists>a'. loaded S info this (adapter_config a) t a' \<and> i = self_info a'"
proof -
  let ?cfg = "own_cq_key info (adapter_config a)"
  from loading_resources [OF run a] obtain dev pd ch cq qp s4 s5 a5 u where
    4: "pd \<noteq> 0" "qp \<noteq> 0" "devices s4 dev \<noteq> None" "cq_lookup dev s4 (ac_cq_key ?cfg) = Some cq"
      "channels s4 this = Some (a\<lparr>adapter_config := ?cfg, rdma_device := dev, ad_pd := pd, ad_event_channel := ch,
         used_cq := cq, ad_qp_init_attr := Some (qp_init ?cfg cq), ad_qp := qp\<rparr>)"
    and 5: "update_my_adapter_info S info this s4 = Ret u s5"
    and 6: "channels s5 this = Some a5" "i = self_info a5" "t = set_chan this (a5\<lparr>vadapt_status := RESOURCE_ALLOCATED, resource_is_allocated := True\<rparr>) s5" .
  let ?a4 = "a\<lparr>adapter_config := ?cfg, rdma_device := dev, ad_pd := pd, ad_event_channel := ch,
         used_cq := cq, ad_qp_init_attr := Some (qp_init ?cfg cq), ad_qp := qp\<rparr>"
  from 5 obtain gid port where 5:
    "get_port_attr (rdma_device ?a4) (of_int (ac_ib_port (adapter_config ?a4))) s4 = Ret port s4" "length info < 108"
    "s5 = s4\<lparr>channels := (channels s4)(this \<mapsto>
       ?a4\<lparr>adapter_config := (adapter_config ?a4)\<lparr>ac_used_mtu := negotiated_mtu (adapter_config ?a4) port\<rparr>,
         self_info := (self_info ?a4)\<lparr>ai_gid := gid, ai_qp_num := ibv_qp_num S (ad_qp ?a4) (hw s4),
           ai_link_layer := port_link_layer port, ai_active_mtu := negotiated_mtu (adapter_config ?a4) port,
           ai_lid := port_lid port, ai_unique_id := string_bytes info @ replicate (128 - length info) 0\<rparr>\<rparr>)\<rparr>"
    by (rule update_my_adapter_info_Ret) (rule 4)
  have port: "get_port_attr dev (of_int (ac_ib_port (adapter_config a))) t = Ret port t"
    using 5(1,3) 6(3) by (auto simp: get_port_attr_def deref_dev_def outcome_simps set_chan_def own_cq_key_def split: if_splits)
  have mtu: "sint (negotiated_mtu ?cfg port) = min (sint (ac_used_mtu (adapter_config a))) (sint (port_active_mtu port))"
    by (auto simp: negotiated_mtu_def own_cq_key_def)
  have "cq_lookup dev t k = cq_lookup dev s4 k" for k
    using 5(3) 6(3) by (simp add: cq_lookup_def set_chan_def)
  with 4(4) have cq: "cq_lookup dev t (if ac_using_shared_cq (adapter_config a) then ac_cq_key (adapter_config a) else info) = Some cq"
    by (simp add: own_cq_key_def split: if_splits)
  have "loaded S info this (adapter_config a) t (a5\<lparr>vadapt_status := RESOURCE_ALLOCATED, resource_is_allocated := True\<rparr>)"
    unfolding loaded_def using 4 5 6 port mtu cq by (auto simp: set_chan_def own_cq_key_def)
  with 6(2) show ?thesis by auto
qed

section \<open>Work requests: lemmas\<close>

lemma usable_buffer_Ret_iff [outcome_simps]:
  "usable_buffer buffer len limit w = Ret b t \<longleftrightarrow> t = w \<and> buffer \<noteq> 0 \<and> buffers w buffer = Some b \<and>
     data_ptr b \<noteq> 0 \<and> owned_by_channel b \<noteq> 0 \<and> buffer_size b \<noteq> 0 \<and> ucast len \<le> buffer_size b \<and>
     (\<forall>n. limit = Some n \<longrightarrow> ucast len \<le> n)"
  unfolding usable_buffer_def security_check_def
  by (auto simp: buf_defs outcome_simps split: option.splits)

text \<open>The contract of the four posting functions: a post that returns names a registered buffer, its
  message fits, and exactly one of the two in-flight counters of the adapter has gone up by one.\<close>

definition post_ok :: "RDMABuffer \<Rightarrow> u32 \<Rightarrow> bool" where
  "post_ok b len \<longleftrightarrow> data_ptr b \<noteq> 0 \<and> owned_by_channel b \<noteq> 0 \<and> buf_mr b \<noteq> 0 \<and> unat len \<le> unat (buffer_size b)"

definition chan_frame :: "oref \<Rightarrow> ('w, 'z) chan_world_scheme \<Rightarrow> ('w, 'z) chan_world_scheme \<Rightarrow> bool" where
  "chan_frame this w t \<longleftrightarrow> (\<exists>h a sq rq. channels w this = Some a \<and>
     t = w\<lparr>hw := h, channels := (channels w)(this \<mapsto> a\<lparr>sq_inflight := sq, rq_inflight := rq\<rparr>)\<rparr>)"

definition inflight :: "oref \<Rightarrow> ('w, 'z) chan_world_scheme \<Rightarrow> int" where
  "inflight this w = (case channels w this of None \<Rightarrow> 0 | Some a \<Rightarrow> sq_inflight a + rq_inflight a)"

locale post_op =
  fixes post :: "oref \<Rightarrow> oref \<Rightarrow> u32 \<Rightarrow> ('w, 'z) chan_world_scheme \<Rightarrow> (bool, ('w, 'z) chan_world_scheme) outcome"
  assumes posts: "post this buf len w = Ret r t \<Longrightarrow> r \<and> chan_frame this w t \<and>
      inflight this t = inflight this w + 1 \<and> (\<exists>b. buffers w buf = Some b \<and> post_ok b len)"
    and oversize: "buffers w buf = Some b \<Longrightarrow> unat (buffer_size b) < unat len \<Longrightarrow>
      \<exists>msg t. post this buf len w = Halt (CheckFailed msg) t \<and> hw t = hw w"
begin

lemma posts_keep_buffers:
  assumes "serve (\<lambda>(buf, len). post this buf len) reqs w = Ret u t"
  shows "buffers t = buffers w \<and> mem t = mem w"
  using assms unfolding serve_def
  by (rule forO_invariant) (auto simp: outcome_simps chan_frame_def dest!: posts)

text \<open>A run of posts raises the counter by its length, and every buffer it names is fit to be posted.\<close>

lemma posts_counted:
  assumes "serve (\<lambda>(buf, len). post this buf len) reqs w = Ret u t"
  shows "inflight this t = inflight this w + int (length reqs) \<and>
    (\<forall>(buf, len) \<in> set reqs. \<exists>b. buffers w buf = Some b \<and> post_ok b len)"
  using assms
proof (induction reqs arbitrary: w)
  case Nil
  then show ?case by (simp add: serve_def)
next
  case (Cons q reqs)
  obtain buf len where q: "q = (buf, len)" by (cases q)
  from Cons.prems obtain r s where s: "post this buf len w = Ret r s"
      "serve (\<lambda>(buf, len). post this buf len) reqs s = Ret u t"
    by (auto simp: serve_def q outcome_simps)
  from posts [OF s(1)] have "buffers s = buffers w" "inflight this s = inflight this w + 1"
      "\<exists>b. buffers w buf = Some b \<and> post_ok b len"
    by (auto simp: chan_frame_def)
  with Cons.IH [OF s(2)] q show ?case by auto
qed

end

lemma post_counts:
  assumes "channels w this = Some a"
  shows "chan_frame this w (w\<lparr>channels := (channels w)(this \<mapsto> a\<lparr>sq_inflight := sq_inflight a + 1\<rparr>), hw := h\<rparr>)"
    "inflight this (w\<lparr>channels := (channels w)(this \<mapsto> a\<lparr>sq_inflight := sq_inflight a + 1\<rparr>), hw := h\<rparr>) = inflight this w + 1"
    "chan_frame this w (w\<lparr>channels := (channels w)(this \<mapsto> a\<lparr>rq_inflight := rq_inflight a + 1\<rparr>), hw := h\<rparr>)"
    "inflight this (w\<lparr>channels := (channels w)(this \<mapsto> a\<lparr>rq_inflight := rq_inflight a + 1\<rparr>), hw := h\<rparr>) = inflight this w + 1"
proof -
  have "chan_frame this w (w\<lparr>channels := (channels w)(this \<mapsto> a\<lparr>sq_inflight := sq, rq_inflight := rq\<rparr>), hw := h\<rparr>)" for sq rq
    using assms unfolding chan_frame_def by (intro exI [of _ h] exI [of _ a] exI [of _ sq] exI [of _ rq]) simp
  from this [of "rq_inflight a" "sq_inflight a + 1"] this [of "rq_inflight a + 1" "sq_inflight a"]
  show "chan_frame this w (w\<lparr>channels := (channels w)(this \<mapsto> a\<lparr>sq_inflight := sq_inflight a + 1\<rparr>), hw := h\<rparr>)"
    "chan_frame this w (w\<lparr>channels := (channels w)(this \<mapsto> a\<lparr>rq_inflight := rq_inflight a + 1\<rparr>), hw := h\<rparr>)"
    by simp_all
qed (use assms in \<open>auto simp: inflight_def\<close>)

lemma post_len: "ucast len \<le> n \<longleftrightarrow> unat (len :: u32) \<le> unat (n :: u64)"
  by (simp add: word_le_nat_alt)

lemmas post_simps = outcome_simps add_sqe_def add_rqe_def chan_defs post_len post_ok_def post_send_def
  real_send_def real_recv_def real_read_remote_def real_write_remote_def real_write_remote_with_notify_def

lemma usable_buffer_oversize:
  assumes "buffers w buf = Some b" "unat (buffer_size b) < unat len"
  shows "\<exists>msg. usable_buffer buf len limit w = Halt (CheckFailed msg) w"
  using assms by (auto simp: usable_buffer_def security_check_def buf_defs check_def post_len)

lemma bind_refused:
  "\<exists>msg. m = Halt (CheckFailed msg) w \<Longrightarrow> \<exists>msg t. bindO m f = Halt (CheckFailed msg) t \<and> hw t = hw w"
  by auto

lemma send_remote_posts:
  "send_remote S this buf len tag w = Ret r t \<Longrightarrow> r \<and> chan_frame this w t \<and>
      inflight this t = inflight this w + 1 \<and> (\<exists>b. buffers w buf = Some b \<and> post_ok b len)"
  by (auto simp: send_remote_def post_simps post_counts)

lemma recv_remote_posts:
  "recv_remote S this buf len w = Ret r t \<Longrightarrow> r \<and> chan_frame this w t \<and>
      inflight this t = inflight this w + 1 \<and> (\<exists>b. buffers w buf = Some b \<and> post_ok b len)"
  by (auto simp: recv_remote_def post_simps post_counts)

lemma read_remote_posts:
  "read_remote S this buf len d w = Ret r t \<Longrightarrow> r \<and> chan_frame this w t \<and>
      inflight this t = inflight this w + 1 \<and> (\<exists>b. buffers w buf = Some b \<and> post_ok b len)"
  by (auto simp: read_remote_def post_simps post_counts)

lemma write_remote_posts:
  "write_remote S this buf len d tag notify w = Ret r t \<Longrightarrow> r \<and> chan_frame this w t \<and>
      inflight this t = inflight this w + 1 \<and> (\<exists>b. buffers w buf = Some b \<and> post_ok b len)"
  by (auto simp: write_remote_def post_simps post_counts Let_def split: if_splits)

interpretation send_op: post_op "\<lambda>this buf len. send_remote S this buf len tag" for S :: "'w sys" and tag
  by unfold_locales (erule send_remote_posts, unfold send_remote_def, rule bind_refused, rule usable_buffer_oversize)

interpretation recv_op: post_op "recv_remote S" for S :: "'w sys"
  by unfold_locales (erule recv_remote_posts, unfold recv_remote_def, rule bind_refused, rule usable_buffer_oversize)

interpretation read_op: post_op "\<lambda>this buf len. read_remote S this buf len d" for S :: "'w sys" and d
  by unfold_locales (erule read_remote_posts, unfold read_remote_def, rule bind_refused, rule usable_buffer_oversize)

interpretation write_op: post_op "\<lambda>this buf len. write_remote S this buf len d tag notify"
  for S :: "'w sys" and d tag notify
  by unfold_locales (erule write_remote_posts, unfold write_remote_def, rule bind_refused, rule usable_buffer_oversize)

section \<open>Properties\<close>

text \<open>Property C3. On a queue pair in RESET that follows the verbs state machine, \<open>connecting\<close> takes it to
  RTS: the attribute masks it passes are the ones the three transitions require. The adapter keeps the
  peer's data and is CONNECTING.\<close>

theorem connecting_reaches_rts:
  assumes a: "channels w this = Some a" "ad_qp a \<noteq> 0" "devices w (rdma_device a) \<noteq> None"
    and peer: "peer_acceptable a peer"
    and qp: "qp_machine S (ad_qp a) st valid" "st (hw w) = IBV_QPS_RESET"
    and valid: "valid (init_attr a)" "valid (rtr_attr (a\<lparr>remote_info := peer\<rparr>))" "valid rts_attr"
  shows "\<exists>w' a'. connecting S peer this w = Ret True w' \<and> st (hw w') = IBV_QPS_RTS \<and>
    channels w' this = Some a' \<and> vadapt_status a' = CONNECTING \<and> remote_info a' = peer"
proof -
  let ?a = "a\<lparr>remote_info := peer\<rparr>"
  from qp(1) have step: "qp_required (st h) (at_qp_state attr) = Some req \<Longrightarrow> req \<subseteq> flags \<Longrightarrow> valid attr \<Longrightarrow>
      st (snd (ibv_modify_qp S (ad_qp a) attr flags h)) = at_qp_state attr" for h attr req flags
    by (auto simp: qp_machine_def)
  have states: "at_qp_state (init_attr a) = IBV_QPS_INIT" "at_qp_state (rtr_attr ?a) = IBV_QPS_RTR"
      "at_qp_state rts_attr = IBV_QPS_RTS"
    by (simp_all add: init_attr_def rtr_attr_def rts_attr_def Let_def)
  have "init_attr ?a = init_attr a" by (simp add: init_attr_def)
  with qp(2) states valid have "st (connected_hw S ?a (hw w)) = IBV_QPS_RTS"
    by (simp add: connected_hw_def Let_def step)
  moreover obtain i where "connecting S peer this w = Ret True
    (w\<lparr>hw := connected_hw S ?a (hw w),
       channels := (channels w)(this \<mapsto> ?a\<lparr>ad_qp_init_attr := i, vadapt_status := CONNECTING\<rparr>)\<rparr>)"
    using connecting_eq [OF a peer] by metis
  ultimately show ?thesis by auto
qed

text \<open>A channel with private completion queue before and after \<open>loading\<close>, for the witnesses.\<close>

definition chan_world0 :: "lb_state chan_world" where
  "chan_world0 = \<lparr>hw = lb_init, next_ref = 10, device_map = Map.empty, devices = Map.empty, cache_line_size = 64, cycle_buffer = 4096, mem = (\<lambda>_. 0),
     buffers = [7 \<mapsto> (buffer_init 64 1 ''b'' False)\<lparr>data_ptr := 4096, owned_by_channel := 1, buf_mr := 5\<rparr>],
     channels = [1 \<mapsto> (RDMAChannel_init ''DataChannel'' 2)
       \<lparr>adapter_config := default_AdapterConfig\<lparr>ac_using_shared_cq := False\<rparr>\<rparr>]\<rparr>"

definition loaded_world :: "lb_state chan_world" where
  "loaded_world = state_of (loading loopback ''me'' 1 chan_world0)"

definition lb_peer :: AdapterInfo where
  "lb_peer = default_AdapterInfo\<lparr>ai_qp_num := 77, ai_link_layer := IBV_LINK_LAYER_ETHERNET,
     ai_unique_id := string_bytes ''you'' @ replicate 125 0\<rparr>"

lemma loaded_world_facts:
  obtains a where "channels loaded_world 1 = Some a" "ad_qp a \<noteq> 0" "devices loaded_world (rdma_device a) \<noteq> None"
    "peer_acceptable a lb_peer" "lb_qp (hw loaded_world) = IBV_QPS_RESET"
proof -
  have "case channels loaded_world 1 of None \<Rightarrow> False
    | Some a \<Rightarrow> ad_qp a \<noteq> 0 \<and> devices loaded_world (rdma_device a) \<noteq> None \<and> peer_acceptable a lb_peer \<and>
        lb_qp (hw loaded_world) = IBV_QPS_RESET"
    by code_simp
  then show thesis using that by (auto split: option.splits)
qed

theorem connecting_reaches_rts_witness:
  "\<exists>w'. connecting loopback lb_peer 1 loaded_world = Ret True w' \<and> lb_qp (hw w') = IBV_QPS_RTS"
proof -
  obtain a where "channels loaded_world 1 = Some a" "ad_qp a \<noteq> 0" "devices loaded_world (rdma_device a) \<noteq> None"
    "peer_acceptable a lb_peer" "lb_qp (hw loaded_world) = IBV_QPS_RESET"
    by (rule loaded_world_facts)
  from connecting_reaches_rts [OF this(1-4) qp_machine_loopback this(5)] show ?thesis by blast
qed

text \<open>Property C21. \<open>connecting\<close> does not look at the results of the transitions: on a device that refuses all
  of them it still returns true and the adapter is CONNECTING.\<close>

theorem connecting_ignores_refusal:
  assumes a: "channels w this = Some a" "ad_qp a \<noteq> 0" "devices w (rdma_device a) \<noteq> None"
    and peer: "peer_acceptable a peer"
    and refuses: "\<And>attr flags h. ibv_modify_qp S (ad_qp a) attr flags h = (22, h)"
  shows "\<exists>w' a'. connecting S peer this w = Ret True w' \<and> hw w' = hw w \<and>
    channels w' this = Some a' \<and> vadapt_status a' = CONNECTING"
proof -
  obtain i where "connecting S peer this w = Ret True
    (w\<lparr>hw := connected_hw S (a\<lparr>remote_info := peer\<rparr>) (hw w),
       channels := (channels w)(this \<mapsto> a\<lparr>remote_info := peer, ad_qp_init_attr := i, vadapt_status := CONNECTING\<rparr>)\<rparr>)"
    using connecting_eq [OF a peer] by metis
  moreover have "connected_hw S (a\<lparr>remote_info := peer\<rparr>) (hw w) = hw w"
    by (simp add: connected_hw_def Let_def refuses)
  ultimately show ?thesis by auto
qed

theorem connecting_ignores_refusal_witness:
  "\<exists>w' a'. connecting (loopback\<lparr>ibv_modify_qp := \<lambda>qp attr flags h. (22, h)\<rparr>) lb_peer 1 loaded_world = Ret True w' \<and>
    lb_qp (hw w') = IBV_QPS_RESET \<and> channels w' 1 = Some a' \<and> vadapt_status a' = CONNECTING"
proof -
  obtain a where "channels loaded_world 1 = Some a" "ad_qp a \<noteq> 0" "devices loaded_world (rdma_device a) \<noteq> None"
    "peer_acceptable a lb_peer" and st: "lb_qp (hw loaded_world) = IBV_QPS_RESET"
    by (rule loaded_world_facts)
  from connecting_ignores_refusal [OF this(1-4), of "loopback\<lparr>ibv_modify_qp := \<lambda>qp attr flags h. (22, h)\<rparr>"] st
  show ?thesis by auto
qed

text \<open>Property C22. The test of the peer's link layer in \<open>update_peer_adapter_info\<close> is an assignment and rejects
  nobody: an InfiniBand adapter connects to a peer of any link layer. Only an Ethernet adapter finds the
  mismatch, later, in the RTR transition, when the queue pair is already in INIT.\<close>

theorem mixed_link_layers:
  assumes a: "channels w this = Some a" "ad_qp a \<noteq> 0" "devices w (rdma_device a) \<noteq> None"
    and peer: "nth_opt (ai_unique_id peer) 0 \<noteq> Some 0" "ai_link_layer peer \<noteq> ai_link_layer (self_info a)"
    and ids: "0 \<in> set (ai_unique_id peer)" "0 \<in> set (ai_unique_id (self_info a))"
  shows "(ai_link_layer (self_info a) = IBV_LINK_LAYER_INFINIBAND \<longrightarrow> (\<exists>w'. connecting S peer this w = Ret True w')) \<and>
    (ai_link_layer (self_info a) = IBV_LINK_LAYER_ETHERNET \<longrightarrow>
       (\<exists>w'. connecting S peer this w = Halt (CheckFailed ''QP should working in the same mode'') w'))"
proof (intro conjI impI)
  assume "ai_link_layer (self_info a) = IBV_LINK_LAYER_INFINIBAND"
  with peer(1) ids have "peer_acceptable a peer" by (simp add: peer_acceptable_def)
  then show "\<exists>w'. connecting S peer this w = Ret True w'" using connecting_eq [OF a] by metis
next
  assume eth: "ai_link_layer (self_info a) = IBV_LINK_LAYER_ETHERNET"
  let ?a = "a\<lparr>remote_info := peer\<rparr>"
  let ?w0 = "w\<lparr>channels := (channels w)(this \<mapsto> ?a)\<rparr>"
  let ?f = "{IBV_QP_STATE, IBV_QP_PKEY_INDEX, IBV_QP_PORT, IBV_QP_ACCESS_FLAGS}"
  have start: "bindO (update_peer_adapter_info peer this w) (\<lambda>_ w. bindO (print_ids this w) f) = f () ?w0" for f
    using a eth ids by (simp add: update_peer_adapter_info_def print_ids_def chan_defs Let_def)
  obtain i where i: "bindO (modify_qp_to_init S this ?w0) (\<lambda>_ w. show_qp_info S this w) =
     Ret () (?w0\<lparr>hw := snd (ibv_modify_qp S (ad_qp ?a) (init_attr ?a) ?f (hw w)),
       channels := (channels ?w0)(this \<mapsto> ?a\<lparr>ad_qp_init_attr := i\<rparr>)\<rparr>)"
    using transition_and_show [of ?w0 this ?a S "init_attr ?a" ?f] a by (auto simp: modify_qp_to_init_def chan_defs)
  show "\<exists>w'. connecting S peer this w = Halt (CheckFailed ''QP should working in the same mode'') w'"
    using a peer eth by (simp add: connecting_def start bind_then [OF i] modify_qp_to_rtr_def chan_defs)
qed

theorem mixed_link_layers_witness:
  "\<exists>w'. connecting loopback (lb_peer\<lparr>ai_link_layer := IBV_LINK_LAYER_INFINIBAND\<rparr>) 1 loaded_world =
     Halt (CheckFailed ''QP should working in the same mode'') w'"
proof -
  have "case channels loaded_world 1 of None \<Rightarrow> False
    | Some a \<Rightarrow> ad_qp a \<noteq> 0 \<and> devices loaded_world (rdma_device a) \<noteq> None \<and>
        ai_link_layer (self_info a) = IBV_LINK_LAYER_ETHERNET \<and> nth_opt (ai_unique_id lb_peer) 0 \<noteq> Some 0 \<and>
        0 \<in> set (ai_unique_id lb_peer) \<and> 0 \<in> set (ai_unique_id (self_info a))"
    by code_simp
  then obtain a where "channels loaded_world 1 = Some a" "ad_qp a \<noteq> 0"
      "devices loaded_world (rdma_device a) \<noteq> None" "ai_link_layer (self_info a) = IBV_LINK_LAYER_ETHERNET"
      "nth_opt (ai_unique_id lb_peer) 0 \<noteq> Some 0" "0 \<in> set (ai_unique_id lb_peer)" "0 \<in> set (ai_unique_id (self_info a))"
    by (auto split: option.splits)
  with mixed_link_layers [OF this(1-3), of "lb_peer\<lparr>ai_link_layer := IBV_LINK_LAYER_INFINIBAND\<rparr>" loopback]
  show ?thesis by simp
qed

text \<open>Property C40. Nothing checks that the identifier a peer sends ends within its 128 bytes: \<open>connecting\<close> prints it
  as a C string, and on the data of a peer that fills all of them with other values it reads past the end, before any
  transition of the queue pair.\<close>

theorem connecting_unterminated_id:
  assumes a: "channels w this = Some a" "ai_link_layer (self_info a) \<noteq> 0"
    and peer: "wf_AdapterInfo peer" "0 \<notin> set (ai_unique_id peer)"
  shows "\<exists>w'. connecting S (bytes_AdapterInfo (AdapterInfo_bytes peer)) this w = Halt (Undefined ''unique_id without NUL'') w' \<and> hw w' = hw w"
proof -
  have "0 < length (ai_unique_id peer)" using peer(1) by (simp add: wf_AdapterInfo_def)
  from nth_mem [OF this] peer(2) have "nth_opt (ai_unique_id peer) 0 \<noteq> Some 0" by (auto simp: nth_opt_def)
  with a peer show ?thesis
    by (simp add: AdapterInfo_bytes_inverse connecting_def update_peer_adapter_info_def print_ids_def chan_defs Let_def)
qed

theorem connecting_unterminated_id_witness:
  "\<exists>w'. connecting loopback (bytes_AdapterInfo (AdapterInfo_bytes (lb_peer\<lparr>ai_unique_id := replicate 128 65\<rparr>))) 1 loaded_world =
     Halt (Undefined ''unique_id without NUL'') w' \<and> lb_qp (hw w') = IBV_QPS_RESET"
proof -
  have "case channels loaded_world 1 of None \<Rightarrow> False | Some a \<Rightarrow> ai_link_layer (self_info a) \<noteq> 0" by code_simp
  then obtain a where a: "channels loaded_world 1 = Some a" "ai_link_layer (self_info a) \<noteq> 0" by (auto split: option.splits)
  have "wf_AdapterInfo (lb_peer\<lparr>ai_unique_id := replicate 128 65\<rparr>)" "0 \<notin> set (ai_unique_id (lb_peer\<lparr>ai_unique_id := replicate 128 65\<rparr>))"
    by (simp_all add: wf_AdapterInfo_def lb_peer_def default_AdapterInfo_def)
  from connecting_unterminated_id [OF a this, of loopback] loaded_world_facts show ?thesis by metis
qed



text \<open>Property C12. \<open>loading\<close>, when it returns, has allocated everything the connection needs: protection domain,
  completion queue registered under the configured key, queue pair; what it announces to the peer is
  the number of that queue pair, the port's LID and link layer and the adapter's name; the path MTU is
  the smaller of the configured and the active one. A second call changes nothing and returns the same.\<close>

theorem loading_allocates:
  assumes "loading S info this w = Ret i t" "channels w this = Some a" "\<not> resource_is_allocated a"
  shows "\<exists>a'. loaded S info this (adapter_config a) t a' \<and> i = self_info a' \<and> loading S info' this t = Ret i t"
proof -
  from loading_loaded [OF assms] obtain a' where "loaded S info this (adapter_config a) t a'" "i = self_info a'" by blast
  then show ?thesis by (auto simp: loaded_def loading_def chan_defs)
qed

theorem loading_allocates_witness:
  "\<exists>i t (a :: RDMAChannel) a'. loading loopback ''me'' 1 chan_world0 = Ret i t \<and> loaded loopback ''me'' 1 (adapter_config a) t a' \<and>
     i = self_info a' \<and> loading loopback ''me'' 1 t = Ret i t"
proof -
  have "returns (loading loopback ''me'' 1 chan_world0)" by code_simp
  then obtain i t where run: "loading loopback ''me'' 1 chan_world0 = Ret i t" by (rule returnsE)
  have "case channels chan_world0 1 of None \<Rightarrow> False | Some a \<Rightarrow> \<not> resource_is_allocated a" by code_simp
  then obtain a where "channels chan_world0 1 = Some a" "\<not> resource_is_allocated a" by (auto split: option.splits)
  from loading_allocates [OF run this] run show ?thesis by blast
qed



definition refused :: "('a, ('w, 'z) sys_world_scheme) outcome \<Rightarrow> ('w, 'z) sys_world_scheme \<Rightarrow> bool" where
  "refused m w \<longleftrightarrow> (\<exists>msg t. m = Halt (CheckFailed msg) t \<and> hw t = hw w)"

lemma usable_buffer_remote_oversize:
  assumes "buffers w buf = Some b" "unat n < unat len"
  shows "\<exists>msg. usable_buffer buf len (Some n) w = Halt (CheckFailed msg) w"
  using assms by (auto simp: usable_buffer_def security_check_def buf_defs check_def post_len)

text \<open>Property C15. A message longer than the buffer is refused by every posting function, and nothing reaches the
  device; a read or write longer than the peer's buffer is refused as well.\<close>

theorem oversize_refused:
  assumes b: "buffers w buf = Some b"
  shows "(unat (buffer_size b) < unat len \<longrightarrow>
      refused (send_remote S this buf len tag w) w \<and> refused (recv_remote S this buf len w) w \<and>
      refused (read_remote S this buf len d w) w \<and> refused (write_remote S this buf len d tag notify w) w) \<and>
    (unat (cd_buffer_length d) < unat len \<longrightarrow>
      refused (read_remote S this buf len d w) w \<and> refused (write_remote S this buf len d tag notify w) w)"
proof (intro conjI impI)
  assume "unat (cd_buffer_length d) < unat len"
  note big = bind_refused [OF usable_buffer_remote_oversize [OF b this]]
  show "refused (read_remote S this buf len d w) w" "refused (write_remote S this buf len d tag notify w) w"
    unfolding refused_def read_remote_def write_remote_def by (rule big)+
next
  assume len: "unat (buffer_size b) < unat len"
  show "refused (send_remote S this buf len tag w) w" "refused (recv_remote S this buf len w) w"
    "refused (read_remote S this buf len d w) w" "refused (write_remote S this buf len d tag notify w) w"
    using send_op.oversize [OF b len] recv_op.oversize [OF b len] read_op.oversize [OF b len]
      write_op.oversize [OF b len]
    unfolding refused_def by blast+
qed

theorem oversize_refused_witness: "refused (send_remote loopback 1 7 65 3 loaded_world) loaded_world"
proof -
  have "case buffers loaded_world 7 of None \<Rightarrow> False | Some b \<Rightarrow> buffer_size b = 64" by code_simp
  then obtain b where "buffers loaded_world 7 = Some b" "buffer_size b = 64" by (auto split: option.splits)
  with oversize_refused [OF this(1), of 65 loopback 1 3] show ?thesis by simp
qed

end
