(* ===== verification/Channel.thy ===== *)
theory Channel
  imports Adapter
begin

text \<open>
  \<open>include/rdma_channel.h\<close>, \<open>src/rdma_channel.cc\<close>, and the members of \<open>RDMABuffer\<close> that need a channel:
  registration of a buffer (its blocks get the memory region of the base), removal, the buffers known
  of the peer, and the two destructors.
\<close>

section \<open>Operations\<close>

definition RDMAChannel_new :: "string \<Rightarrow> oref \<Rightarrow> ('w, 'z) chan_world_scheme \<Rightarrow>
    (oref, ('w, 'z) chan_world_scheme) outcome" where
  "RDMAChannel_new info ep w =
     (let this = next_ref w in Ret this (set_chan this (RDMAChannel_init info ep) (w\<lparr>next_ref := Suc this\<rparr>)))"

text \<open>The loop over the blocks in \<open>register_in_channel\<close>.\<close>

definition assign_block :: "oref \<Rightarrow> oref \<Rightarrow> oref \<Rightarrow> ('w, 'z) chan_world_scheme \<Rightarrow>
    (unit, ('w, 'z) chan_world_scheme) outcome" where
  "assign_block owner mr x w =
     bindO (deref_buf x w) (\<lambda>b w. Ret () (set_buf x (b\<lparr>owned_by_channel := owner, buf_mr := mr\<rparr>) w))"

definition register_in_channel :: "'w sys \<Rightarrow> oref \<Rightarrow> oref \<Rightarrow> ('w, 'z) chan_world_scheme \<Rightarrow>
    (bool, ('w, 'z) chan_world_scheme) outcome" where
  "register_in_channel S this channel w =
     bindO (deref_buf this w) (\<lambda>b w.
     bindO (check (\<not> is_sub_buffer b) ''[Error]: sub-buffer cannot register in channel'' w) (\<lambda>_ w.
     bindO (register_mem S channel (data_ptr b) (buffer_size b) 0 (buffer_name b)
       (set_buf this (b\<lparr>owned_by_channel := channel\<rparr>) w)) (\<lambda>mr w.
     bindO (forO (assign_block channel mr) (buffer_mgr b)
       (set_buf this (b\<lparr>owned_by_channel := channel, buf_mr := mr\<rparr>) w)) (\<lambda>_ w.
     Ret True w))))"

definition register_buffer :: "'w sys \<Rightarrow> oref \<Rightarrow> oref \<Rightarrow> ('w, 'z) chan_world_scheme \<Rightarrow>
    (bool, ('w, 'z) chan_world_scheme) outcome" where
  "register_buffer S this buffer w =
     bindO (check (buffer \<noteq> 0) ''RDMABuffer has not been initialized'' w) (\<lambda>_ w.
     bindO (deref_buf buffer w) (\<lambda>b w.
     bindO (deref_chan this w) (\<lambda>c w.
     bindO (check (smap_find (owning_buffers c) (buffer_name b) = None)
       ''The buffer has already been registered in this channel'' w) (\<lambda>_ w.
     bindO (register_in_channel S buffer this w) (\<lambda>_ w.
     Ret True (set_chan this (c\<lparr>owning_buffers := smap_insert (buffer_name b) buffer (owning_buffers c)\<rparr>) w))))))"

text \<open>Both branches of \<open>remove_buffer\<close> return false.\<close>

definition remove_buffer :: "oref \<Rightarrow> oref \<Rightarrow> ('w, 'z) chan_world_scheme \<Rightarrow>
    (bool, ('w, 'z) chan_world_scheme) outcome" where
  "remove_buffer this buffer w =
     bindO (check (buffer \<noteq> 0) ''RDMABuffer has not been initialized'' w) (\<lambda>_ w.
     bindO (deref_buf buffer w) (\<lambda>b w.
     bindO (deref_chan this w) (\<lambda>c w.
     if smap_find (owning_buffers c) (buffer_name b) = None then Ret False w
     else Ret False (set_chan this (c\<lparr>owning_buffers := smap_erase (buffer_name b) (owning_buffers c)\<rparr>) w))))"

definition deregister_from_channel :: "'w sys \<Rightarrow> oref \<Rightarrow> oref \<Rightarrow> ('w, 'z) chan_world_scheme \<Rightarrow>
    (bool, ('w, 'z) chan_world_scheme) outcome" where
  "deregister_from_channel S this channel w =
     (if channel = 0 then Ret False w
      else
       bindO (deref_buf this w) (\<lambda>b w.
       bindO (check (\<not> is_sub_buffer b) ''Subbuffer cannot register in channel'' w) (\<lambda>_ w.
       bindO (check (buf_mr b \<noteq> 0) ''Illegal mr'' w) (\<lambda>_ w.
       bindO (deregister_mem S channel (buf_mr b) (buffer_name b) w) (\<lambda>_ w.
       bindO (remove_buffer channel this w) (\<lambda>_ w.
       Ret False (set_buf this (b\<lparr>owned_by_channel := 0, buf_mr := 0\<rparr>) w)))))))"

definition find_buffer :: "oref \<Rightarrow> string \<Rightarrow> ('w, 'z) chan_world_scheme \<Rightarrow>
    (oref, ('w, 'z) chan_world_scheme) outcome" where
  "find_buffer this key w =
     bindO (deref_chan this w) (\<lambda>c w.
     Ret (case smap_find (owning_buffers c) key of None \<Rightarrow> 0 | Some r \<Rightarrow> r) w)"

definition insert_peer_buffer :: "oref \<Rightarrow> string \<Rightarrow> CommDescriptor \<Rightarrow> ('w, 'z) chan_world_scheme \<Rightarrow>
    (bool, ('w, 'z) chan_world_scheme) outcome" where
  "insert_peer_buffer this key peer w =
     bindO (deref_chan this w) (\<lambda>c w.
     case umap_find (peer_buffer_mgr c) key of
       Some _ \<Rightarrow> Ret False w
     | None \<Rightarrow> Ret True (set_chan this (c\<lparr>peer_buffer_mgr := umap_insert key peer (peer_buffer_mgr c)\<rparr>) w))"

text \<open>The pointer returned is null (\<open>None\<close>) or leads to the stored descriptor.\<close>

definition find_peer_buffer :: "oref \<Rightarrow> string \<Rightarrow> ('w, 'z) chan_world_scheme \<Rightarrow>
    (CommDescriptor option, ('w, 'z) chan_world_scheme) outcome" where
  "find_peer_buffer this key w =
     bindO (deref_chan this w) (\<lambda>c w. Ret (umap_find (peer_buffer_mgr c) key) w)"

definition setup_index_in_session :: "oref \<Rightarrow> int \<Rightarrow> ('w, 'z) chan_world_scheme \<Rightarrow>
    (unit, ('w, 'z) chan_world_scheme) outcome" where
  "setup_index_in_session this index w =
     bindO (deref_chan this w) (\<lambda>c w. Ret () (set_chan this (c\<lparr>indexed_by_session := index\<rparr>) w))"

section \<open>Destruction\<close>

definition retire_block :: "oref \<Rightarrow> ('w, 'z) chan_world_scheme \<Rightarrow> (unit, ('w, 'z) chan_world_scheme) outcome" where
  "retire_block x w =
     bindO (deref_buf x w) (\<lambda>b w.
     Ret () (set_buf x (b\<lparr>owned_by_channel := 0, data_ptr := 0, buf_mr := 0, is_initialized := False\<rparr>) w))"

text \<open>\<open>~RDMABuffer\<close>. The object is gone afterwards; the sub-buffer objects stay, retired (nothing deletes
  them). \<open>free\<close> gives the bytes back to the allocator and is not visible in the model.\<close>

definition RDMABuffer_delete :: "'w sys \<Rightarrow> oref \<Rightarrow> ('w, 'z) chan_world_scheme \<Rightarrow>
    (unit, ('w, 'z) chan_world_scheme) outcome" where
  "RDMABuffer_delete S this w =
     bindO (deref_buf this w) (\<lambda>b w.
     bindO (if is_sub_buffer b then Ret () w
       else
        bindO (if owned_by_channel b \<noteq> 0 then bindO (deregister_from_channel S this (owned_by_channel b) w) (\<lambda>_. Ret ())
               else Ret () w) (\<lambda>_ w.
        forO retire_block (buffer_mgr b) w)) (\<lambda>_ w.
     Ret () (w\<lparr>buffers := (buffers w)(this := None)\<rparr>)))"

text \<open>The loop of \<open>~RDMAChannel\<close>: \<open>cur\<close> is the entry the iterator stands on. \<open>++\<close> on an iterator whose
  entry has been erased is undefined. \<open>fuel\<close> is the number of entries plus one; the map never grows.\<close>

fun delete_loop :: "'w sys \<Rightarrow> oref \<Rightarrow> nat \<Rightarrow> (string \<times> oref) option \<Rightarrow> ('w, 'z) chan_world_scheme \<Rightarrow>
    (unit, ('w, 'z) chan_world_scheme) outcome" where
  "delete_loop S this fuel None w = Ret () w"
| "delete_loop S this 0 (Some e) w = Halt (NoReturn ''~RDMAChannel'') w"
| "delete_loop S this (Suc fuel) (Some (k, buf)) w =
     bindO (deregister_from_channel S buf this w) (\<lambda>_ w.
     bindO (deref_chan this w) (\<lambda>c w.
     bindO (defined_if (smap_find (owning_buffers c) k \<noteq> None) ''iterator to an erased element'' w) (\<lambda>_ w.
     delete_loop S this fuel (find (\<lambda>e. k < fst e) (owning_buffers c)) w)))"

definition RDMAChannel_delete :: "'w sys \<Rightarrow> oref \<Rightarrow> ('w, 'z) chan_world_scheme \<Rightarrow>
    (unit, ('w, 'z) chan_world_scheme) outcome" where
  "RDMAChannel_delete S this w =
     bindO (deref_chan this w) (\<lambda>c w.
     bindO (delete_loop S this (Suc (length (owning_buffers c)))
       (case owning_buffers c of [] \<Rightarrow> None | e # _ \<Rightarrow> Some e) w) (\<lambda>_ w.
     Ret () (w\<lparr>channels := (channels w)(this := None)\<rparr>)))"

section \<open>Invariant\<close>

text \<open>The buffers of a channel: in name order, each a base buffer registered in this channel under its name.\<close>

definition owns :: "('w, 'z) chan_world_scheme \<Rightarrow> oref \<Rightarrow> string \<Rightarrow> oref \<Rightarrow> bool" where
  "owns w c k r \<longleftrightarrow> r \<noteq> 0 \<and> (\<exists>b. buffers w r = Some b \<and> buffer_name b = k \<and> owned_by_channel b = c \<and>
     buf_mr b \<noteq> 0 \<and> \<not> is_sub_buffer b)"

definition chan_inv :: "('w, 'z) chan_world_scheme \<Rightarrow> bool" where
  "chan_inv w \<longleftrightarrow> channels w 0 = None \<and> (\<forall>c ch. channels w c = Some ch \<longrightarrow> smap_ok (owning_buffers ch) \<and>
     (\<forall>k r. smap_find (owning_buffers ch) k = Some r \<longrightarrow> owns w c k r))"

section \<open>Lemmas\<close>

lemma register_mem_Ret:
  assumes "register_mem S c p n f info w = Ret mr t"
  obtains h where "mr \<noteq> 0" "t = w\<lparr>hw := h\<rparr>"
  using assms by (auto simp: register_mem_def real_register_mem_def chan_defs deref_dev_def outcome_simps)

text \<open>The loop over the blocks changes the listed blocks only, and each of them as intended.\<close>

lemma assign_blocks_Ret:
  assumes "forO (assign_block owner mr) xs w = Ret u t" "distinct xs"
  shows "t = w\<lparr>buffers := (\<lambda>x. if x \<in> set xs
      then map_option (\<lambda>b. b\<lparr>owned_by_channel := owner, buf_mr := mr\<rparr>) (buffers w x) else buffers w x)\<rparr> \<and>
    set xs \<subseteq> dom (buffers w)"
  using assms
proof (induction xs arbitrary: w)
  case Nil
  then show ?case by simp
next
  case (Cons x xs)
  from Cons.prems obtain s v where s: "assign_block owner mr x w = Ret v s"
    and rest: "forO (assign_block owner mr) xs s = Ret u t"
    by (auto simp: outcome_simps)
  from s obtain b where b: "buffers w x = Some b" "s = set_buf x (b\<lparr>owned_by_channel := owner, buf_mr := mr\<rparr>) w"
    by (auto simp: assign_block_def deref_buf_def outcome_simps)
  have "dom (buffers s) = dom (buffers w)" using b by (auto simp: set_buf_def)
  with Cons.IH [OF rest] Cons.prems(2) have "set (x # xs) \<subseteq> dom (buffers w)" using b(1) by auto
  moreover from Cons.IH [OF rest] Cons.prems(2) b
  have "t = w\<lparr>buffers := (\<lambda>y. if y \<in> set (x # xs)
      then map_option (\<lambda>b. b\<lparr>owned_by_channel := owner, buf_mr := mr\<rparr>) (buffers w y) else buffers w y)\<rparr>"
    by (auto simp: set_buf_def fun_eq_iff)
  ultimately show ?case by blast
qed

text \<open>The state after a registration: the base and its blocks carry the channel and the new region.\<close>

definition registered :: "oref \<Rightarrow> oref \<Rightarrow> oref \<Rightarrow> RDMABuffer \<Rightarrow> (oref \<rightharpoonup> RDMABuffer) \<Rightarrow> oref \<rightharpoonup> RDMABuffer" where
  "registered channel mr this b m = (\<lambda>x. if x = this \<or> x \<in> set (buffer_mgr b)
     then map_option (\<lambda>b. b\<lparr>owned_by_channel := channel, buf_mr := mr\<rparr>) (m x) else m x)"

lemma register_in_channel_Ret:
  assumes "register_in_channel S this channel w = Ret r t" "wf_buffer w this" "buffers w this = Some b"
  obtains mr h where "mr \<noteq> 0" "\<not> is_sub_buffer b" "r" "t = w\<lparr>hw := h, buffers := registered channel mr this b (buffers w)\<rparr>"
proof -
  let ?w = "set_buf this (b\<lparr>owned_by_channel := channel\<rparr>) w"
  from assms(1,3) obtain mr s u where 1: "\<not> is_sub_buffer b" "r"
      "register_mem S channel (data_ptr b) (buffer_size b) 0 (buffer_name b) ?w = Ret mr s"
    and 2: "forO (assign_block channel mr) (buffer_mgr b) (set_buf this (b\<lparr>owned_by_channel := channel, buf_mr := mr\<rparr>) s) = Ret u t"
    by (auto simp: register_in_channel_def deref_buf_def outcome_simps)
  from 1(3) obtain h where h: "mr \<noteq> 0" "s = ?w\<lparr>hw := h\<rparr>" by (rule register_mem_Ret)
  have dist: "distinct (buffer_mgr b)" "this \<notin> set (buffer_mgr b)"
    using assms(2,3) by (auto simp: wf_buffer_def blocks_ok_def)
  have "t = w\<lparr>hw := h, buffers := registered channel mr this b (buffers w)\<rparr>"
    using assign_blocks_Ret [OF 2 dist(1)] h(2) assms(3) dist(2)
    by (auto simp: set_buf_def registered_def fun_eq_iff)
  with h 1 that show thesis by blast
qed

lemma registered_shape: "map_option buf_shape (registered c mr this b m x) = map_option buf_shape (m x)"
  by (cases "m x") (auto simp: registered_def)

lemma wf_buffer_registered:
  "wf_buffer w r \<Longrightarrow> wf_buffer (w\<lparr>hw := h, buffers := registered c mr this b (buffers w)\<rparr>) r"
  by (erule wf_buffer_shape) (simp_all add: registered_shape)

lemma register_buffer_Ret:
  assumes "register_buffer S this buf w = Ret r t" "wf_buffer w buf" "buffers w buf = Some b" "channels w this = Some c"
  obtains mr h where "mr \<noteq> 0" "buf \<noteq> 0" "r" "\<not> is_sub_buffer b" "smap_find (owning_buffers c) (buffer_name b) = None"
    "t = w\<lparr>hw := h, buffers := registered this mr buf b (buffers w),
       channels := (channels w)(this \<mapsto> c\<lparr>owning_buffers := smap_insert (buffer_name b) buf (owning_buffers c)\<rparr>)\<rparr>"
proof -
  from assms obtain s v where s: "buf \<noteq> 0" "smap_find (owning_buffers c) (buffer_name b) = None"
      "register_in_channel S buf this w = Ret v s" "r"
      "t = set_chan this (c\<lparr>owning_buffers := smap_insert (buffer_name b) buf (owning_buffers c)\<rparr>) s"
    by (auto simp: register_buffer_def deref_buf_def deref_chan_def outcome_simps)
  from s(3) assms(2,3) obtain mr h where "mr \<noteq> 0" "\<not> is_sub_buffer b"
      "s = w\<lparr>hw := h, buffers := registered this mr buf b (buffers w)\<rparr>"
    by (rule register_in_channel_Ret)
  with s that show thesis by (simp add: set_chan_def)
qed

lemma deregister_Ret:
  assumes "deregister_from_channel S buf this w = Ret r t" "this \<noteq> 0" "buffers w buf = Some b" "channels w this = Some c"
    "smap_find (owning_buffers c) (buffer_name b) \<noteq> None"
  obtains h where "\<not> r" "buf_mr b \<noteq> 0"
    "t = w\<lparr>hw := h, channels := (channels w)(this \<mapsto> c\<lparr>owning_buffers := smap_erase (buffer_name b) (owning_buffers c)\<rparr>),
       buffers := (buffers w)(buf \<mapsto> b\<lparr>owned_by_channel := 0, buf_mr := 0\<rparr>)\<rparr>"
  using assms
  by (auto simp: deregister_from_channel_def deregister_mem_def real_deregister_mem_def remove_buffer_def
      buf_defs chan_defs deref_dev_def outcome_simps)

lemma chan_invD:
  assumes "chan_inv w" "channels w c = Some ch"
  shows "c \<noteq> 0" "smap_ok (owning_buffers ch)"
    "smap_find (owning_buffers ch) k = Some r \<Longrightarrow> owns w c k r"
proof -
  show "c \<noteq> 0"
  proof
    assume "c = 0"
    with assms show False by (simp add: chan_inv_def)
  qed
  show "smap_ok (owning_buffers ch)" "smap_find (owning_buffers ch) k = Some r \<Longrightarrow> owns w c k r"
    using assms by (auto simp: chan_inv_def)
qed

lemma blocks_are_subs: "wf_buffer w r \<Longrightarrow> buffers w r = Some b \<Longrightarrow> x \<in> set (buffer_mgr b) \<Longrightarrow>
    \<exists>sb. buffers w x = Some sb \<and> is_sub_buffer sb"
  by (auto simp: wf_buffer_def blocks_ok_def sub_of_def in_set_conv_nth)

lemma register_chan_inv:
  assumes inv: "chan_inv w" and wf: "wf_buffer w buf" and b: "buffers w buf = Some b" "owned_by_channel b = 0"
    and c: "channels w this = Some c" and new: "mr \<noteq> 0" "buf \<noteq> 0" "\<not> is_sub_buffer b"
    and t: "t = w\<lparr>hw := h, buffers := registered this mr buf b (buffers w),
       channels := (channels w)(this \<mapsto> c\<lparr>owning_buffers := smap_insert (buffer_name b) buf (owning_buffers c)\<rparr>)\<rparr>"
  shows "chan_inv t"
proof -
  have old: "owns t c' k r" if o: "owns w c' k r" and c': "channels w c' = Some ch" for c' k r ch
  proof -
    have "c' \<noteq> 0" by (rule chan_invD(1) [OF inv c'])
    with o b have "r \<noteq> buf" by (auto simp: owns_def)
    moreover have "r \<notin> set (buffer_mgr b)" using o blocks_are_subs [OF wf b(1), of r] by (auto simp: owns_def)
    ultimately show ?thesis using o by (simp add: owns_def t registered_def)
  qed
  have this_buf: "owns t this (buffer_name b) buf"
    using b(1) new by (simp add: owns_def t registered_def)
  show ?thesis
    using inv c old this_buf chan_invD(1,2) [OF inv c] unfolding chan_inv_def
    by (auto simp: t smap.find_insert smap.inv_insert split: if_splits)
qed


section \<open>Properties\<close>

text \<open>Property C5. \<open>register_buffer\<close> keeps the invariant of the channels for a buffer that is not registered
  yet, and makes the buffer usable: the channel finds it under its name and finds every other buffer as
  before; the buffer and each of its blocks name the channel and one memory region. A second buffer of
  the same name is refused.\<close>

theorem register_buffer_usable:
  assumes run: "register_buffer S this buf w = Ret r t" and wf: "wf_buffer w buf"
    and b: "buffers w buf = Some b" "owned_by_channel b = 0" and c: "channels w this = Some c" and inv: "chan_inv w"
  shows "r \<and> chan_inv t \<and> wf_buffer t buf \<and>
    (\<forall>k. find_buffer this k t = (if k = buffer_name b then Ret buf t
       else Ret (val_of (find_buffer this k w)) t)) \<and>
    (\<exists>mr. mr \<noteq> 0 \<and> (\<forall>x \<in> insert buf (set (buffer_mgr b)). \<exists>b'. buffers t x = Some b' \<and>
       owned_by_channel b' = this \<and> buf_mr b' = mr)) \<and>
    (\<forall>buf' b'. buf' \<noteq> 0 \<and> buffers t buf' = Some b' \<and> buffer_name b' = buffer_name b \<longrightarrow>
       (\<exists>msg. register_buffer S this buf' t = Halt (CheckFailed msg) t))"
proof -
  from run wf b(1) c obtain mr h where n: "mr \<noteq> 0" "buf \<noteq> 0" "r" "\<not> is_sub_buffer b"
    "smap_find (owning_buffers c) (buffer_name b) = None" and
    t: "t = w\<lparr>hw := h, buffers := registered this mr buf b (buffers w),
       channels := (channels w)(this \<mapsto> c\<lparr>owning_buffers := smap_insert (buffer_name b) buf (owning_buffers c)\<rparr>)\<rparr>"
    by (rule register_buffer_Ret)
  have ok: "smap_ok (owning_buffers c)" using inv c by (auto simp: chan_inv_def)
  have "wf_buffer t buf"
    using wf by (rule wf_buffer_shape) (simp_all add: t registered_shape)
  moreover have "chan_inv t"
    using inv wf b c n(1,2,4) t by (rule register_chan_inv)
  moreover have "find_buffer this k t = (if k = buffer_name b then Ret buf t
       else Ret (val_of (find_buffer this k w)) t)" for k
    using c n(5) by (simp add: find_buffer_def chan_defs t smap.find_insert [OF ok])
  moreover have "\<exists>b'. buffers t x = Some b' \<and> owned_by_channel b' = this \<and> buf_mr b' = mr"
    if "x \<in> insert buf (set (buffer_mgr b))" for x
  proof -
    from that b(1) blocks_are_subs [OF wf b(1)] obtain b' where "buffers w x = Some b'" by auto
    with that show ?thesis by (auto simp: t registered_def)
  qed
  moreover have "\<exists>msg. register_buffer S this buf' t = Halt (CheckFailed msg) t"
    if "buf' \<noteq> 0" "buffers t buf' = Some b'" "buffer_name b' = buffer_name b" for buf' b'
  proof -
    have "channels t this = Some (c\<lparr>owning_buffers := smap_insert (buffer_name b) buf (owning_buffers c)\<rparr>)"
      by (simp add: t)
    then show ?thesis
      using that n(5) smap.find_insert [OF ok] by (simp add: register_buffer_def deref_buf_def deref_chan_def)
  qed
  ultimately show ?thesis using n by blast
qed

text \<open>A channel and a buffer of two blocks that is not registered yet, for the witnesses.\<close>

definition reg_base :: "lb_state chan_world" where
  "reg_base = \<lparr>hw = lb_init, next_ref = 11, device_map = Map.empty,
     devices = [9 \<mapsto> \<lparr>reg_cqs = Map.empty, adapter_set = {}, device_name = ''mlx5_0'', ib_ctx = 1,
       device_attr = \<lparr>phys_port_cnt = 1\<rparr>, ports_attrs = [lb_port]\<rparr>], cache_line_size = 64, cycle_buffer = 4096, mem = (\<lambda>_. 0), buffers = Map.empty,
     channels = [1 \<mapsto> (RDMAChannel_init ''DataChannel'' 2)\<lparr>rdma_device := 9, ad_pd := 3, ad_qp := 4, used_cq := 5\<rparr>]\<rparr>"

definition reg_world0 :: "lb_state chan_world" where
  "reg_world0 = state_of (allocate_buffer loopback 16 2 ''data'' reg_base)"

lemma reg_world0_facts:
  obtains b c where "wf_buffer reg_world0 11" "buffers reg_world0 11 = Some b" "owned_by_channel b = 0"
    "buffer_name b = ''data''" "channels reg_world0 1 = Some c" "chan_inv reg_world0" "owning_buffers c = []"
    "buffer_mgr b = [12, 13]"
proof -
  have alloc: "os_posix_memalign loopback (os_pagesize loopback) (16 * ucast (2 :: u32)) (hw reg_base) =
      ((0, 4096), lb_init\<lparr>lb_brk := 4128\<rparr>)" "next_ref reg_base = 11"
    by (simp_all add: loopback_def reg_base_def lb_init_def)
  obtain w' b where "base_buffer_new loopback 16 2 ''data'' reg_base = Ret 11 w'" and wf: "wf_buffer w' 11" "buffers w' 11 = Some b"
    using base_buffer_new_ok [OF _ alloc(1), of "''data''"] alloc(2) by auto
  then have run: "allocate_buffer loopback 16 2 ''data'' reg_base = Ret 11 reg_world0" and w': "reg_world0 = w'"
    by (simp_all add: reg_world0_def allocate_buffer_def RDMABuffer_new_def)
  have "case buffers reg_world0 11 of None \<Rightarrow> False | Some b \<Rightarrow> owned_by_channel b = 0 \<and> buffer_name b = ''data'' \<and>
      buffer_mgr b = [12, 13]"
    by code_simp
  moreover obtain h n m bs where e: "reg_world0 = reg_base\<lparr>hw := h, next_ref := n, mem := m, buffers := bs\<rparr>"
    using allocate_buffer_only [OF run] by (auto simp: buf_only_def)
  have "channels reg_world0 = channels reg_base" by (subst e) simp
  moreover from this have "chan_inv reg_world0"
    by (simp add: chan_inv_def reg_base_def RDMAChannel_init_def smap_find_def)
  ultimately show thesis
    using that [of b] wf w' by (simp add: reg_base_def RDMAChannel_init_def)
qed

definition reg_world1 :: "lb_state chan_world" where
  "reg_world1 = state_of (register_buffer loopback 1 11 reg_world0)"

lemma reg_world1_run: "register_buffer loopback 1 11 reg_world0 = Ret True reg_world1"
proof -
  have "(case register_buffer loopback 1 11 reg_world0 of Ret r t \<Rightarrow> r | Halt _ _ \<Rightarrow> False)" by code_simp
  then show ?thesis by (auto simp: reg_world1_def split: outcome.splits)
qed

theorem register_buffer_usable_witness:
  "chan_inv reg_world1 \<and> find_buffer 1 ''data'' reg_world1 = Ret 11 reg_world1"
proof -
  obtain b c where f: "wf_buffer reg_world0 11" "buffers reg_world0 11 = Some b" "owned_by_channel b = 0"
    "buffer_name b = ''data''" "channels reg_world0 1 = Some c" "chan_inv reg_world0" "owning_buffers c = []"
    "buffer_mgr b = [12, 13]"
    by (rule reg_world0_facts)
  from register_buffer_usable [OF reg_world1_run f(1-3,5,6)] f(4) show ?thesis by auto
qed

lemma deregister_chan_inv:
  assumes inv: "chan_inv w" and c: "channels w this = Some c" and own: "smap_find (owning_buffers c) k = Some buf"
    and b: "buffers w buf = Some b"
    and t: "t = w\<lparr>hw := h, channels := (channels w)(this \<mapsto> c\<lparr>owning_buffers := smap_erase k (owning_buffers c)\<rparr>),
       buffers := (buffers w)(buf \<mapsto> b\<lparr>owned_by_channel := 0, buf_mr := 0\<rparr>)\<rparr>"
  shows "chan_inv t"
proof -
  have o: "owns w this k buf" by (rule chan_invD(3) [OF inv c own])
  have old: "owns t c' k' r" if "owns w c' k' r" "c' \<noteq> this \<or> k' \<noteq> k" for c' k' r
  proof -
    have "r \<noteq> buf" using that o by (auto simp: owns_def)
    with that(1) show ?thesis by (simp add: owns_def t)
  qed
  note this_ok = chan_invD(1,2) [OF inv c]
  show ?thesis
    using inv c old this_ok unfolding chan_inv_def
    by (auto simp: t smap.find_erase smap.inv_erase split: if_splits)
qed

text \<open>Property C19. Deregistering a registered buffer takes it off the channel and clears the base buffer, and
  the other buffers of the channel stay. The blocks are not cleared: they keep the channel and the
  region that no longer exists, so their \<open>security_check\<close> still passes. The result is false although
  everything succeeded.\<close>

theorem deregister_leaves_blocks:
  assumes run: "deregister_from_channel S buf this w = Ret r t" and inv: "chan_inv w" and c: "channels w this = Some c"
    and own: "smap_find (owning_buffers c) k = Some buf" and wf: "wf_buffer w buf" and b: "buffers w buf = Some b"
    and x: "x \<in> set (buffer_mgr b)"
  shows "\<not> r \<and> chan_inv t \<and> find_buffer this k t = Ret 0 t \<and>
    (\<forall>k'. k' \<noteq> k \<longrightarrow> find_buffer this k' t = Ret (val_of (find_buffer this k' w)) t) \<and>
    (\<exists>b'. buffers t buf = Some b' \<and> owned_by_channel b' = 0 \<and> buf_mr b' = 0) \<and>
    buffers t x = buffers w x \<and> (security_check x w = Ret True w \<longrightarrow> security_check x t = Ret True t)"
proof -
  have o: "buffer_name b = k" "owned_by_channel b = this"
    using chan_invD(3) [OF inv c own] b by (auto simp: owns_def)
  note ok = chan_invD(2) [OF inv c]
  obtain h where t: "\<not> r" "t = w\<lparr>hw := h,
       channels := (channels w)(this \<mapsto> c\<lparr>owning_buffers := smap_erase k (owning_buffers c)\<rparr>),
       buffers := (buffers w)(buf \<mapsto> b\<lparr>owned_by_channel := 0, buf_mr := 0\<rparr>)\<rparr>"
    using deregister_Ret [OF run chan_invD(1) [OF inv c] b c] own o(1) by auto
  have "x \<noteq> buf" using blocks_are_subs [OF wf b x] b wf by (auto simp: wf_buffer_def)
  moreover have "chan_inv t" using inv c own b t(2) by (rule deregister_chan_inv)
  moreover have "find_buffer this k' t = (if k' = k then Ret 0 t else Ret (val_of (find_buffer this k' w)) t)" for k'
    using c by (simp add: t find_buffer_def chan_defs smap.find_erase [OF ok])
  ultimately show ?thesis
    using t by (auto simp: security_check_def buf_defs outcome_simps)
qed

lemma reg_world1_facts:
  obtains b c r t where "chan_inv reg_world1" "channels reg_world1 1 = Some c" "owning_buffers c = [(''data'', 11)]"
    "wf_buffer reg_world1 11" "buffers reg_world1 11 = Some b" "buffer_mgr b = [12, 13]"
    "deregister_from_channel loopback 11 1 reg_world1 = Ret r t" "owned_by_channel b = 1"
proof -
  obtain b0 c0 where f: "wf_buffer reg_world0 11" "buffers reg_world0 11 = Some b0" "owned_by_channel b0 = 0"
    "buffer_name b0 = ''data''" "channels reg_world0 1 = Some c0" "chan_inv reg_world0" "owning_buffers c0 = []"
    "buffer_mgr b0 = [12, 13]"
    by (rule reg_world0_facts)
  obtain mr h where "mr \<noteq> 0" and w1: "reg_world1 = reg_world0\<lparr>hw := h, buffers := registered 1 mr 11 b0 (buffers reg_world0),
       channels := (channels reg_world0)(1 \<mapsto> c0\<lparr>owning_buffers := smap_insert (buffer_name b0) 11 (owning_buffers c0)\<rparr>)\<rparr>"
    and n: "\<not> is_sub_buffer b0"
    using register_buffer_Ret [OF reg_world1_run f(1,2,5)] by metis
  have inv: "chan_inv reg_world1"
    using f(6,1,2,3,5) \<open>mr \<noteq> 0\<close> _ n w1 by (rule register_chan_inv) simp
  have wf: "wf_buffer reg_world1 11"
    using f(1) by (rule wf_buffer_shape) (simp_all add: w1 registered_shape)
  have b: "buffers reg_world1 11 = Some (b0\<lparr>owned_by_channel := 1, buf_mr := mr\<rparr>)"
    using f(2) by (simp add: w1 registered_def)
  have "returns (deregister_from_channel loopback 11 1 reg_world1)" by code_simp
  then obtain r t where run: "deregister_from_channel loopback 11 1 reg_world1 = Ret r t" by (rule returnsE)
  have c: "channels reg_world1 1 = Some (c0\<lparr>owning_buffers := [(''data'', 11)]\<rparr>)"
    using f(4,7) by (simp add: w1)
  show thesis by (rule that [OF inv c _ wf b _ run]) (use f(8) in simp_all)
qed

theorem deregister_leaves_blocks_witness:
  "\<exists>t. deregister_from_channel loopback 11 1 reg_world1 = Ret False t \<and>
    find_buffer 1 ''data'' t = Ret 0 t \<and> security_check 12 t = Ret True t"
proof -
  obtain b c r t where f: "chan_inv reg_world1" "channels reg_world1 1 = Some c" "owning_buffers c = [(''data'', 11)]"
    "wf_buffer reg_world1 11" "buffers reg_world1 11 = Some b" "buffer_mgr b = [12, 13]"
    and run: "deregister_from_channel loopback 11 1 reg_world1 = Ret r t"
    by (rule reg_world1_facts)
  have own: "smap_find (owning_buffers c) ''data'' = Some 11" using f(3) by (simp add: smap_find_def)
  have "val_of (security_check 12 reg_world1)" "returns (security_check 12 reg_world1)" by code_simp+
  then have sec: "security_check 12 reg_world1 = Ret True reg_world1"
    by (auto simp: security_check_def buf_defs outcome_simps elim: returnsE)
  have "12 \<in> set (buffer_mgr b)" using f(6) by simp
  from deregister_leaves_blocks [OF run f(1,2) own f(4,5) this] sec run show ?thesis by auto
qed

text \<open>Property C20. The destructor of a channel that still owns a registered buffer has no defined behaviour:
  deregistering the buffer erases the map entry the loop's iterator stands on. Only a channel without
  buffers can be destroyed.\<close>

theorem channel_destructor_invalidates_iterator:
  assumes inv: "chan_inv w" and c: "channels w this = Some c"
  shows "(owning_buffers c = [] \<longrightarrow>
      RDMAChannel_delete S this w = Ret () (w\<lparr>channels := (channels w)(this := None)\<rparr>)) \<and>
    (\<forall>k buf es r s. owning_buffers c = (k, buf) # es \<and> deregister_from_channel S buf this w = Ret r s \<longrightarrow>
      (\<exists>t. RDMAChannel_delete S this w = Halt (Undefined ''iterator to an erased element'') t))"
proof (intro conjI impI allI)
  assume "owning_buffers c = []"
  with c show "RDMAChannel_delete S this w = Ret () (w\<lparr>channels := (channels w)(this := None)\<rparr>)"
    by (simp add: RDMAChannel_delete_def chan_defs)
next
  fix k buf es r s
  assume a: "owning_buffers c = (k, buf) # es \<and> deregister_from_channel S buf this w = Ret r s"
  then have own: "smap_find (owning_buffers c) k = Some buf" by (simp add: smap_find_def)
  from chan_invD(3) [OF inv c own] obtain b where b: "buffers w buf = Some b" "buffer_name b = k"
    by (auto simp: owns_def)
  obtain h where "s = w\<lparr>hw := h, channels := (channels w)(this \<mapsto> c\<lparr>owning_buffers := smap_erase k (owning_buffers c)\<rparr>),
       buffers := (buffers w)(buf \<mapsto> b\<lparr>owned_by_channel := 0, buf_mr := 0\<rparr>)\<rparr>"
    using deregister_Ret [of S buf this w r s b c] a chan_invD(1) [OF inv c] b c own by auto
  then show "\<exists>t. RDMAChannel_delete S this w = Halt (Undefined ''iterator to an erased element'') t"
    using a c by (simp add: RDMAChannel_delete_def deref_chan_def smap_find_erase)
qed

theorem channel_destructor_invalidates_iterator_witness:
  "\<exists>t. RDMAChannel_delete loopback 1 reg_world1 = Halt (Undefined ''iterator to an erased element'') t"
proof -
  obtain b c r t where f: "chan_inv reg_world1" "channels reg_world1 1 = Some c" "owning_buffers c = [(''data'', 11)]"
    and run: "deregister_from_channel loopback 11 1 reg_world1 = Ret r t"
    by (rule reg_world1_facts)
  from channel_destructor_invalidates_iterator [OF f(1,2), of loopback] run f(3) show ?thesis by auto
qed

text \<open>The peer buffers of a channel are entered once: the first descriptor for a key stays, a later
  one is refused, and \<open>find_peer_buffer\<close> returns what was entered.\<close>

theorem peer_buffer_first_wins:
  assumes "insert_peer_buffer this key d w = Ret r t" "channels w this = Some c"
  shows "r = (peer_buffer_mgr c key = None) \<and>
    find_peer_buffer this k t =
      Ret (if k = key \<and> peer_buffer_mgr c key = None then Some d else peer_buffer_mgr c k) t"
  using assms
  by (cases "peer_buffer_mgr c key")
    (auto simp: insert_peer_buffer_def find_peer_buffer_def chan_defs umap_find_def umap_insert_def)

theorem peer_buffer_first_wins_witness:
  "\<exists>r t d. insert_peer_buffer 1 ''rw_sink_buffer_for_test'' d reg_world0 = Ret r t \<and> r \<and>
     find_peer_buffer 1 ''rw_sink_buffer_for_test'' t = Ret (Some d) t"
proof -
  let ?d = "\<lparr>cd_buffer_addr = 4096, cd_buffer_length = 10, cd_rkey = 3, cd_fd = 0\<rparr>"
  have "returns (insert_peer_buffer 1 ''rw_sink_buffer_for_test'' ?d reg_world0)" by code_simp
  then obtain r t where run: "insert_peer_buffer 1 ''rw_sink_buffer_for_test'' ?d reg_world0 = Ret r t" by (rule returnsE)
  have "case channels reg_world0 1 of None \<Rightarrow> False | Some c \<Rightarrow> peer_buffer_mgr c ''rw_sink_buffer_for_test'' = None"
    by code_simp
  then obtain c where "channels reg_world0 1 = Some c" "peer_buffer_mgr c ''rw_sink_buffer_for_test'' = None"
    by (auto split: option.splits)
  with peer_buffer_first_wins [OF run this(1)] run show ?thesis
    by (intro exI [of _ r] exI [of _ t] exI [of _ ?d]) auto
qed

lemma retire_blocks_Ret:
  assumes "forO retire_block xs w = Ret u t" "distinct xs"
  shows "t = w\<lparr>buffers := (\<lambda>x. if x \<in> set xs
      then map_option (\<lambda>b. b\<lparr>owned_by_channel := 0, data_ptr := 0, buf_mr := 0, is_initialized := False\<rparr>) (buffers w x)
      else buffers w x)\<rparr>"
  using assms
proof (induction xs arbitrary: w)
  case Nil
  then show ?case by simp
next
  case (Cons x xs)
  from Cons.prems obtain s v where s: "retire_block x w = Ret v s" and rest: "forO retire_block xs s = Ret u t"
    by (auto simp: outcome_simps)
  from s obtain b where b: "buffers w x = Some b"
      "s = set_buf x (b\<lparr>owned_by_channel := 0, data_ptr := 0, buf_mr := 0, is_initialized := False\<rparr>) w"
    by (auto simp: retire_block_def deref_buf_def outcome_simps)
  from Cons.IH [OF rest] Cons.prems(2) b show ?case by (auto simp: set_buf_def fun_eq_iff)
qed



end
