(* ===== verification/Command_Line.thy ===== *)
theory Command_Line
  imports Prelude
begin

text \<open>
  \<open>getopt_long\<close> of the GNU C library, as \<open>parse_args\<close> of \<open>include/config.h\<close> uses it: the table of long options and the
  string of short options are those of the source. The scanner's state is what is left of the present
  argument (\<open>nextchar\<close>) and the arguments from \<open>optind\<close> on. Arguments that are no options are passed
  over; the library moves them behind the options, in front of \<open>optind\<close> or never looked at again, so
  they need no place in the state. Messages on the standard error stream are not modelled.
\<close>

section \<open>The option tables\<close>

datatype opt = Opt char | OptCode nat

datatype has_arg = no_argument | required_argument

definition longopts :: "(string \<times> has_arg \<times> opt) list" where
  "longopts = [(''help'', no_argument, Opt CHR ''h''), (''event-channel'', no_argument, Opt CHR ''e''),
     (''port'', required_argument, Opt CHR ''p''), (''ib-dev'', required_argument, Opt CHR ''d''),
     (''ib-port'', required_argument, Opt CHR ''i''), (''gid-idx'', required_argument, Opt CHR ''g''),
     (''traffic-class'', required_argument, Opt CHR ''t''), (''server'', required_argument, Opt CHR ''s''),
     (''client'', required_argument, Opt CHR ''c''), (''cluster'', required_argument, Opt CHR ''u''),
     (''master'', required_argument, OptCode 264), (''msg-size'', required_argument, OptCode 257),
     (''num'', required_argument, OptCode 258), (''single-recv'', no_argument, OptCode 259),
     (''service-type'', required_argument, OptCode 260), (''topo'', required_argument, OptCode 261),
     (''tree-width'', required_argument, OptCode 262), (''role'', required_argument, OptCode 263)]"

text \<open>The letters of \<open>"s:h:p:d:i:g:t:c:u:m:e:"\<close>; each is followed by a colon, so each takes an argument.\<close>

definition shortopts :: string where
  "shortopts = ''shpdigtcume''"

section \<open>The scanner\<close>

text \<open>A result of one call: an option with its argument (empty if it has none), the rest of the present
  argument, and the arguments from \<open>optind\<close> on; or -1. A letter or name that is unknown, ambiguous, or lacks its
  argument gives \<open>Opt CHR ''?''\<close>.\<close>

datatype getopt_result = Done | Found opt string string "string list"

definition is_option :: "string \<Rightarrow> bool" where
  "is_option a = (case a of c # _ # _ \<Rightarrow> c = CHR ''-'' | _ \<Rightarrow> False)"

definition short_option :: "string \<Rightarrow> string list \<Rightarrow> getopt_result" where
  "short_option nextchar rest = (case nextchar of
     [] \<Rightarrow> Done
   | c # cs \<Rightarrow>
       if c \<notin> set shortopts then Found (Opt CHR ''?'') '''' cs rest
       else if cs \<noteq> [] then Found (Opt c) cs '''' rest
       else case rest of [] \<Rightarrow> Found (Opt CHR ''?'') '''' '''' [] | a # as \<Rightarrow> Found (Opt c) a '''' as)"

text \<open>The entry for a name: an exact match, or the only entry the name is a beginning of.\<close>

definition find_long :: "string \<Rightarrow> (has_arg \<times> opt) option" where
  "find_long name = (case map_of longopts name of
     Some e \<Rightarrow> Some e
   | None \<Rightarrow> (case filter (\<lambda>e. take (length name) (fst e) = name) longopts of [e] \<Rightarrow> Some (snd e) | _ \<Rightarrow> None))"

text \<open>\<open>s\<close> is the argument after its two dashes.\<close>

definition long_option :: "string \<Rightarrow> string list \<Rightarrow> getopt_result" where
  "long_option s rest =
     (let name = takeWhile (\<lambda>c. c \<noteq> CHR ''='') s; arg = dropWhile (\<lambda>c. c \<noteq> CHR ''='') s in
      case find_long name of
        None \<Rightarrow> Found (Opt CHR ''?'') '''' '''' rest
      | Some (no_argument, code) \<Rightarrow> if arg \<noteq> [] then Found (Opt CHR ''?'') '''' '''' rest else Found code '''' '''' rest
      | Some (required_argument, code) \<Rightarrow>
          if arg \<noteq> [] then Found code (tl arg) '''' rest
          else case rest of [] \<Rightarrow> Found (Opt CHR ''?'') '''' '''' [] | a # as \<Rightarrow> Found code a '''' as)"

definition getopt_long :: "string \<Rightarrow> string list \<Rightarrow> getopt_result" where
  "getopt_long nextchar rest =
     (if nextchar \<noteq> [] then short_option nextchar rest
      else case dropWhile (\<lambda>a. \<not> is_option a) rest of
          [] \<Rightarrow> Done
        | a # as \<Rightarrow>
            if a = ''--'' then Done
            else if take 2 a = ''--'' then long_option (drop 2 a) as
            else short_option (tl a) as)"

text \<open>The \<open>-u\<close> loop: arguments are read until one starts with a dash.\<close>

definition cluster_args :: "string list \<Rightarrow> string list" where
  "cluster_args rest = takeWhile (\<lambda>a. case a of [] \<Rightarrow> True | c # _ \<Rightarrow> c \<noteq> CHR ''-'') rest"

section \<open>Every call makes progress\<close>

definition scan_size :: "string \<Rightarrow> string list \<Rightarrow> nat" where
  "scan_size nextchar rest = length nextchar + sum_list (map (\<lambda>a. Suc (length a)) rest)"

lemma scan_size_dropWhile: "scan_size s (dropWhile P as) \<le> scan_size s as"
  by (induction as) (auto simp: scan_size_def)

lemma scan_size_drop: "scan_size s (drop n as) \<le> scan_size s as"
  by (induction as arbitrary: n) (auto simp: scan_size_def drop_Cons split: nat.splits intro: le_SucI trans_le_add2)

lemma short_option_progress: "short_option s as = Found code arg s' as' \<Longrightarrow> scan_size s' as' < scan_size s as"
  by (auto simp: short_option_def scan_size_def split: list.splits if_splits)

lemma long_option_progress: "long_option s as = Found code arg s' as' \<Longrightarrow> scan_size s' as' \<le> scan_size [] as"
  by (auto simp: long_option_def scan_size_def Let_def split: list.splits if_splits option.splits has_arg.splits)

lemma getopt_long_progress:
  assumes "getopt_long s as = Found code arg s' as'"
  shows "scan_size s' as' < scan_size s as"
proof (cases "s = []")
  case True
  with assms obtain b bs where b: "dropWhile (\<lambda>a. \<not> is_option a) as = b # bs" "b \<noteq> ''--''"
    and run: "(if take 2 b = ''--'' then long_option (drop 2 b) bs else short_option (tl b) bs) = Found code arg s' as'"
    by (auto simp: getopt_long_def split: list.splits if_splits)
  have "scan_size s' as' < scan_size [] (b # bs)"
    using run by (auto simp: scan_size_def split: if_splits dest!: long_option_progress short_option_progress)
  also have "\<dots> \<le> scan_size s as" using scan_size_dropWhile [of "[]" _ as] b(1) True by metis
  finally show ?thesis .
next
  case False
  with assms show ?thesis by (auto simp: getopt_long_def dest: short_option_progress)
qed

text \<open>The options of a command line, in the order in which the loop of \<open>parse_args\<close> sees them, each with its argument and the
  arguments that follow. After \<open>-u\<close> the loop moves \<open>optind\<close> past the arguments it has read.\<close>

function getopt_events :: "string \<Rightarrow> string list \<Rightarrow> (opt \<times> string \<times> string list) list" where
  "getopt_events nextchar rest = (case getopt_long nextchar rest of
     Done \<Rightarrow> []
   | Found code optarg nextchar' rest' \<Rightarrow>
       (code, optarg, rest') #
       getopt_events nextchar' (if code = Opt CHR ''u'' then drop (length (cluster_args rest')) rest' else rest'))"
  by pat_completeness auto
termination
proof (relation "measure (\<lambda>(s, as). scan_size s as)")
  fix s as code arg s' as'
  assume "getopt_long s as = Found code arg s' as'"
  then have "scan_size s' as' < scan_size s as" by (rule getopt_long_progress)
  with scan_size_drop show "((s', if code = Opt CHR ''u'' then drop (length (cluster_args as')) as' else as'), s, as)
      \<in> measure (\<lambda>(s, as). scan_size s as)"
    by (auto intro: le_less_trans)
qed simp

declare getopt_events.simps [simp del]

section \<open>Writing and reading a command line\<close>

text \<open>The ways to write an option: a letter with its argument apart or joined, a name with its argument
  apart or after an equals sign, a name that takes none, and \<open>-u\<close> with several nodes.\<close>

datatype written = Short char string | Joined char string | Long string string | Long_eq string string | Flag string
  | Cluster string "string list"

primrec render :: "written \<Rightarrow> string list" where
  "render (Short c a) = [[CHR ''-'', c], a]"
| "render (Joined c a) = [CHR ''-'' # c # a]"
| "render (Long name a) = [''--'' @ name, a]"
| "render (Long_eq name a) = [''--'' @ name @ ''='' @ a]"
| "render (Flag name) = [''--'' @ name]"
| "render (Cluster first nodes) = ''-u'' # first # nodes"

definition render_all :: "written list \<Rightarrow> string list" where
  "render_all os = concat (map render os)"

definition long_code :: "has_arg \<Rightarrow> string \<Rightarrow> opt option" where
  "long_code h name = (case map_of longopts name of Some (h', code) \<Rightarrow> if h = h' then Some code else None | None \<Rightarrow> None)"

text \<open>The option, its argument, and the arguments the \<open>-u\<close> loop reads.\<close>

fun meaning :: "written \<Rightarrow> (opt \<times> string \<times> string list) option" where
  "meaning (Short c a) = (if c \<in> set shortopts then Some (Opt c, a, []) else None)"
| "meaning (Joined c a) = (if c \<in> set shortopts \<and> a \<noteq> [] then Some (Opt c, a, []) else None)"
| "meaning (Long name a) = map_option (\<lambda>code. (code, a, [])) (long_code required_argument name)"
| "meaning (Long_eq name a) = map_option (\<lambda>code. (code, a, [])) (long_code required_argument name)"
| "meaning (Flag name) = map_option (\<lambda>code. (code, '''', [])) (long_code no_argument name)"
| "meaning (Cluster first nodes) = (if cluster_args nodes = nodes then Some (Opt CHR ''u'', first, nodes) else None)"

fun meanings :: "written list \<Rightarrow> (opt \<times> string \<times> string list) list option" where
  "meanings [] = Some []"
| "meanings (w # ws) = (case (meaning w, meanings ws) of
     (Some (code, a, nodes), Some evs) \<Rightarrow> Some ((code, a, nodes @ render_all ws) # evs) | _ \<Rightarrow> None)"

lemma long_code_name:
  assumes "long_code h name = Some code"
  shows "name \<noteq> []" "CHR ''='' \<notin> set name" "find_long name = Some (h, code)"
proof -
  have m: "map_of longopts name = Some (h, code)"
    using assms by (auto simp: long_code_def split: option.splits if_splits)
  then have "name \<in> set (map fst longopts)" by (metis map_of_SomeD image_eqI list.set_map fst_conv)
  then show "name \<noteq> []" "CHR ''='' \<notin> set name" by (auto simp: longopts_def)
  from m show "find_long name = Some (h, code)" by (simp add: find_long_def)
qed

lemma split_name:
  assumes "CHR ''='' \<notin> set name"
  shows "takeWhile (\<lambda>c. c \<noteq> CHR ''='') (name @ CHR ''='' # a) = name" "takeWhile (\<lambda>c. c \<noteq> CHR ''='') name = name"
    "dropWhile (\<lambda>c. c \<noteq> CHR ''='') (name @ CHR ''='' # a) = CHR ''='' # a" "dropWhile (\<lambda>c. c \<noteq> CHR ''='') name = []"
  using assms by (induction name) auto

lemma long_option_written:
  assumes "long_code h name = Some code"
  shows "h = required_argument \<Longrightarrow> long_option (name @ CHR ''='' # a) rest = Found code a '''' rest"
    and "h = required_argument \<Longrightarrow> long_option name (a # rest) = Found code a '''' rest"
    and "h = no_argument \<Longrightarrow> long_option name rest = Found code '''' '''' rest"
  by (simp_all add: long_option_def Let_def split_name [OF long_code_name(2) [OF assms]] long_code_name(3) [OF assms])

text \<open>One call reads what was written, whatever follows.\<close>

lemma getopt_long_dashes: "s \<noteq> [] \<Longrightarrow> getopt_long '''' ((''--'' @ s) # rest) = long_option s rest"
  by (cases s) (simp_all add: getopt_long_def is_option_def)

lemma getopt_long_dash: "c \<in> set shortopts \<Longrightarrow> getopt_long '''' ((CHR ''-'' # c # cs) # rest) = short_option (c # cs) rest"
  by (auto simp: getopt_long_def is_option_def shortopts_def)

lemma getopt_long_written:
  assumes "meaning w = Some (code, a, nodes)"
  shows "getopt_long '''' (render w @ rest) = Found code a '''' (nodes @ rest)"
proof (cases w)
  case (Short c b)
  with assms show ?thesis by (auto simp: getopt_long_dash short_option_def split: if_splits)
next
  case (Joined c b)
  with assms show ?thesis by (auto simp: getopt_long_dash short_option_def split: if_splits)
next
  case (Long name b)
  with assms show ?thesis
    using long_code_name(1) [of required_argument name] getopt_long_dashes [of name] by (auto simp: long_option_written(2))
next
  case (Long_eq name b)
  with assms show ?thesis
    using getopt_long_dashes [of "name @ ''='' @ b"] by (auto simp: long_option_written(1))
next
  case (Flag name)
  with assms show ?thesis
    using long_code_name(1) [of no_argument name] getopt_long_dashes [of name] by (auto simp: long_option_written(3))
next
  case (Cluster first ns)
  with assms have "code = Opt CHR ''u''" "a = first" "nodes = ns" by (auto split: if_splits)
  with Cluster getopt_long_dash [of "CHR ''u''" "[]" "first # ns @ rest"] show ?thesis
    by (simp add: short_option_def shortopts_def)
qed

text \<open>What is written starts with a dash, so the \<open>-u\<close> loop stops in front of it.\<close>

lemma render_dash: "\<exists>s as. render w = (CHR ''-'' # s) # as"
  by (cases w) auto

lemma cluster_args_written:
  assumes "cluster_args nodes = nodes" shows "cluster_args (nodes @ render_all ws) = nodes"
proof (cases ws)
  case Nil
  with assms show ?thesis by (simp add: render_all_def)
next
  case (Cons w ws')
  with render_dash [of w] obtain s as where "render_all ws = (CHR ''-'' # s) # as" by (auto simp: render_all_def)
  moreover have "\<forall>a \<in> set nodes. case a of [] \<Rightarrow> True | c # _ \<Rightarrow> c \<noteq> CHR ''-''"
    using assms unfolding cluster_args_def by (metis set_takeWhileD)
  ultimately show ?thesis by (simp add: cluster_args_def takeWhile_append2)
qed

lemma meaning_nodes: "meaning w = Some (code, a, nodes) \<Longrightarrow> cluster_args nodes = nodes \<and> (code \<noteq> Opt CHR ''u'' \<longrightarrow> nodes = [])"
  by (cases w) (auto simp: cluster_args_def split: if_splits)

lemma getopt_events_written:
  assumes "meanings ws = Some evs"
  shows "getopt_events '''' (render_all ws) = evs"
  using assms
proof (induction ws arbitrary: evs)
  case Nil
  then show ?case by (simp add: render_all_def getopt_long_def getopt_events.simps)
next
  case (Cons w ws)
  then obtain code a nodes evs' where w: "meaning w = Some (code, a, nodes)" and ws: "meanings ws = Some evs'"
    and evs: "evs = (code, a, nodes @ render_all ws) # evs'"
    by (auto split: option.splits prod.splits)
  have "getopt_long '''' (render_all (w # ws)) = Found code a '''' (nodes @ render_all ws)"
    using getopt_long_written [OF w, of "render_all ws"] by (simp add: render_all_def)
  moreover have "(if code = Opt CHR ''u'' then drop (length (cluster_args (nodes @ render_all ws))) (nodes @ render_all ws)
      else nodes @ render_all ws) = render_all ws"
    using meaning_nodes [OF w] cluster_args_written [of nodes ws] by simp
  ultimately show ?case using Cons.IH [OF ws] evs by (subst getopt_events.simps) simp
qed

lemma getopt_events_cluster:
  "cluster_args rest = rest \<Longrightarrow> getopt_events '''' (''-u'' # first # rest) = [(Opt CHR ''u'', first, rest)]"
  using getopt_events_written [of "[Cluster first rest]"] by (simp add: render_all_def)



end
