(* ===== verification/Configuration.thy ===== *)
theory Configuration
  imports Command_Line "HOL-Library.Multiset"
begin

text \<open>
  \<open>include/rdma_config.h\<close>, \<open>include/config.h\<close>: the configuration every component receives, and the
  command line that fills it. The option loop runs over the results of \<open>getopt_long\<close> (theory \<open>Command_Line\<close>).
  \<open>ip\<close> is the address \<open>NetTool::get_ip\<close> finds.
\<close>

section \<open>Data\<close>

record Config =
  dev_name :: string
  server_name :: string
  serve_as_client :: bool
  tcp_port :: u32
  ib_port :: int
  gid_idx :: int
  traffic_class :: u32
  use_event :: bool
  DATA_MSG_SIZE :: int
  CTRL_MSG_SIZE :: int
  MSG_BLOCK_NUM :: int
  local_ip :: string
  cluster :: "string list"
  num_senders :: int
  single_recv :: bool
  service_type :: int
  tree_width :: int
  sub_groups :: "string list list"
  role :: string
  master_ip :: string
  session_id :: string

datatype AllReduceType = UNKNOWN_ALLREDUCE | SERVER_CLIENT | FULL_MESH_ALLREDUCE | RING_ALLREDUCE
  | TREE_ALLREDUCE | DOUBLE_BINARY_TREE_ALLREDUCE

record Derived_Config = Config +
  all_reduce :: AllReduceType

definition default_Config :: Derived_Config where
  "default_Config = \<lparr>dev_name = ''mlx5_0'', server_name = '''', serve_as_client = False, tcp_port = 2020,
     ib_port = 1, gid_idx = 3, traffic_class = 0, use_event = False, DATA_MSG_SIZE = 1000, CTRL_MSG_SIZE = 4,
     MSG_BLOCK_NUM = 2, local_ip = '''', cluster = [], num_senders = 0, single_recv = False, service_type = 0,
     tree_width = 0, sub_groups = [], role = '''', master_ip = '''', session_id = '''',
     all_reduce = UNKNOWN_ALLREDUCE\<rparr>"

section \<open>Operations\<close>

definition get_local_ip :: "string \<Rightarrow> Derived_Config \<Rightarrow> string \<times> Derived_Config" where
  "get_local_ip ip c = (let c = (if local_ip c = '''' then c\<lparr>local_ip := ip\<rparr> else c) in (local_ip c, c))"

definition set_server_name :: "string \<Rightarrow> string \<Rightarrow> Derived_Config \<Rightarrow> Derived_Config" where
  "set_server_name ip name c =
     (case get_local_ip ip c of (my_ip, c) \<Rightarrow>
       if my_ip = name then c\<lparr>server_name := name, serve_as_client := False\<rparr>
       else c\<lparr>serve_as_client := True, server_name := name\<rparr>)"

definition add_to_cluster :: "string \<Rightarrow> string \<Rightarrow> Derived_Config \<Rightarrow> Derived_Config" where
  "add_to_cluster ip s c =
     (case get_local_ip ip c of (my_ip, c) \<Rightarrow>
       let c = (if my_ip \<noteq> s then c\<lparr>cluster := cluster c @ [s]\<rparr> else c)
       in c\<lparr>cluster := sort (cluster c)\<rparr>)"

definition conflict_check :: "string \<Rightarrow> Derived_Config \<Rightarrow> (unit, Derived_Config) outcome" where
  "conflict_check ip c =
     (let c = (if num_senders c = 0 \<and> cluster c \<noteq> [] then c\<lparr>num_senders := int (length (cluster c))\<rparr> else c);
          ok1 = (\<not> (single_recv c \<and> num_senders c = 0));
          ok2 = (ok1 \<and> \<not> (all_reduce c = TREE_ALLREDUCE \<and> tree_width c \<le> 0)) in
      bindO (if ok2 \<and> all_reduce c = SERVER_CLIENT
        then bindO (fatal_if (server_name c = '''' \<and> serve_as_client c) ''You mush speficy master node'' c) (\<lambda>_ c.
             case get_local_ip ip c of (this_ip, c) \<Rightarrow> Ret () (c\<lparr>serve_as_client := (this_ip \<noteq> server_name c)\<rparr>))
        else Ret () c) (\<lambda>_ c.
      if ok2 then Ret () c else Halt (Exited (- 1)) c))"

text \<open>\<open>strtoul(s, NULL, 0)\<close>: white space, sign, a base prefix, digits; \<open>ULONG_MAX\<close> on overflow. The result
  is converted to the width of the field.\<close>

definition hex_digit :: "char \<Rightarrow> int option" where
  "hex_digit c = (let n = (of_char c :: int) in
     if 48 \<le> n \<and> n \<le> 57 then Some (n - 48) else if 65 \<le> n \<and> n \<le> 70 then Some (n - 55)
     else if 97 \<le> n \<and> n \<le> 102 then Some (n - 87) else None)"

fun base_value :: "int \<Rightarrow> int \<Rightarrow> string \<Rightarrow> int" where
  "base_value base v [] = v"
| "base_value base v (c # cs) = (case hex_digit c of
     Some d \<Rightarrow> if d < base then base_value base (base * v + d) cs else v | None \<Rightarrow> v)"

definition unsigned_value :: "string \<Rightarrow> int" where
  "unsigned_value s = (case s of
     c0 # x # c # cs \<Rightarrow>
       if c0 = CHR ''0'' \<and> (x = CHR ''x'' \<or> x = CHR ''X'') \<and> hex_digit c \<noteq> None then base_value 16 0 (c # cs)
       else if c0 = CHR ''0'' then base_value 8 0 s else base_value 10 0 s
   | c0 # _ \<Rightarrow> if c0 = CHR ''0'' then base_value 8 0 s else base_value 10 0 s
   | [] \<Rightarrow> 0)"

definition strtoul :: "string \<Rightarrow> u64" where
  "strtoul s = (case dropWhile is_space s of
     [] \<Rightarrow> 0
   | c # cs \<Rightarrow>
       let neg = (c = CHR ''-'');
           v = unsigned_value (if c = CHR ''-'' \<or> c = CHR ''+'' then cs else c # cs)
       in if v \<ge> 18446744073709551616 then - 1 else if neg then - of_int v else of_int v)"

text \<open>Assignment of an \<open>unsigned long\<close> to an \<open>int\<close> keeps the low 32 bits.\<close>

definition ulong_int :: "u64 \<Rightarrow> int" where
  "ulong_int v = sint (ucast v :: u32)"

definition topology :: "string \<Rightarrow> AllReduceType \<Rightarrow> AllReduceType" where
  "topology t old =
     (if t = ''full-mesh'' then FULL_MESH_ALLREDUCE
      else if t = ''double-binary-tree'' \<or> t = ''dbt'' then DOUBLE_BINARY_TREE_ALLREDUCE
      else if t = ''ring'' then RING_ALLREDUCE
      else if t = ''tree'' then TREE_ALLREDUCE
      else if t = ''server-client'' then SERVER_CLIENT
      else old)"

text \<open>One turn of the option loop.\<close>

definition parse_opt :: "string \<Rightarrow> opt \<times> string \<times> string list \<Rightarrow> Derived_Config \<Rightarrow> (unit, Derived_Config) outcome"
where
  "parse_opt ip ev c = (case ev of (code, optarg, rest) \<Rightarrow>
     if code = Opt CHR ''h'' then Halt (Exited 0) c
     else if code = Opt CHR ''u'' then
       Ret () (fold (add_to_cluster ip) (cluster_args rest) (add_to_cluster ip optarg c))
     else if code = Opt CHR ''p'' then Ret () (c\<lparr>tcp_port := ucast (strtoul optarg)\<rparr>)
     else if code = Opt CHR ''d'' then Ret () (c\<lparr>dev_name := optarg\<rparr>)
     else if code = Opt CHR ''i'' then
       (let c = c\<lparr>ib_port := ulong_int (strtoul optarg)\<rparr> in if ib_port c < 0 then Halt (Exited (- 1)) c else Ret () c)
     else if code = Opt CHR ''g'' then
       (let c = c\<lparr>gid_idx := ulong_int (strtoul optarg)\<rparr> in if gid_idx c < 0 then Halt (Exited (- 1)) c else Ret () c)
     else if code = Opt CHR ''s'' then Ret () (set_server_name ip optarg c)
     else if code = Opt CHR ''t'' then Ret () (c\<lparr>traffic_class := ucast (strtoul optarg)\<rparr>)
     else if code = Opt CHR ''e'' then Ret () (c\<lparr>use_event := True\<rparr>)
     else if code = OptCode 257 then Ret () (c\<lparr>DATA_MSG_SIZE := c_atoi optarg\<rparr>)
     else if code = OptCode 258 then Ret () (c\<lparr>num_senders := c_atoi optarg\<rparr>)
     else if code = OptCode 259 then Ret () (c\<lparr>single_recv := True\<rparr>)
     else if code = OptCode 261 then Ret () (c\<lparr>all_reduce := topology optarg (all_reduce c)\<rparr>)
     else if code = OptCode 262 then Ret () (c\<lparr>tree_width := c_atoi optarg\<rparr>)
     else if code = OptCode 263 then Ret () (c\<lparr>role := optarg\<rparr>)
     else if code = OptCode 264 then Ret () (c\<lparr>master_ip := optarg\<rparr>)
     else Ret () c)"

definition parse_args :: "string \<Rightarrow> string list \<Rightarrow> Derived_Config \<Rightarrow> (int, Derived_Config) outcome" where
  "parse_args ip argv c =
     bindO (forO (parse_opt ip) (getopt_events '''' (tl argv)) c) (\<lambda>_ c.
     bindO (conflict_check ip c) (\<lambda>_. Ret 0))"

text \<open>The first lines of each \<open>main\<close>: a fresh configuration, filled from the command line. The sessions take its base
  class.\<close>

definition configured :: "string \<Rightarrow> string list \<Rightarrow> 's \<Rightarrow> (Config, 's) outcome" where
  "configured ip argv s = (case parse_args ip argv default_Config of Ret _ c \<Rightarrow> Ret (Config.truncate c) s | Halt e _ \<Rightarrow> Halt e s)"

section \<open>Printed texts\<close>

abbreviation newline :: string where "newline \<equiv> [CHR 10]"
abbreviation quote :: string where "quote \<equiv> [CHR 34]"

definition usage :: "string \<Rightarrow> string" where
  "usage argv0 = ''Usage:'' @ newline @
     '' '' @ argv0 @ '' start a server and wait for connection'' @ newline @
     '' '' @ argv0 @ '' <host> connect to server at <host>'' @ newline @
     newline @
     ''Options:'' @ newline @
     '' -p, --port <port> listen on/connect to port <port> (default 2020)'' @ newline @
     '' -d, --ib-dev <dev> use IB device <dev> (default first device found)'' @ newline @
     '' -i, --ib-port <port> use port <port> of IB device (default 1)'' @ newline @
     '' -g, --gid_idx <git index> gid index to be used in GRH (default not used)'' @ newline"

text \<open>The conversions: \<open>%u\<close> reads an \<open>int\<close> as unsigned, \<open>%d\<close> reads an unsigned number as \<open>int\<close>, and a truth value is
  printed as 1 or 0.\<close>

definition unsigned_text :: "int \<Rightarrow> string" where
  "unsigned_text i = nat_string (unat (of_int i :: u32))"

definition bool_text :: "bool \<Rightarrow> string" where
  "bool_text b = (if b then ''1'' else ''0'')"

primrec topology_text :: "AllReduceType \<Rightarrow> string" where
  "topology_text FULL_MESH_ALLREDUCE = '' Full-Mesh AllReduce''"
| "topology_text TREE_ALLREDUCE = '' Tree AllReduce''"
| "topology_text DOUBLE_BINARY_TREE_ALLREDUCE = '' Double-Binary-Tree AllReduce''"
| "topology_text RING_ALLREDUCE = '' Ring AllReduce''"
| "topology_text SERVER_CLIENT = '' Server-client''"
| "topology_text UNKNOWN_ALLREDUCE = ''Unknown all reduce type''"

definition print_config :: "string \<Rightarrow> Derived_Config \<Rightarrow> string \<times> Derived_Config" where
  "print_config ip c = (case get_local_ip ip c of (my_ip, c) \<Rightarrow>
     ('' ------------------------------------------------'' @ newline @
      '' Device name : '' @ quote @ dev_name c @ quote @ newline @
      '' IB port : '' @ unsigned_text (ib_port c) @ newline @
      (if serve_as_client c then '' Serving as client, remoteIP :'' @ server_name c else '' Serving as Server'' @ newline) @
      '' TCP port : '' @ nat_string (unat (tcp_port c)) @ newline @
      (if gid_idx c \<ge> 0 then '' GID index : '' @ unsigned_text (gid_idx c) @ newline else '''') @
      '' Traffic Class: '' @ int_string (sint (traffic_class c)) @ newline @
      '' Using event channel: '' @ bool_text (use_event c) @ newline @
      '' MSG size: '' @ int_string (DATA_MSG_SIZE c) @ ''*'' @ int_string (MSG_BLOCK_NUM c) @ newline @
      '' My IP addr: '' @ my_ip @ newline @
      (if cluster c \<noteq> [] then '' IP cluster: '' @ concat (map (\<lambda>each_ip. each_ip @ '' '') (cluster c)) @ newline else '''') @
      (if num_senders c \<noteq> 0 then '' Expected senders: '' @ int_string (num_senders c) @ newline else '''') @
      '' Topology: '' @ topology_text (all_reduce c) @ newline @
      (if all_reduce c = TREE_ALLREDUCE then '' The Tree Allreduce width: '' @ int_string (tree_width c) @ newline else '''') @
      '' Using single thread for receiver: '' @ bool_text (single_recv c) @ newline @
      '' ------------------------------------------------'' @ newline @ newline, c))"

text \<open>The line of a client has no end: its server and the TCP port come out on one line.\<close>

lemma print_config_client:
  assumes "serve_as_client c"
  shows "\<exists>pre post. fst (print_config ip c) = pre @ '' Serving as client, remoteIP :'' @ server_name c @ '' TCP port : '' @ post"
proof -
  have "serve_as_client (snd (get_local_ip ip c))" "server_name (snd (get_local_ip ip c)) = server_name c"
    using assms by (simp_all add: get_local_ip_def Let_def)
  then show ?thesis
    unfolding print_config_def case_prod_beta fst_conv
    by (intro exI [of _ "'' ------------------------------------------------'' @ newline @
      '' Device name : '' @ quote @ dev_name (snd (get_local_ip ip c)) @ quote @ newline @
      '' IB port : '' @ unsigned_text (ib_port (snd (get_local_ip ip c))) @ newline"] exI)
      (simp only: if_True append_assoc)
qed

section \<open>Invariant of the option loop\<close>

definition config_inv :: "string \<Rightarrow> Derived_Config \<Rightarrow> bool" where
  "config_inv ip c \<longleftrightarrow> local_ip c \<in> {'''', ip} \<and> sorted (cluster c) \<and> ip \<notin> set (cluster c) \<and>
     0 \<le> ib_port c \<and> 0 \<le> gid_idx c"

lemma get_local_ip_inv: "local_ip c \<in> {'''', ip} \<Longrightarrow> get_local_ip ip c = (ip, c\<lparr>local_ip := ip\<rparr>)"
  by (auto simp: get_local_ip_def)

lemma config_inv_default: "config_inv ip default_Config"
  by (simp add: config_inv_def default_Config_def)

lemma add_to_cluster_inv: "config_inv ip c \<Longrightarrow> config_inv ip (add_to_cluster ip s c)"
  by (auto simp: config_inv_def add_to_cluster_def get_local_ip_inv)

lemma add_to_cluster_set:
  "config_inv ip c \<Longrightarrow> set (cluster (add_to_cluster ip s c)) = set (cluster c) \<union> ({s} - {ip})"
  by (auto simp: config_inv_def add_to_cluster_def get_local_ip_inv)

lemma add_all_inv: "config_inv ip c \<Longrightarrow> config_inv ip (fold (add_to_cluster ip) ss c)"
  by (induction ss arbitrary: c) (auto simp: add_to_cluster_inv)

lemma sort_append_sort: "sort (sort xs @ ys) = sort (xs @ ys)"
  by (rule properties_for_sort) simp_all

lemma add_all_cluster:
  "config_inv ip c \<Longrightarrow> cluster (fold (add_to_cluster ip) ss c) = sort (cluster c @ filter (\<lambda>s. s \<noteq> ip) ss)"
proof (induction ss arbitrary: c)
  case Nil
  then show ?case by (simp add: config_inv_def sort_key_id_if_sorted)
next
  case (Cons s ss)
  then have "cluster (add_to_cluster ip s c) = sort (cluster c @ filter (\<lambda>s. s \<noteq> ip) [s])"
    by (simp add: add_to_cluster_def get_local_ip_inv config_inv_def sort_key_id_if_sorted)
  with Cons.IH [of "add_to_cluster ip s c"] Cons.prems show ?case by (simp add: add_to_cluster_inv sort_append_sort)
qed

text \<open>What \<open>-u\<close> alone leaves in the other fields.\<close>

lemma add_all_rest:
  "num_senders (fold (add_to_cluster ip) ss c) = num_senders c" "single_recv (fold (add_to_cluster ip) ss c) = single_recv c"
  "all_reduce (fold (add_to_cluster ip) ss c) = all_reduce c"
  by (induction ss arbitrary: c) (simp_all add: add_to_cluster_def get_local_ip_def Let_def)

lemma set_server_name_inv: "config_inv ip c \<Longrightarrow> config_inv ip (set_server_name ip s c)"
  by (auto simp: config_inv_def set_server_name_def get_local_ip_inv)

lemma config_inv_updates [simp]:
  "config_inv ip (c\<lparr>tcp_port := p\<rparr>) = config_inv ip c" "config_inv ip (c\<lparr>dev_name := n\<rparr>) = config_inv ip c"
  "config_inv ip (c\<lparr>traffic_class := p\<rparr>) = config_inv ip c" "config_inv ip (c\<lparr>use_event := b\<rparr>) = config_inv ip c"
  "config_inv ip (c\<lparr>DATA_MSG_SIZE := i\<rparr>) = config_inv ip c" "config_inv ip (c\<lparr>num_senders := i\<rparr>) = config_inv ip c"
  "config_inv ip (c\<lparr>single_recv := b\<rparr>) = config_inv ip c" "config_inv ip (c\<lparr>all_reduce := t\<rparr>) = config_inv ip c"
  "config_inv ip (c\<lparr>tree_width := i\<rparr>) = config_inv ip c" "config_inv ip (c\<lparr>role := n\<rparr>) = config_inv ip c"
  "config_inv ip (c\<lparr>master_ip := n\<rparr>) = config_inv ip c"
  by (simp_all add: config_inv_def)

lemma config_inv_ports:
  "config_inv ip c \<Longrightarrow> 0 \<le> i \<Longrightarrow> config_inv ip (c\<lparr>ib_port := i\<rparr>)"
  "config_inv ip c \<Longrightarrow> 0 \<le> i \<Longrightarrow> config_inv ip (c\<lparr>gid_idx := i\<rparr>)"
  by (simp_all add: config_inv_def)

lemma parse_opt_inv:
  assumes "parse_opt ip ev c = Ret u c'" "config_inv ip c" shows "config_inv ip c'"
  using assms
  by (cases ev)
    (auto simp: parse_opt_def Let_def add_to_cluster_inv add_all_inv set_server_name_inv config_inv_ports split: if_splits)

lemma conflict_check_Ret:
  assumes "conflict_check ip c = Ret u c'" "config_inv ip c"
  shows "config_inv ip c' \<and> (single_recv c' \<longrightarrow> num_senders c' \<noteq> 0) \<and>
    (all_reduce c' = TREE_ALLREDUCE \<longrightarrow> 0 < tree_width c') \<and>
    (all_reduce c' = SERVER_CLIENT \<longrightarrow> serve_as_client c' = (ip \<noteq> server_name c'))"
proof -
  have ip: "get_local_ip ip (c\<lparr>num_senders := n\<rparr>) = (ip, c\<lparr>num_senders := n, local_ip := ip\<rparr>)"
      "get_local_ip ip c = (ip, c\<lparr>local_ip := ip\<rparr>)" for n
    using assms(2) by (simp_all add: config_inv_def get_local_ip_inv)
  show ?thesis
    using assms
    by (auto simp: conflict_check_def Let_def outcome_simps ip config_inv_def split: if_splits)
qed

text \<open>The role and the master of a command line reach the configuration, whatever they are.\<close>

lemma configured_role:
  "\<exists>conf. configured ip [prog, ''--role'', r, ''--master'', m] s = Ret conf s \<and> role conf = r \<and> master_ip conf = m"
proof -
  have "getopt_events '''' [''--role'', r, ''--master'', m] = [(OptCode 263, r, [''--master'', m]), (OptCode 264, m, [])]"
    using getopt_events_written [of "[Long ''role'' r, Long ''master'' m]"] by (simp add: render_all_def long_code_def longopts_def)
  then show ?thesis
    by (simp add: configured_def parse_args_def parse_opt_def conflict_check_def Let_def default_Config_def Config.truncate_def)
qed

section \<open>Property\<close>

text \<open>Property C16. A command line that \<open>parse_args\<close> accepts gives a consistent configuration: the cluster is
  sorted and never contains this node; port and gid index are not negative; a single receiver has a
  number of senders; a tree has a positive width; in server-client mode the node is a client exactly
  when it is not the named server.\<close>

theorem parse_args_consistent:
  assumes "parse_args ip argv default_Config = Ret r c"
  shows "r = 0 \<and> sorted (cluster c) \<and> ip \<notin> set (cluster c) \<and> 0 \<le> ib_port c \<and> 0 \<le> gid_idx c \<and>
    (single_recv c \<longrightarrow> num_senders c \<noteq> 0) \<and> (all_reduce c = TREE_ALLREDUCE \<longrightarrow> 0 < tree_width c) \<and>
    (all_reduce c = SERVER_CLIENT \<longrightarrow> serve_as_client c = (ip \<noteq> server_name c))"
proof -
  from assms obtain u c1 v where 1: "forO (parse_opt ip) (getopt_events '''' (tl argv)) default_Config = Ret u c1"
    and 2: "conflict_check ip c1 = Ret v c" and r: "r = 0"
    by (auto simp: parse_args_def outcome_simps)
  from 1 config_inv_default have "config_inv ip c1"
    by (rule forO_invariant) (auto intro: parse_opt_inv)
  from conflict_check_Ret [OF 2 this] r show ?thesis by (auto simp: config_inv_def)
qed

theorem parse_args_consistent_witness:
  "\<exists>r c. parse_args ''12.12.12.111''
     [''mesh'', ''-u'', ''12.12.12.113'', ''12.12.12.111'', ''12.12.12.112'', ''--role'', ''master'', ''-g'', ''0x3''] default_Config = Ret r c \<and>
   ''12.12.12.111'' \<notin> set (cluster c) \<and> sorted (cluster c)"
proof -
  let ?run = "parse_args ''12.12.12.111''
     [''mesh'', ''-u'', ''12.12.12.113'', ''12.12.12.111'', ''12.12.12.112'', ''--role'', ''master'', ''-g'', ''0x3''] default_Config"
  have "returns ?run" by code_simp
  then obtain r c where run: "?run = Ret r c" by (rule returnsE)
  from parse_args_consistent [OF run] run show ?thesis by blast
qed

end
