(* ===== verification/Endpoint.thy ===== *)
theory Endpoint
  imports Channel Configuration
begin

text \<open>
  \<open>include/rdma_endpoint.h\<close>, \<open>src/rdma_endpoint.cc\<close>: one end of a connection. It exchanges the
  \<open>AdapterInfo\<close> of its channel with the peer over TCP and connects the channel's queue pair. The
  program state gains the endpoint and session objects; sessions are here because the identifier of
  a channel is built from its endpoint's and its session's. \<open>fuel\<close> bounds the receive loop of one
  transfer; \<open>sizeof(AdapterInfo)\<close> is enough on an open stream (\<open>sock_sync_data_stream\<close>).
\<close>

section \<open>State\<close>

record RDMAEndPoint =
  ep_id :: string
  pre_connector :: "TCPConnector option"
  rdma_channel_mgr :: "oref list"
  registered_session :: oref

record RDMASession =
  work_env :: Config
  end_point_mgr :: "oref list"
  is_connected :: bool

record 'w ep_world = "'w chan_world" +
  endpoints :: "oref \<rightharpoonup> RDMAEndPoint"
  sessions :: "oref \<rightharpoonup> RDMASession"

definition deref_ep :: "oref \<Rightarrow> ('w, 'z) ep_world_scheme \<Rightarrow> (RDMAEndPoint, ('w, 'z) ep_world_scheme) outcome" where
  "deref_ep r w = deref (endpoints w r) ''RDMAEndPoint'' w"

definition set_ep :: "oref \<Rightarrow> RDMAEndPoint \<Rightarrow> ('w, 'z) ep_world_scheme \<Rightarrow> ('w, 'z) ep_world_scheme" where
  "set_ep r e w = w\<lparr>endpoints := (endpoints w)(r \<mapsto> e)\<rparr>"

definition deref_sess :: "oref \<Rightarrow> ('w, 'z) ep_world_scheme \<Rightarrow> (RDMASession, ('w, 'z) ep_world_scheme) outcome" where
  "deref_sess r w = deref (sessions w r) ''RDMASession'' w"

definition set_sess :: "oref \<Rightarrow> RDMASession \<Rightarrow> ('w, 'z) ep_world_scheme \<Rightarrow> ('w, 'z) ep_world_scheme" where
  "set_sess r s w = w\<lparr>sessions := (sessions w)(r \<mapsto> s)\<rparr>"

section \<open>Identifiers\<close>

definition session_get_id :: "RDMASession \<Rightarrow> string" where
  "session_get_id s = role (work_env s) @ ''@'' @ session_id (work_env s)"

text \<open>\<open>a:p-->b:q\<close>, the middle part of the identifiers.\<close>

definition connection_id :: "TCPConnector \<Rightarrow> string" where
  "connection_id c = my_ip c @ '':'' @ int_string (my_port c) @ ''-->'' @ peer_ip c @ '':'' @ int_string (peer_port c)"

definition get_unique_id :: "oref \<Rightarrow> ('w, 'z) ep_world_scheme \<Rightarrow> (string, ('w, 'z) ep_world_scheme) outcome" where
  "get_unique_id this w =
     bindO (deref_ep this w) (\<lambda>e w.
     case pre_connector e of
       None \<Rightarrow> Halt (CheckFailed ''TCPConnector is not initialized'') w
     | Some c \<Rightarrow> Ret (''RDMAEndPoint('' @ connection_id c @ '')'') w)"

definition endpoint_get_id :: "oref \<Rightarrow> ('w, 'z) ep_world_scheme \<Rightarrow> (string, ('w, 'z) ep_world_scheme) outcome" where
  "endpoint_get_id this w =
     bindO (deref_ep this w) (\<lambda>e w.
     case pre_connector e of
       None \<Rightarrow> Halt (CheckFailed ''RDMAEndPoint is not initialized before using'') w
     | Some c \<Rightarrow>
         bindO (deref_sess (registered_session e) w) (\<lambda>s w.
         Ret (''['' @ connection_id c @ '']@'' @ session_get_id s) w))"

definition channel_get_id :: "oref \<Rightarrow> ('w, 'z) ep_world_scheme \<Rightarrow> (string, ('w, 'z) ep_world_scheme) outcome" where
  "channel_get_id this w =
     bindO (deref_chan this w) (\<lambda>c w.
     bindO (endpoint_get_id (registered_endpoint c) w) (\<lambda>i w.
     Ret (''('' @ adapter_id c @ '')'' @ i) w))"

definition adapter_info :: "oref \<Rightarrow> ('w, 'z) ep_world_scheme \<Rightarrow> (string, ('w, 'z) ep_world_scheme) outcome" where
  "adapter_info this w = bindO (channel_get_id this w) (\<lambda>i. Ret (''RDMAAdapter@'' @ i))"

definition channel_info :: "oref \<Rightarrow> ('w, 'z) ep_world_scheme \<Rightarrow> (string, ('w, 'z) ep_world_scheme) outcome" where
  "channel_info this w = bindO (channel_get_id this w) (\<lambda>i. Ret (''RDMAChannel@'' @ i))"

section \<open>Operations\<close>

text \<open>A transfer through the endpoint's connector, which may be updated by it.\<close>

definition ep_sync :: "'w sys \<Rightarrow> nat \<Rightarrow> oref \<Rightarrow> nat \<Rightarrow> byte list \<Rightarrow> byte list \<Rightarrow> ('w, 'z) ep_world_scheme \<Rightarrow>
    (int \<times> byte list, ('w, 'z) ep_world_scheme) outcome" where
  "ep_sync S fuel this n local_data remote_data w =
     bindO (deref_ep this w) (\<lambda>e w.
     bindO (deref (pre_connector e) ''pre_connector_'' w) (\<lambda>c w.
     bindO (sock_sync_data S fuel n local_data remote_data c w) (\<lambda>(rc, ph, c) w.
     Ret (rc, ph) (set_ep this (e\<lparr>pre_connector := Some c\<rparr>) w))))"

definition sync_with_peer :: "'w sys \<Rightarrow> nat \<Rightarrow> oref \<Rightarrow> ('w, 'z) ep_world_scheme \<Rightarrow>
    (unit, ('w, 'z) ep_world_scheme) outcome" where
  "sync_with_peer S fuel this w =
     bindO (ep_sync S fuel this 1 (string_bytes ''Q'') [0] w) (\<lambda>(rc, _) w.
     fatal_if (rc \<noteq> 0) ''sync error'' w)"

definition setup_rdma_channel :: "string \<Rightarrow> oref \<Rightarrow> ('w, 'z) ep_world_scheme \<Rightarrow>
    (unit, ('w, 'z) ep_world_scheme) outcome" where
  "setup_rdma_channel info this w =
     bindO (RDMAChannel_new info this w) (\<lambda>channel w.
     bindO (deref_ep this w) (\<lambda>e w.
     Ret () (set_ep this (e\<lparr>rdma_channel_mgr := rdma_channel_mgr e @ [channel]\<rparr>) w)))"

definition RDMAEndPoint_new :: "'w sys \<Rightarrow> nat \<Rightarrow> int \<Rightarrow> string \<Rightarrow> int \<Rightarrow> oref \<Rightarrow> ('w, 'z) ep_world_scheme \<Rightarrow>
    (oref, ('w, 'z) ep_world_scheme) outcome" where
  "RDMAEndPoint_new S fuel fd ip port session w =
     (let this = next_ref w; w = w\<lparr>next_ref := Suc this\<rparr>;
          e = \<lparr>ep_id = ''RDMAEndPoint'', pre_connector = None, rdma_channel_mgr = [], registered_session = session\<rparr> in
      bindO (deref_sess session w) (\<lambda>_ w.
      (let e = e\<lparr>pre_connector := Some (TCPConnector_new S fd ip port w)\<rparr>; w = set_ep this e w in
       bindO (get_unique_id this w) (\<lambda>i w.
       bindO (sync_with_peer S fuel this (set_ep this (e\<lparr>ep_id := i\<rparr>) w)) (\<lambda>_ w.
       bindO (setup_rdma_channel ''DataChannel'' this w) (\<lambda>_ w.
       Ret this w))))))"

text \<open>One turn of the loop in \<open>connecting\<close>. The result of the exchange is dropped, as is the one of the
  channel's \<open>connecting\<close>.\<close>

definition connect_channel :: "'w sys \<Rightarrow> nat \<Rightarrow> oref \<Rightarrow> oref \<Rightarrow> ('w, 'z) ep_world_scheme \<Rightarrow>
    (unit, ('w, 'z) ep_world_scheme) outcome" where
  "connect_channel S fuel this channel w =
     bindO (adapter_info channel w) (\<lambda>info w.
     bindO (loading S info channel w) (\<lambda>adapt_info w.
     bindO (ep_sync S fuel this sizeof_AdapterInfo (AdapterInfo_bytes adapt_info)
       (AdapterInfo_bytes default_AdapterInfo) w) (\<lambda>(_, ph) w.
     bindO (connecting S (bytes_AdapterInfo ph) channel w) (\<lambda>_ w.
     bindO (ep_sync S fuel this 1 (string_bytes ''Q'') [0] w) (\<lambda>(rc, _) w.
     fatal_if (rc \<noteq> 0) ''sync error after QPs are connected'' w)))))"

definition endpoint_connecting :: "'w sys \<Rightarrow> nat \<Rightarrow> oref \<Rightarrow> ('w, 'z) ep_world_scheme \<Rightarrow>
    (unit, ('w, 'z) ep_world_scheme) outcome" where
  "endpoint_connecting S fuel this w =
     bindO (deref_ep this w) (\<lambda>e w. forO (connect_channel S fuel this) (rdma_channel_mgr e) w)"

definition endpoint_reset :: "'w sys \<Rightarrow> nat \<Rightarrow> oref \<Rightarrow> ('w, 'z) ep_world_scheme \<Rightarrow>
    (unit, ('w, 'z) ep_world_scheme) outcome" where
  "endpoint_reset S fuel this w =
     bindO (deref_ep this w) (\<lambda>e w.
     bindO (forO (\<lambda>ch w. bindO (reset_hca S ch w) (\<lambda>_. Ret ())) (rdma_channel_mgr e) w) (\<lambda>_ w.
     endpoint_connecting S fuel this w))"

definition get_channel :: "u32 \<Rightarrow> oref \<Rightarrow> ('w, 'z) ep_world_scheme \<Rightarrow> (oref, ('w, 'z) ep_world_scheme) outcome" where
  "get_channel index this w =
     bindO (check (index = 0) ''Currently, we only support one channel in a endpoint'' w) (\<lambda>_ w.
     bindO (deref_ep this w) (\<lambda>e w.
     deref (nth_opt (rdma_channel_mgr e) (unat index)) ''rdma_channel_mgr_'' w))"

definition endpoint_setup_index :: "int \<Rightarrow> oref \<Rightarrow> ('w, 'z) ep_world_scheme \<Rightarrow> (unit, ('w, 'z) ep_world_scheme) outcome" where
  "endpoint_setup_index index this w =
     bindO (deref_ep this w) (\<lambda>e w.
     bindO (deref (nth_opt (rdma_channel_mgr e) 0) ''rdma_channel_mgr_'' w) (\<lambda>ch w.
     setup_index_in_session ch index w))"

lemmas ep_defs = deref_ep_def set_ep_def deref_sess_def set_sess_def

section \<open>Lemmas\<close>

lemma ep_sync_stream:
  assumes e: "endpoints w this = Some e" "pre_connector e = Some c"
    and s: "stream_socket S (root_sock c) rx tx" "root_sock c \<noteq> 0"
    and n: "n \<le> length d" "n \<le> length ph" "n \<le> length (rx (hw w))" "n \<le> fuel"
    and keeps: "socket_keeps S (root_sock c) st"
  shows "\<exists>h. ep_sync S fuel this n d ph w = Ret (0, take n (rx (hw w)) @ drop n ph) (w\<lparr>hw := h\<rparr>) \<and>
    rx h = drop n (rx (hw w)) \<and> tx h = tx (hw w) @ take n d \<and> st h = st (hw w)"
proof -
  from sock_sync_data_stream [OF s n] obtain h where run: "sock_sync_data S fuel n d ph c w =
      Ret (0, take n (rx (hw w)) @ drop n ph, c) (w\<lparr>hw := h\<rparr>)" and h: "rx h = drop n (rx (hw w))" "tx h = tx (hw w) @ take n d"
    by blast
  from sock_sync_data_keeps [OF keeps s(2) run] have "st h = st (hw w)" by simp
  moreover have "e\<lparr>pre_connector := Some c\<rparr> = e" using e(2) by simp
  ultimately show ?thesis
    using run h e by (intro exI [of _ h]) (simp add: ep_sync_def ep_defs map_upd_triv)
qed

text \<open>The transitions of a queue pair do not touch the socket's streams.\<close>

definition qp_keeps :: "'w sys \<Rightarrow> oref \<Rightarrow> ('w \<Rightarrow> 'x) \<Rightarrow> bool" where
  "qp_keeps S qp st \<longleftrightarrow> (\<forall>attr flags h. st (snd (ibv_modify_qp S qp attr flags h)) = st h)"

lemma connected_hw_keeps: "qp_keeps S (ad_qp a) st \<Longrightarrow> st (connected_hw S a h) = st h"
  by (simp add: connected_hw_def Let_def qp_keeps_def)

lemma connected_hw_rts:
  assumes "qp_machine S (ad_qp a) st valid" "st h = IBV_QPS_RESET"
    "valid (init_attr a)" "valid (rtr_attr a)" "valid rts_attr"
  shows "st (connected_hw S a h) = IBV_QPS_RTS"
proof -
  from assms(1) have step: "qp_required (st h) (at_qp_state attr) = Some req \<Longrightarrow> req \<subseteq> flags \<Longrightarrow> valid attr \<Longrightarrow>
      st (snd (ibv_modify_qp S (ad_qp a) attr flags h)) = at_qp_state attr" for h attr req flags
    by (auto simp: qp_machine_def)
  have "at_qp_state (init_attr a) = IBV_QPS_INIT" "at_qp_state (rtr_attr a) = IBV_QPS_RTR" "at_qp_state rts_attr = IBV_QPS_RTS"
    by (simp_all add: init_attr_def rtr_attr_def rts_attr_def Let_def)
  with assms show ?thesis by (simp add: connected_hw_def Let_def step)
qed

text \<open>The environment of a connection attempt: the peer's answer is on the way, and the device accepts the
  attributes.\<close>

definition ready_to_connect :: "'w sys \<Rightarrow> TCPConnector \<Rightarrow> ('w \<Rightarrow> byte list) \<Rightarrow> ('w \<Rightarrow> byte list) \<Rightarrow>
    ('w \<Rightarrow> ibv_qp_state) \<Rightarrow> (ibv_qp_attr \<Rightarrow> bool) \<Rightarrow> AdapterInfo \<Rightarrow> RDMAChannel \<Rightarrow> bool" where
  "ready_to_connect S c rx tx st valid peer a \<longleftrightarrow>
     stream_socket S (root_sock c) rx tx \<and> root_sock c \<noteq> 0 \<and> socket_keeps S (root_sock c) st \<and>
     qp_keeps S (ad_qp a) rx \<and> qp_keeps S (ad_qp a) tx \<and> qp_machine S (ad_qp a) st valid \<and>
     valid (init_attr a) \<and> valid (rtr_attr (a\<lparr>remote_info := peer\<rparr>)) \<and> valid rts_attr \<and>
     wf_AdapterInfo peer \<and> wf_AdapterInfo (self_info a) \<and> peer_acceptable a peer \<and> ad_qp a \<noteq> 0"

lemma exchange_and_connect:
  assumes e: "endpoints w this = Some e" "pre_connector e = Some c"
    and a: "channels w ch = Some a" "devices w (rdma_device a) \<noteq> None"
    and env: "ready_to_connect S c rx tx st valid peer a"
    and rx: "rx (hw w) = AdapterInfo_bytes peer @ q # rest" and fuel: "sizeof_AdapterInfo \<le> fuel"
    and st: "st (hw w) = IBV_QPS_RESET"
  shows "\<exists>t a'. bindO (ep_sync S fuel this sizeof_AdapterInfo (AdapterInfo_bytes (self_info a))
       (AdapterInfo_bytes default_AdapterInfo) w) (\<lambda>(_, ph) w.
     bindO (connecting S (bytes_AdapterInfo ph) ch w) (\<lambda>_ w.
     bindO (ep_sync S fuel this 1 (string_bytes ''Q'') [0] w) (\<lambda>(rc, _) w.
     fatal_if (rc \<noteq> 0) ''sync error after QPs are connected'' w))) = Ret () t \<and>
    channels t ch = Some a' \<and> ad_qp a' = ad_qp a \<and> remote_info a' = peer \<and> vadapt_status a' = CONNECTING \<and>
    st (hw t) = IBV_QPS_RTS \<and> rx (hw t) = rest \<and> tx (hw t) = tx (hw w) @ AdapterInfo_bytes (self_info a) @ string_bytes ''Q''"
proof -
  note env' = env [unfolded ready_to_connect_def]
  have lens: "length (AdapterInfo_bytes (self_info a)) = 155" "length (AdapterInfo_bytes default_AdapterInfo) = 155"
      "length (AdapterInfo_bytes peer) = 155"
    using env' AdapterInfo_length by (auto simp: wf_AdapterInfo_def default_AdapterInfo_def)
  obtain h1 where 1: "ep_sync S fuel this sizeof_AdapterInfo (AdapterInfo_bytes (self_info a))
       (AdapterInfo_bytes default_AdapterInfo) w = Ret (0, AdapterInfo_bytes peer) (w\<lparr>hw := h1\<rparr>)"
    and h1: "rx h1 = q # rest" "tx h1 = tx (hw w) @ AdapterInfo_bytes (self_info a)" "st h1 = IBV_QPS_RESET"
    using ep_sync_stream [OF e, of S rx tx sizeof_AdapterInfo "AdapterInfo_bytes (self_info a)"
        "AdapterInfo_bytes default_AdapterInfo" fuel st] env' rx fuel lens st by auto
  have peer: "bytes_AdapterInfo (AdapterInfo_bytes peer) = peer" using env' by (simp add: AdapterInfo_bytes_inverse)
  let ?a = "a\<lparr>remote_info := peer\<rparr>"
  obtain i where 2: "connecting S peer ch (w\<lparr>hw := h1\<rparr>) = Ret True (w\<lparr>hw := connected_hw S ?a h1,
       channels := (channels w)(ch \<mapsto> ?a\<lparr>ad_qp_init_attr := i, vadapt_status := CONNECTING\<rparr>)\<rparr>)"
    using connecting_eq [of "w\<lparr>hw := h1\<rparr>" ch a peer S] a env' by auto
  let ?w2 = "w\<lparr>hw := connected_hw S ?a h1,
       channels := (channels w)(ch \<mapsto> ?a\<lparr>ad_qp_init_attr := i, vadapt_status := CONNECTING\<rparr>)\<rparr>"
  have "init_attr ?a = init_attr a" by (simp add: init_attr_def)
  then have st2: "st (connected_hw S ?a h1) = IBV_QPS_RTS"
    using env' h1(3) by (intro connected_hw_rts [where valid = valid]) simp_all
  have keep2: "rx (connected_hw S ?a h1) = q # rest" "tx (connected_hw S ?a h1) = tx (hw w) @ AdapterInfo_bytes (self_info a)"
    using env' h1 by (simp_all add: connected_hw_keeps)
  obtain h3 where 3: "ep_sync S fuel this 1 (string_bytes ''Q'') [0] ?w2 = Ret (0, [q]) (?w2\<lparr>hw := h3\<rparr>)"
    and h3: "rx h3 = rest" "tx h3 = tx (hw w) @ AdapterInfo_bytes (self_info a) @ string_bytes ''Q''" "st h3 = IBV_QPS_RTS"
    using ep_sync_stream [of ?w2 this e c S rx tx 1 "string_bytes ''Q''" "[0]" fuel st] env' e keep2 st2 fuel
    by (auto simp: string_bytes_def)
  show ?thesis
    using h3 by (simp add: 1 peer 2 3 [unfolded One_nat_def])
qed

lemma channel_get_id_same: "channel_get_id ch w = Ret i t \<Longrightarrow> t = w"
  by (auto simp: channel_get_id_def endpoint_get_id_def ep_defs deref_chan_def outcome_simps split: option.splits)

lemma adapter_info_same: "adapter_info ch w = Ret i t \<Longrightarrow> t = w"
  by (auto simp: adapter_info_def outcome_simps dest: channel_get_id_same)

text \<open>\<open>loading\<close> leaves the endpoints alone.\<close>

lemma loading_endpoints:
  assumes "loading S info ch w = Ret i t" shows "endpoints t = endpoints w"
proof -
  from assms obtain a where a: "channels w ch = Some a" by (auto simp: loading_def deref_chan_def outcome_simps)
  show ?thesis
  proof (cases "resource_is_allocated a")
    case True
    with assms a show ?thesis by (simp add: loading_def deref_chan_def)
  next
    case False
    have gd: "get_device S n ad x = Ret d y \<Longrightarrow> endpoints y = endpoints x" for n ad x d y
      by (drule get_device_only) (auto simp: dev_only_def)
    have cp: "create_pd S ch x = Ret u y \<Longrightarrow> endpoints y = endpoints x" for x u y
      by (auto simp: create_pd_def create_protected_domain_def chan_defs deref_dev_def outcome_simps)
    have cc: "create_compt_channel S ch x = Ret u y \<Longrightarrow> endpoints y = endpoints x" for x u y
      by (auto simp: create_compt_channel_def create_event_channel_def chan_defs deref_dev_def outcome_simps split: if_splits)
    have cq: "create_cq S ch x = Ret u y \<Longrightarrow> endpoints y = endpoints x" for x u y
    proof -
      assume r: "create_cq S ch x = Ret u y"
      then obtain b where "channels x ch = Some b" by (cases "channels x ch") (auto simp: create_cq_def deref_chan_def)
      with r obtain q h ds where "y = x\<lparr>hw := h, devices := ds, channels := (channels x)(ch \<mapsto> b\<lparr>used_cq := q\<rparr>)\<rparr>"
        by (rule create_cq_Ret)
      then show "endpoints y = endpoints x" by simp
    qed
    have qp: "create_qp S ch x = Ret u y \<Longrightarrow> endpoints y = endpoints x" for x u y
      by (auto simp: create_qp_def create_queue_pair_def chan_defs deref_dev_def outcome_simps Let_def)
    have up: "update_my_adapter_info S info ch x = Ret u y \<Longrightarrow> endpoints y = endpoints x" for x u y
    proof -
      assume r: "update_my_adapter_info S info ch x = Ret u y"
      then obtain b where "channels x ch = Some b" by (cases "channels x ch") (auto simp: update_my_adapter_info_def deref_chan_def)
      with r obtain b' where "y = x\<lparr>channels := (channels x)(ch \<mapsto> b')\<rparr>"
        by (rule update_my_adapter_info_Ret) blast
      then show "endpoints y = endpoints x" by simp
    qed
    from assms a False show ?thesis
      by (auto simp: loading_def get_adapter_info_def outcome_simps Let_def chan_defs dest!: gd cp cc cq qp up)
  qed
qed

section \<open>Properties\<close>

text \<open>Property C1. \<open>RDMAEndPoint::connecting\<close> on its channel: after \<open>loading\<close>, with the peer's \<open>AdapterInfo\<close> and its
  synchronisation byte on the way over the stream and a device that accepts the attributes, the call
  returns; the channel's peer data is exactly what the peer sent, its queue pair is ready to send, the
  peer has been sent the image of the own data followed by the synchronisation byte, and only the bytes
  meant for this exchange are consumed.\<close>

theorem connect_channel_establishes:
  assumes e: "endpoints w this = Some e" "pre_connector e = Some c"
    and load: "adapter_info ch w = Ret info w" "loading S info ch w = Ret i w1"
    and a: "channels w1 ch = Some a" "i = self_info a" "devices w1 (rdma_device a) \<noteq> None"
    and env: "ready_to_connect S c rx tx st valid peer a"
    and rx: "rx (hw w1) = AdapterInfo_bytes peer @ q # rest" and fuel: "sizeof_AdapterInfo \<le> fuel"
    and st: "st (hw w1) = IBV_QPS_RESET"
  shows "\<exists>t a'. connect_channel S fuel this ch w = Ret () t \<and> channels t ch = Some a' \<and>
    remote_info a' = peer \<and> vadapt_status a' = CONNECTING \<and> st (hw t) = IBV_QPS_RTS \<and>
    rx (hw t) = rest \<and> tx (hw t) = tx (hw w1) @ AdapterInfo_bytes i @ string_bytes ''Q''"
proof -
  have e1: "endpoints w1 this = Some e" using loading_endpoints [OF load(2)] e(1) by simp
  from exchange_and_connect [OF e1 e(2) a(1,3) env rx fuel st]
  show ?thesis unfolding connect_channel_def by (auto simp add: load a(2))
qed

text \<open>An endpoint with a loaded channel, for the witnesses.\<close>

definition ep_connector :: TCPConnector where
  "ep_connector = \<lparr>root_sock = 4, peer_ip = ''12.12.12.113'', peer_port = 9, my_ip = ''12.12.12.111'', my_port = 7\<rparr>"

definition ep_world0 :: "lb_state ep_world" where
  "ep_world0 = \<lparr>hw = lb_init\<lparr>lb_rx := AdapterInfo_bytes lb_peer @ string_bytes ''Q''\<rparr>, next_ref = 11, device_map = Map.empty,
     devices = Map.empty, cache_line_size = 64, cycle_buffer = 4096, mem = (\<lambda>_. 0), buffers = Map.empty,
     channels = [3 \<mapsto> (RDMAChannel_init ''DataChannel'' 2)
       \<lparr>adapter_config := default_AdapterConfig\<lparr>ac_using_shared_cq := False\<rparr>\<rparr>],
     endpoints = [2 \<mapsto> \<lparr>ep_id = ''e'', pre_connector = Some ep_connector, rdma_channel_mgr = [3], registered_session = 1\<rparr>],
     sessions = [1 \<mapsto> \<lparr>work_env = Config.truncate default_Config, end_point_mgr = [2], is_connected = True\<rparr>]\<rparr>"

lemma socket_keeps_loopback: "socket_keeps loopback sock lb_qp"
  by (simp add: socket_keeps_def loopback_def)

lemma qp_keeps_loopback: "qp_keeps loopback qp lb_rx" "qp_keeps loopback qp lb_tx"
  by (auto simp: qp_keeps_def loopback_def split: option.splits)

theorem connect_channel_establishes_witness:
  "\<exists>t a'. connect_channel loopback 155 2 3 ep_world0 = Ret () t \<and> channels t 3 = Some a' \<and> remote_info a' = lb_peer \<and>
     lb_qp (hw t) = IBV_QPS_RTS \<and> lb_rx (hw t) = []"
proof -
  have "returns (adapter_info 3 ep_world0)" by code_simp
  then obtain info where info: "adapter_info 3 ep_world0 = Ret info ep_world0"
    using adapter_info_same by (metis returnsE)
  have eval: "case loading loopback (val_of (adapter_info 3 ep_world0)) 3 ep_world0 of Halt _ _ \<Rightarrow> False
    | Ret i w \<Rightarrow> lb_qp (hw w) = IBV_QPS_RESET \<and> lb_rx (hw w) = AdapterInfo_bytes lb_peer @ string_bytes ''Q'' \<and>
       (case channels w 3 of None \<Rightarrow> False | Some a \<Rightarrow> wf_AdapterInfo (self_info a) \<and> peer_acceptable a lb_peer)"
    by code_simp
  then obtain i w1 where load: "loading loopback info 3 ep_world0 = Ret i w1"
    using info by (auto split: outcome.splits)
  have "\<exists>a. channels ep_world0 3 = Some a \<and> \<not> resource_is_allocated a"
    by (simp add: ep_world0_def RDMAChannel_init_def)
  with loading_loaded [OF load] obtain a where a: "channels w1 3 = Some a" "i = self_info a" "ad_qp a \<noteq> 0"
      "devices w1 (rdma_device a) \<noteq> None"
    by (auto simp: loaded_def)
  with eval info load have a': "wf_AdapterInfo (self_info a)" "peer_acceptable a lb_peer"
    and h: "lb_qp (hw w1) = IBV_QPS_RESET" "lb_rx (hw w1) = AdapterInfo_bytes lb_peer @ char_byte CHR ''Q'' # []"
    by (simp_all add: string_bytes_def)
  have wf: "wf_AdapterInfo lb_peer" by code_simp
  have env: "ready_to_connect loopback ep_connector lb_rx lb_tx lb_qp (\<lambda>_. True) lb_peer a"
    using a a' wf by (simp add: ready_to_connect_def stream_socket_loopback socket_keeps_loopback qp_keeps_loopback
        qp_machine_loopback ep_connector_def)
  have e: "endpoints ep_world0 2 = Some \<lparr>ep_id = ''e'', pre_connector = Some ep_connector, rdma_channel_mgr = [3], registered_session = 1\<rparr>"
    by (simp add: ep_world0_def)
  from connect_channel_establishes [OF e _ info load a(1,2,4) env h(2) _ h(1), of 155] show ?thesis by auto
qed

lemma adapter_info_hw:
  "adapter_info ch w = Ret info w \<Longrightarrow> adapter_info ch (w\<lparr>hw := h\<rparr>) = Ret info (w\<lparr>hw := h\<rparr>)"
  by (auto simp: adapter_info_def channel_get_id_def endpoint_get_id_def ep_defs deref_chan_def outcome_simps
      split: option.splits)


definition ep_world1 :: "lb_state ep_world" where
  "ep_world1 = ep_world0\<lparr>hw := lb_init\<lparr>lb_rx := AdapterInfo_bytes lb_peer @ string_bytes ''Q'', lb_qp := IBV_QPS_RTS\<rparr>,
     devices := devices reg_base,
     channels := [3 \<mapsto> (RDMAChannel_init ''DataChannel'' 2)\<lparr>resource_is_allocated := True, rdma_device := 9, ad_qp := 4,
       self_info := lb_peer\<rparr>]\<rparr>"


end
