(* ===== verification/Session.thy ===== *)
theory Session
  imports Endpoint "HOL-Library.Multiset"
begin

text \<open>
  \<open>include/rdma_session.h\<close>, \<open>src/rdma_session.cc\<close>: a session groups its channels by completion queue and
  serves each group in an endless poll loop that hands every completion to a callback. The callbacks
  of a session are a record of functions on the program state. The loop is cut after a number of
  rounds. Connections are set up in \<open>Session_Setup\<close>.
\<close>

section \<open>Callbacks\<close>

definition MsgToStr :: "u32 \<Rightarrow> string" where
  "MsgToStr t = (if t = message_code UNSET then ''UNSET''
     else if t = message_code RAW_DATA_BLOCK then ''RAW_DATA_BLOCK''
     else if t = message_code TEST_FOR_CONNECTION then ''TEST_FOR_CONNECTION''
     else if t = message_code TEST_FOR_SYNC_DATA then ''TEST_FOR_SYNC_DATA''
     else if t = message_code SAY_HELLO then ''SAY_HELLO''
     else if t = message_code REQUEST_EXCHANGE_KEY then ''REQUEST_EXCHANGE_KEY''
     else if t = message_code RESPONSE_EXCHANGE_KEY then ''RESPONSE_EXCHANGE_KEY''
     else ''Unknown MessageType'')"

type_synonym 's handler = "ibv_wc \<Rightarrow> 's \<Rightarrow> (unit, 's) outcome"

record 's callbacks =
  established_done :: "oref list \<Rightarrow> 's \<Rightarrow> (unit, 's) outcome"
  process_send_done :: "'s handler"
  process_recv_done :: "'s handler"
  process_recv_write_with_imm_done :: "'s handler"
  process_write_done :: "'s handler"
  process_read_done :: "'s handler"

text \<open>A null function leaves the present callback.\<close>

definition register_event_callback :: "(oref list \<Rightarrow> 's \<Rightarrow> (unit, 's) outcome) option \<Rightarrow> 's handler option \<Rightarrow>
    's handler option \<Rightarrow> 's handler option \<Rightarrow> 's handler option \<Rightarrow> 's handler option \<Rightarrow> 's callbacks \<Rightarrow> 's callbacks" where
  "register_event_callback est snd_done rcv rcv_imm wrt rd cb =
     \<lparr>established_done = case_option (established_done cb) (\<lambda>f. f) est,
      process_send_done = case_option (process_send_done cb) (\<lambda>f. f) snd_done,
      process_recv_done = case_option (process_recv_done cb) (\<lambda>f. f) rcv,
      process_recv_write_with_imm_done = case_option (process_recv_write_with_imm_done cb) (\<lambda>f. f) rcv_imm,
      process_write_done = case_option (process_write_done cb) (\<lambda>f. f) wrt,
      process_read_done = case_option (process_read_done cb) (\<lambda>f. f) rd\<rparr>"

section \<open>The poll loop\<close>

text \<open>One completion. A failed one ends the process, after \<open>show_qp_info\<close>; so does an unknown opcode.\<close>

definition dispatch :: "'w sys \<Rightarrow> ('w, 'z) ep_world_scheme callbacks \<Rightarrow> oref \<Rightarrow> ibv_wc \<Rightarrow>
    ('w, 'z) ep_world_scheme \<Rightarrow> (unit, ('w, 'z) ep_world_scheme) outcome" where
  "dispatch S cb channel wc w =
     (if wc_status wc \<noteq> IBV_WC_SUCCESS
      then bindO (show_qp_info S channel w) (\<lambda>_ w.
           Halt (LogFatal ''[WARNING]: Encounting unsuccess wqe'') w)
      else case wc_opcode wc of
          IBV_WC_SEND \<Rightarrow> process_send_done cb wc w
        | IBV_WC_RECV \<Rightarrow> process_recv_done cb wc w
        | IBV_WC_RDMA_WRITE \<Rightarrow> process_write_done cb wc w
        | IBV_WC_RDMA_READ \<Rightarrow> process_read_done cb wc w
        | IBV_WC_RECV_RDMA_WITH_IMM \<Rightarrow> process_recv_write_with_imm_done cb wc w
        | IBV_WC_OTHER n \<Rightarrow>
            bindO (channel_info (wc_wr_id wc) w) (\<lambda>_ w. Halt (LogFatal ''Unknown opcode'') w))"

text \<open>The turn of one channel. A negative result of the poll is treated like an empty batch.\<close>

definition poll_turn :: "'w sys \<Rightarrow> ('w, 'z) ep_world_scheme callbacks \<Rightarrow> oref \<Rightarrow> ('w, 'z) ep_world_scheme \<Rightarrow>
    (unit, ('w, 'z) ep_world_scheme) outcome" where
  "poll_turn S cb channel w =
     bindO (poll_cq_batch S channel 128 w) (\<lambda>(num_wqe, global_wc) w.
     forO (dispatch S cb channel) (take (nat num_wqe) global_wc) w)"

primrec poll_rounds :: "'w sys \<Rightarrow> ('w, 'z) ep_world_scheme callbacks \<Rightarrow> oref list \<Rightarrow> nat \<Rightarrow>
    ('w, 'z) ep_world_scheme \<Rightarrow> (unit, ('w, 'z) ep_world_scheme) outcome" where
  "poll_rounds S cb chs 0 w = Halt (NoReturn ''process_CQ'') w"
| "poll_rounds S cb chs (Suc n) w = bindO (forO (poll_turn S cb) chs w) (\<lambda>_. poll_rounds S cb chs n)"

definition process_CQ :: "'w sys \<Rightarrow> ('w, 'z) ep_world_scheme callbacks \<Rightarrow> nat \<Rightarrow> oref list \<Rightarrow>
    ('w, 'z) ep_world_scheme \<Rightarrow> (unit, ('w, 'z) ep_world_scheme) outcome" where
  "process_CQ S cb rounds chs w = bindO (established_done cb chs w) (\<lambda>_. poll_rounds S cb chs rounds)"

definition allocate_resources :: "('w, 'z) ep_world_scheme \<Rightarrow> (unit, ('w, 'z) ep_world_scheme) outcome" where
  "allocate_resources w = Halt (LogFatal ''allocate_resources is not implemented yet'') w"

section \<open>Grouping channels by completion queue\<close>

text \<open>The map \<open>all_channel\<close> of \<open>running\<close>: completion queue to channels, as an association list.\<close>

definition add_channel :: "oref \<Rightarrow> oref \<Rightarrow> (oref \<times> oref list) list \<Rightarrow> (oref \<times> oref list) list" where
  "add_channel cq ch g =
     (let g = (if map_of g cq = None then g @ [(cq, [])] else g)
      in map (\<lambda>e. if fst e = cq then (fst e, snd e @ [ch]) else e) g)"

primrec group_channels :: "oref list \<Rightarrow> (oref \<times> oref list) list \<Rightarrow> ('w, 'z) ep_world_scheme \<Rightarrow>
    ((oref \<times> oref list) list, ('w, 'z) ep_world_scheme) outcome" where
  "group_channels [] g w = Ret g w"
| "group_channels (ep # eps) g w =
     bindO (get_channel 0 ep w) (\<lambda>ch w.
     bindO (deref_chan ch w) (\<lambda>c w.
     group_channels eps (add_channel (used_cq c) ch g) w))"

text \<open>\<open>running\<close>: one thread per group. The result is the argument of each thread's \<open>process_CQ\<close>.\<close>

definition running_threads :: "oref \<Rightarrow> ('w, 'z) ep_world_scheme \<Rightarrow>
    (oref list list, ('w, 'z) ep_world_scheme) outcome" where
  "running_threads this w =
     bindO (deref_sess this w) (\<lambda>s w.
     bindO (group_channels (end_point_mgr s) [] w) (\<lambda>g w.
     Ret (map snd g) w))"

section \<open>Lemmas: the groups\<close>

text \<open>Every endpoint of the list has a channel.\<close>

definition eps_ok :: "('w, 'z) ep_world_scheme \<Rightarrow> oref list \<Rightarrow> bool" where
  "eps_ok w eps \<longleftrightarrow> list_all (\<lambda>ep. case endpoints w ep of None \<Rightarrow> False
     | Some e \<Rightarrow> (case rdma_channel_mgr e of [] \<Rightarrow> False | ch # _ \<Rightarrow> channels w ch \<noteq> None)) eps"

definition ep_channel :: "('w, 'z) ep_world_scheme \<Rightarrow> oref \<Rightarrow> oref" where
  "ep_channel w ep = hd (rdma_channel_mgr (the (endpoints w ep)))"

definition cq_of :: "('w, 'z) ep_world_scheme \<Rightarrow> oref \<Rightarrow> oref" where
  "cq_of w ch = used_cq (the (channels w ch))"

text \<open>What a list of groups must be.\<close>

definition grouping :: "(oref \<Rightarrow> oref) \<Rightarrow> oref list \<Rightarrow> (oref \<times> oref list) list \<Rightarrow> bool" where
  "grouping f chs g \<longleftrightarrow> distinct (map fst g) \<and> set (map fst g) = f ` set chs \<and>
     (\<forall>(cq, grp) \<in> set g. grp = filter (\<lambda>ch. f ch = cq) chs)"

lemma grouping_add:
  assumes "grouping f chs g" shows "grouping f (chs @ [ch]) (add_channel (f ch) ch g)"
proof -
  let ?g = "if map_of g (f ch) = None then g @ [(f ch, [])] else g"
  have d: "distinct (map fst g)" and k: "set (map fst g) = f ` set chs"
    and grp: "\<And>cq grp. (cq, grp) \<in> set g \<Longrightarrow> grp = filter (\<lambda>c. f c = cq) chs"
    using assms by (auto simp: grouping_def)
  have new: "filter (\<lambda>c. f c = f ch) chs = []" if "map_of g (f ch) = None"
    using that k by (auto simp: map_of_eq_None_iff filter_empty_conv) (metis image_eqI)
  have "distinct (map fst ?g)" using d by (auto simp: map_of_eq_None_iff)
  moreover have "set (map fst ?g) = insert (f ch) (f ` set chs)"
    using k by (auto simp: map_of_eq_None_iff)
  moreover have "grp = filter (\<lambda>c. f c = cq) chs" if "(cq, grp) \<in> set ?g" for cq grp
    using that grp new by (auto split: if_splits)
  moreover have "map fst (map (\<lambda>e. if fst e = f ch then (fst e, snd e @ [ch]) else e) xs) = map fst xs" for xs :: "(oref \<times> oref list) list"
    by (induction xs) auto
  moreover have "(cq, grp) \<in> set (map (\<lambda>e. if fst e = f ch then (fst e, snd e @ [ch]) else e) xs) \<Longrightarrow>
      (cq = f ch \<and> (\<exists>l. (cq, l) \<in> set xs \<and> grp = l @ [ch])) \<or> (cq \<noteq> f ch \<and> (cq, grp) \<in> set xs)"
    for cq grp and xs :: "(oref \<times> oref list) list" by (auto split: if_splits)
  ultimately show ?thesis
    unfolding grouping_def add_channel_def Let_def by (fastforce simp del: map_map)
qed

lemma group_channels_eq:
  assumes "eps_ok w eps" and "grouping (cq_of w) chs g"
  shows "\<exists>g'. group_channels eps g w = Ret g' w \<and> grouping (cq_of w) (chs @ map (ep_channel w) eps) g'"
  using assms
proof (induction eps arbitrary: chs g)
  case Nil
  then show ?case by simp
next
  case (Cons ep eps)
  then obtain e ch r c where e: "endpoints w ep = Some e" "rdma_channel_mgr e = ch # r" "channels w ch = Some c"
    by (auto simp: eps_ok_def split: option.splits list.splits)
  then have ch: "ch = ep_channel w ep" "used_cq c = cq_of w ch" by (simp_all add: ep_channel_def cq_of_def)
  have "group_channels (ep # eps) g w = group_channels eps (add_channel (cq_of w ch) ch g) w"
    using e ch(2) by (simp add: get_channel_def ep_defs nth_opt_def deref_chan_def)
  with Cons.IH [of "chs @ [ch]" "add_channel (cq_of w ch) ch g"] Cons.prems grouping_add [of "cq_of w" chs g ch] ch(1)
  show ?case by (auto simp: eps_ok_def)
qed

lemma mset_groups:
  "distinct cqs \<Longrightarrow> mset (concat (map (\<lambda>cq. filter (\<lambda>x. f x = cq) xs) cqs)) = filter_mset (\<lambda>x. f x \<in> set cqs) (mset xs)"
  by (induction cqs) (auto intro!: multiset_eqI)

section \<open>Lemmas: the poll loop\<close>

lemma poll_rounds_no_return: "\<not> returns (poll_rounds S cb chs n w)"
  by (induction n arbitrary: w) (auto simp: outcome_simps)

lemma forO_keeps:
  assumes "\<And>x s. x \<in> set xs \<Longrightarrow> I s \<Longrightarrow> \<exists>t. f x s = Ret () t \<and> I t" and "I s"
  shows "\<exists>t. forO f xs s = Ret () t \<and> I t"
  using assms
proof (induction xs arbitrary: s)
  case (Cons x xs)
  then obtain t where "f x s = Ret () t" "I t" by (meson list.set_intros(1))
  with Cons.IH [of t] Cons.prems(1) show ?case by simp
qed simp

section \<open>Properties\<close>

text \<open>Property C26. \<open>running\<close> starts one thread per completion queue: the threads' channel lists are exactly the
  session's channels split by completion queue, in the order of the endpoints. Every channel is served
  by one thread and no completion queue is polled by two.\<close>

theorem running_partitions_channels:
  assumes "sessions w this = Some s" and "eps_ok w (end_point_mgr s)"
  shows "\<exists>ts cqs. running_threads this w = Ret ts w \<and> distinct cqs \<and>
    ts = map (\<lambda>cq. filter (\<lambda>ch. cq_of w ch = cq) (map (ep_channel w) (end_point_mgr s))) cqs \<and>
    mset (concat ts) = mset (map (ep_channel w) (end_point_mgr s)) \<and> [] \<notin> set ts"
proof -
  let ?chs = "map (ep_channel w) (end_point_mgr s)"
  have "grouping (cq_of w) [] []" by (simp add: grouping_def)
  from group_channels_eq [OF assms(2) this] obtain g where
    g: "group_channels (end_point_mgr s) [] w = Ret g w" "grouping (cq_of w) ?chs g" by auto
  let ?cqs = "map fst g"
  have d: "distinct ?cqs" and cov: "set ?cqs = cq_of w ` set ?chs" using g(2) by (auto simp: grouping_def)
  have ts: "map snd g = map (\<lambda>cq. filter (\<lambda>ch. cq_of w ch = cq) ?chs) ?cqs"
    using g(2) unfolding grouping_def by (intro nth_equalityI) (auto simp: case_prod_beta)
  have "filter_mset (\<lambda>x. cq_of w x \<in> set ?cqs) (mset ?chs) = mset ?chs"
    unfolding cov by (simp add: filter_mset_eq_conv)
  with mset_groups [OF d, of "cq_of w" ?chs] have "mset (concat (map snd g)) = mset ?chs" by (simp only: ts)
  moreover have "filter (\<lambda>ch. cq_of w ch = cq) ?chs \<noteq> []" if "cq \<in> set ?cqs" for cq
    using that unfolding cov by (auto simp: filter_empty_conv)
  then have "[] \<notin> (\<lambda>cq. filter (\<lambda>ch. cq_of w ch = cq) ?chs) ` set ?cqs" by (simp only: image_iff) metis
  then have "[] \<notin> set (map snd g)" unfolding ts by (simp only: list.set_map not_False_eq_True)
  moreover have "running_threads this w = Ret (map snd g) w"
    using assms(1) g(1) by (simp add: running_threads_def ep_defs)
  ultimately show ?thesis using d ts by blast
qed


definition sess_config :: Config where
  "sess_config = Config.truncate default_Config"

definition group_world :: "lb_state ep_world" where
  "group_world = \<lparr>hw = lb_init, next_ref = 50, device_map = Map.empty, devices = Map.empty, cache_line_size = 64, cycle_buffer = 4096, mem = (\<lambda>_. 0), buffers = Map.empty,
     channels = [1 \<mapsto> (RDMAChannel_init ''a'' 11)\<lparr>used_cq := 30\<rparr>, 2 \<mapsto> (RDMAChannel_init ''b'' 12)\<lparr>used_cq := 40\<rparr>,
       3 \<mapsto> (RDMAChannel_init ''c'' 13)\<lparr>used_cq := 30\<rparr>],
     endpoints = (\<lambda>i. if i \<in> {11, 12, 13} then Some \<lparr>ep_id = ''e'', pre_connector = None, rdma_channel_mgr = [i - 10], registered_session = 20\<rparr>
       else None),
     sessions = [20 \<mapsto> \<lparr>work_env = sess_config, end_point_mgr = [11, 12, 13], is_connected = True\<rparr>]\<rparr>"

theorem running_partitions_channels_witness:
  "\<exists>ts cqs. running_threads 20 group_world = Ret ts group_world \<and> distinct cqs \<and>
    ts = map (\<lambda>cq. filter (\<lambda>ch. cq_of group_world ch = cq) [1, 2, 3]) cqs \<and> mset (concat ts) = {#1, 2, 3#} \<and> [] \<notin> set ts"
proof -
  have "sessions group_world 20 = Some \<lparr>work_env = sess_config, end_point_mgr = [11, 12, 13], is_connected = True\<rparr>"
    "eps_ok group_world [11, 12, 13]"
    by (simp_all add: group_world_def eps_ok_def)
  moreover have "map (ep_channel group_world) [11, 12, 13] = [1, 2, 3]" by (simp add: group_world_def ep_channel_def)
  ultimately show ?thesis
    using running_partitions_channels [of group_world 20 "\<lparr>work_env = sess_config, end_point_mgr = [11, 12, 13], is_connected = True\<rparr>"]
    by simp
qed

text \<open>The poll loop serves for ever: \<open>process_CQ\<close> never returns, and as long as every turn of a channel
  returns, keeping an invariant of the callbacks, no number of rounds stops it.\<close>

theorem process_CQ_serves_forever:
  assumes "established_done cb chs w = Ret () w0" and "I w0"
    and "\<forall>ch \<in> set chs. \<forall>s. I s \<longrightarrow> (\<exists>t. poll_turn S cb ch s = Ret () t \<and> I t)"
  shows "\<not> returns (process_CQ S cb n chs w) \<and>
    (\<exists>t. process_CQ S cb n chs w = Halt (NoReturn ''process_CQ'') t \<and> I t)"
proof -
  have "\<exists>t. poll_rounds S cb chs n s = Halt (NoReturn ''process_CQ'') t \<and> I t" if "I s" for s
    using that
  proof (induction n arbitrary: s)
    case (Suc n)
    from forO_keeps [of chs I "poll_turn S cb" s] assms(3) Suc.prems
    obtain t where "forO (poll_turn S cb) chs s = Ret () t" "I t" by blast
    with Suc.IH [of t] show ?case by simp
  qed simp
  with assms(1,2) show ?thesis by (auto simp: process_CQ_def poll_rounds_no_return)
qed

text \<open>Callbacks that count the completions in \<open>next_ref\<close>, for the witnesses.\<close>

definition counting :: "lb_state ep_world callbacks" where
  "counting = (let h = (\<lambda>wc w. Ret () (w\<lparr>next_ref := Suc (next_ref w)\<rparr>)) in
     \<lparr>established_done = (\<lambda>_ w. Ret () w), process_send_done = h, process_recv_done = h,
      process_recv_write_with_imm_done = h, process_write_done = h, process_read_done = h\<rparr>)"

theorem process_CQ_serves_forever_witness:
  "\<exists>t. process_CQ loopback counting 7 [1, 2, 3] group_world = Halt (NoReturn ''process_CQ'') t \<and> next_ref t = 50"
proof -
  define I where "I s \<longleftrightarrow> channels s = channels group_world \<and> lb_cqes (hw s) = [] \<and> next_ref s = 50" for s :: "lb_state ep_world"
  have "established_done counting [1, 2, 3] group_world = Ret () group_world" by (simp add: counting_def Let_def)
  moreover have "I group_world" by (simp add: I_def group_world_def lb_init_def)
  moreover have "\<forall>ch \<in> set [1, 2, 3]. \<forall>s. I s \<longrightarrow> (\<exists>t. poll_turn loopback counting ch s = Ret () t \<and> I t)"
    by (auto simp: I_def group_world_def poll_turn_def poll_cq_batch_def real_poll_completion_queue_def deref_chan_def loopback_def)
  ultimately show ?thesis
    using process_CQ_serves_forever [of counting "[1, 2, 3]" group_world group_world I loopback 7]
    by (auto simp: I_def)
qed

text \<open>A failed completion ends the process: the completions before it in the batch have been handed to
  their callbacks in order, no later one is, and nothing is retried.\<close>

theorem poll_turn_stops_at_failure:
  assumes "poll_cq_batch S ch 128 w = Ret (num, wcs) w0"
    and "take (nat num) wcs = pre @ wc # post" and "forO (dispatch S cb ch) pre w0 = Ret () w1"
    and "wc_status wc \<noteq> IBV_WC_SUCCESS" and "show_qp_info S ch w1 = Ret () w2"
  shows "poll_turn S cb ch w = Halt (LogFatal ''[WARNING]: Encounting unsuccess wqe'') w2 \<and>
    (\<forall>rounds chs. established_done cb (ch # chs) w' = Ret () w \<longrightarrow>
       process_CQ S cb (Suc rounds) (ch # chs) w' = Halt (LogFatal ''[WARNING]: Encounting unsuccess wqe'') w2)"
  using assms by (simp add: poll_turn_def forO_append dispatch_def process_CQ_def)


definition fail_world :: "lb_state ep_world" where
  "fail_world = group_world\<lparr>hw := lb_init\<lparr>lb_cqes :=
      [\<lparr>wc_wr_id = 1, wc_status = IBV_WC_SUCCESS, wc_opcode = IBV_WC_SEND, wc_byte_len = 8, wc_imm_data = 0, wc_with_imm = False\<rparr>,
       \<lparr>wc_wr_id = 1, wc_status = IBV_WC_ERR 12, wc_opcode = IBV_WC_SEND, wc_byte_len = 0, wc_imm_data = 0, wc_with_imm = False\<rparr>]\<rparr>,
     devices := [5 \<mapsto> \<lparr>reg_cqs = Map.empty, adapter_set = {}, device_name = ''mlx5_0'', ib_ctx = 6,
       device_attr = \<lparr>phys_port_cnt = 1\<rparr>, ports_attrs = []\<rparr>],
     channels := [1 \<mapsto> (RDMAChannel_init ''a'' 11)\<lparr>used_cq := 30, ad_qp := 31, rdma_device := 5\<rparr>]\<rparr>"

theorem poll_turn_stops_at_failure_witness:
  "\<exists>t. poll_turn loopback counting 1 fail_world = Halt (LogFatal ''[WARNING]: Encounting unsuccess wqe'') t \<and> next_ref t = 51"
proof -
  let ?w0 = "fail_world\<lparr>hw := (hw fail_world)\<lparr>lb_cqes := []\<rparr>\<rparr>"
  let ?w1 = "?w0\<lparr>next_ref := 51\<rparr>"
  let ?wcs = "lb_cqes (hw fail_world)"
  let ?c = "(RDMAChannel_init ''a'' 11)\<lparr>used_cq := 30, ad_qp := 31, rdma_device := 5\<rparr>"
  let ?w2 = "?w1\<lparr>channels := [1 \<mapsto> ?c\<lparr>ad_qp_init_attr := Some lb_init_attr\<rparr>]\<rparr>"
  have 1: "poll_cq_batch loopback 1 128 fail_world = Ret (2, ?wcs) ?w0"
    by (simp add: poll_cq_batch_def real_poll_completion_queue_def deref_chan_def fail_world_def loopback_def)
  have 2: "take (nat 2) ?wcs = [hd ?wcs] @ last ?wcs # []" by (simp add: fail_world_def)
  have 3: "forO (dispatch loopback counting 1) [hd ?wcs] ?w0 = Ret () ?w1"
    by (simp add: fail_world_def dispatch_def counting_def group_world_def Let_def)
  have 4: "wc_status (last ?wcs) \<noteq> IBV_WC_SUCCESS" by (simp add: fail_world_def)
  have 5: "show_qp_info loopback 1 ?w1 = Ret () ?w2"
    by (simp add: show_qp_info_def fail_world_def deref_chan_def deref_dev_def set_chan_def get_qp_attr_def loopback_def)
  from poll_turn_stops_at_failure [OF 1 2 3 4 5] show ?thesis by auto
qed

end
