(* ===== verification/Session_Setup.thy ===== *)
theory Session_Setup
  imports Session
begin

text \<open>
  \<open>src/rdma_session.cc\<close>, \<open>src/rdma_client_sess.cc\<close>, \<open>src/rdma_server_sess.cc\<close>: a session sets up its
  endpoints (the client connects, the server accepts), configures their channels and connects their
  queue pairs.
\<close>

section \<open>Setting up connections\<close>

definition RDMASession_new :: "Config \<Rightarrow> ('w, 'z) ep_world_scheme \<Rightarrow> (oref, ('w, 'z) ep_world_scheme) outcome" where
  "RDMASession_new conf w =
     (let this = next_ref w in
      Ret this (set_sess this \<lparr>work_env = conf, end_point_mgr = [], is_connected = False\<rparr> (w\<lparr>next_ref := Suc this\<rparr>)))"

definition accept_new_connection :: "'w sys \<Rightarrow> nat \<Rightarrow> oref \<Rightarrow> int \<Rightarrow> string \<times> u16 \<Rightarrow> ('w, 'z) ep_world_scheme \<Rightarrow>
    (int, ('w, 'z) ep_world_scheme) outcome" where
  "accept_new_connection S fuel this sock_fd cin w =
     bindO (RDMAEndPoint_new S fuel sock_fd (fst cin) (int (unat (snd cin))) this w) (\<lambda>new_EndPoint w.
     bindO (deref_sess this w) (\<lambda>s w.
     bindO (get_channel 0 new_EndPoint (set_sess this (s\<lparr>end_point_mgr := end_point_mgr s @ [new_EndPoint]\<rparr>) w)) (\<lambda>ch w.
     bindO (setup_index_in_session ch (int (length (end_point_mgr s @ [new_EndPoint])) - 1) w) (\<lambda>_ w.
     Ret 1 w))))"

text \<open>The client's connect loop: \<open>count_try\<close> more attempts after the next one.\<close>

primrec connect_loop :: "'w sys \<Rightarrow> int \<Rightarrow> string \<times> u16 \<Rightarrow> nat \<Rightarrow> ('w, 'z) ep_world_scheme \<Rightarrow>
    (bool, ('w, 'z) ep_world_scheme) outcome" where
  "connect_loop S con_fd addr 0 w = bindO (hw_call (os_connect S con_fd addr) w) (\<lambda>rc. Ret (rc = 0))"
| "connect_loop S con_fd addr (Suc count_try) w =
     bindO (hw_call (os_connect S con_fd addr) w) (\<lambda>rc w.
     if rc = 0 then Ret True w else connect_loop S con_fd addr count_try w)"

definition client_init_session :: "'w sys \<Rightarrow> nat \<Rightarrow> oref \<Rightarrow> ('w, 'z) ep_world_scheme \<Rightarrow>
    (unit, ('w, 'z) ep_world_scheme) outcome" where
  "client_init_session S fuel this w =
     bindO (allocate_socket S ''RDMAClientSession'' w) (\<lambda>con_fd w.
     bindO (deref_sess this w) (\<lambda>s w.
     (let c_to_server = (master_ip (work_env s), ucast (tcp_port (work_env s))) in
      bindO (connect_loop S con_fd c_to_server (10 * 300) w) (\<lambda>ok w.
      (let w = (if ok then set_sess this (s\<lparr>is_connected := True\<rparr>) w else w) in
       bindO (accept_new_connection S fuel this con_fd c_to_server w) (\<lambda>_. Ret ()))))))"

text \<open>The server's accept loop; \<open>n\<close> connections are still to come.\<close>

primrec accept_loop :: "'w sys \<Rightarrow> nat \<Rightarrow> oref \<Rightarrow> int \<Rightarrow> nat \<Rightarrow> ('w, 'z) ep_world_scheme \<Rightarrow>
    (unit, ('w, 'z) ep_world_scheme) outcome" where
  "accept_loop S fuel this listen_fd 0 w = Ret () w"
| "accept_loop S fuel this listen_fd (Suc n) w =
     bindO (hw_call (os_accept S listen_fd) w) (\<lambda>(client_fd, cin) w.
     bindO (fatal_if (client_fd = - 1) ''Error of accepting new connection'' w) (\<lambda>_ w.
     bindO (accept_new_connection S fuel this client_fd cin w) (\<lambda>_ w.
     accept_loop S fuel this listen_fd n w)))"

text \<open>The loop tests after each connection whether there are as many as cluster entries, so it runs at
  least once.\<close>

definition server_init_session :: "'w sys \<Rightarrow> nat \<Rightarrow> oref \<Rightarrow> ('w, 'z) ep_world_scheme \<Rightarrow>
    (unit, ('w, 'z) ep_world_scheme) outcome" where
  "server_init_session S fuel this w =
     bindO (allocate_socket S ''RDMAServerSession'' w) (\<lambda>listen_fd w.
     bindO (deref_sess this w) (\<lambda>s w.
     bindO (hw_call (os_bind S listen_fd (''0.0.0.0'', ucast (tcp_port (work_env s)))) w) (\<lambda>rc w.
     bindO (fatal_if (rc < 0) ''Error when binding to socket'' w) (\<lambda>_ w.
     bindO (hw_call (os_listen S listen_fd 1024) w) (\<lambda>rc w.
     bindO (fatal_if (rc < 0) ''Error when listen on socket'' w) (\<lambda>_ w.
     bindO (accept_loop S fuel this listen_fd (max 1 (length (cluster (work_env s)))) w) (\<lambda>_ w.
     bindO (deref_sess this w) (\<lambda>s w.
     Ret () (set_sess this (s\<lparr>is_connected := True\<rparr>) w)))))))))"

definition configure_channel :: "(AdapterConfig \<Rightarrow> AdapterConfig) \<Rightarrow> oref \<Rightarrow> ('w, 'z) ep_world_scheme \<Rightarrow>
    (unit, ('w, 'z) ep_world_scheme) outcome" where
  "configure_channel f ep w =
     bindO (get_channel 0 ep w) (\<lambda>ch w.
     bindO (deref_chan ch w) (\<lambda>c w.
     Ret () (set_chan ch (c\<lparr>adapter_config := f (adapter_config c)\<rparr>) w)))"

definition client_lazy_config_hca :: "oref \<Rightarrow> ('w, 'z) ep_world_scheme \<Rightarrow> (unit, ('w, 'z) ep_world_scheme) outcome" where
  "client_lazy_config_hca this w =
     bindO (deref_sess this w) (\<lambda>s w.
     forO (configure_channel (\<lambda>c. c\<lparr>ac_using_shared_cq := False\<rparr>)) (end_point_mgr s) w)"

definition server_lazy_config_hca :: "oref \<Rightarrow> ('w, 'z) ep_world_scheme \<Rightarrow> (unit, ('w, 'z) ep_world_scheme) outcome" where
  "server_lazy_config_hca this w =
     bindO (deref_sess this w) (\<lambda>s w.
     forO (configure_channel (\<lambda>c. c\<lparr>ac_using_shared_cq := True, ac_cq_key := ''SharedCQ@'' @ session_get_id s\<rparr>))
       (end_point_mgr s) w)"

text \<open>\<open>real_connecting\<close> starts a helper thread per endpoint; \<open>order\<close> is the order in which they run.\<close>

definition real_connecting :: "'w sys \<Rightarrow> nat \<Rightarrow> oref list \<Rightarrow> ('w, 'z) ep_world_scheme \<Rightarrow>
    (unit, ('w, 'z) ep_world_scheme) outcome" where
  "real_connecting S fuel order w = forO (endpoint_connecting S fuel) order w"

definition session_connecting :: "'w sys \<Rightarrow> nat \<Rightarrow> bool \<Rightarrow> (oref list \<Rightarrow> oref list) \<Rightarrow> oref \<Rightarrow> ('w, 'z) ep_world_scheme \<Rightarrow>
    (unit, ('w, 'z) ep_world_scheme) outcome" where
  "session_connecting S fuel is_server schedule this w =
     bindO (if is_server then server_lazy_config_hca this w else client_lazy_config_hca this w) (\<lambda>_ w.
     bindO (deref_sess this w) (\<lambda>s w.
     real_connecting S fuel (schedule (end_point_mgr s)) w))"

text \<open>\<open>example/ping_pong_test.cc\<close>: \<open>main\<close> up to the start of the poll threads.\<close>

definition ping_pong_main :: "'w sys \<Rightarrow> nat \<Rightarrow> (oref list \<Rightarrow> oref list) \<Rightarrow> string \<Rightarrow> string list \<Rightarrow> ('w, 'z) ep_world_scheme \<Rightarrow>
    (oref list list, ('w, 'z) ep_world_scheme) outcome" where
  "ping_pong_main S fuel schedule ip argv w =
     bindO (configured ip argv w) (\<lambda>conf w.
      if role conf = ''master'' then
        bindO (RDMASession_new (conf\<lparr>serve_as_client := False\<rparr>) w) (\<lambda>session w.
        bindO (server_init_session S fuel session w) (\<lambda>_ w.
        bindO (session_connecting S fuel True schedule session w) (\<lambda>_ w.
        running_threads session w)))
      else if role conf = ''slaver'' then
        bindO (RDMASession_new (conf\<lparr>serve_as_client := True\<rparr>) w) (\<lambda>session w.
        bindO (client_init_session S fuel session w) (\<lambda>_ w.
        bindO (session_connecting S fuel False schedule session w) (\<lambda>_ w.
        running_threads session w)))
      else Halt (LogFatal ''Unknown role for'') w)"

text \<open>A role other than the two the programs know ends them before any session exists.\<close>

lemma ping_pong_unknown_role:
  assumes "r \<noteq> ''master''" "r \<noteq> ''slaver''"
  shows "ping_pong_main S fuel schedule ip [prog, ''--role'', r, ''--master'', m] w = Halt (LogFatal ''Unknown role for'') w"
  using configured_role [of ip prog r m w] assms by (auto simp: ping_pong_main_def)

section \<open>Lemmas: frames\<close>

text \<open>Only the state behind the system calls has changed.\<close>

definition hw_only :: "('w, 'z) sys_world_scheme \<Rightarrow> ('w, 'z) sys_world_scheme \<Rightarrow> bool" where
  "hw_only w t \<longleftrightarrow> t = w\<lparr>hw := hw t\<rparr>"

lemma hw_onlyD: "hw_only w t \<Longrightarrow> t = w\<lparr>hw := hw t\<rparr>"
  by (simp add: hw_only_def)

lemma hw_only_refl [simp]: "hw_only w w" "hw_only w (w\<lparr>hw := h\<rparr>)"
  by (simp_all add: hw_only_def)

lemma hw_only_trans: "hw_only w u \<Longrightarrow> hw_only u t \<Longrightarrow> hw_only w t"
proof -
  assume 1: "hw_only w u" and 2: "hw_only u t"
  from 2 have "t = u\<lparr>hw := hw t\<rparr>" by (rule hw_onlyD)
  also have "\<dots> = (w\<lparr>hw := hw u\<rparr>)\<lparr>hw := hw t\<rparr>" using hw_onlyD [OF 1] by simp
  finally show ?thesis by (simp add: hw_only_def)
qed

lemma set_and_check_hw: "set_and_check S opt sock v w = Ret r t \<Longrightarrow> hw_only w t"
  by (auto simp: set_and_check_def outcome_simps split: if_splits)

lemma set_and_check_ip_hw:
  "set_and_check_ip_tos S sock v w = Ret r t \<Longrightarrow> hw_only w t"
  "set_and_check_ip_priority S sock v w = Ret r t \<Longrightarrow> hw_only w t"
  by (auto simp: set_and_check_ip_tos_def set_and_check_ip_priority_def split: if_splits dest: set_and_check_hw)

lemma set_socket_reuse_hw: "set_socket_reuse S sock w = Ret r t \<Longrightarrow> hw_only w t"
  by (auto simp: set_socket_reuse_def outcome_simps split: if_splits)

lemma allocate_socket_hw: "allocate_socket S info w = Ret r t \<Longrightarrow> hw_only w t"
  by (auto simp: allocate_socket_def outcome_simps dest!: set_and_check_ip_hw set_socket_reuse_hw)
    (rule hw_only_trans, rule hw_only_refl(2), erule hw_only_trans, erule hw_only_trans)

lemma get_or_build_socket_hw: "get_or_build_socket S c w = Ret r t \<Longrightarrow> hw_only w t"
  by (auto simp: get_or_build_socket_def outcome_simps split: if_splits)

lemma send_data_hw:
  assumes "send_data S n d c w = Ret r t" shows "hw_only w t"
proof -
  from assms obtain x w1 where "get_or_build_socket S c w = Ret x w1" "hw_only w1 t"
    by (auto simp: send_data_def outcome_simps)
  then show ?thesis by (meson hw_only_trans get_or_build_socket_hw)
qed

lemma recv_force_loop_hw: "recv_force_loop S sock n fuel got ph w = Ret x t \<Longrightarrow> hw_only w t"
proof (induction fuel arbitrary: got ph w)
  case 0
  then show ?case by (auto split: if_splits)
next
  case (Suc fuel)
  let ?w = "w\<lparr>hw := snd (os_recv S sock (n - got) (hw w))\<rparr>"
  have step: "hw_only ?w t \<Longrightarrow> hw_only w t" by (rule hw_only_trans [of w ?w]) simp
  from Suc.prems show ?case
    by (auto simp: hw_call_eq case_prod_beta split: if_splits intro!: step dest!: Suc.IH)
qed

lemma sock_sync_data_hw:
  assumes "sock_sync_data S fuel n d ph c w = Ret r t" shows "hw_only w t"
proof -
  from assms obtain x w1 y w2 z sock where "send_data S n d c w = Ret x w1" "get_or_build_socket S (snd x) w1 = Ret y w2"
      "recv_force_loop S sock n fuel 0 ph w2 = Ret z t"
    by (auto simp: sock_sync_data_def recv_data_force_def outcome_simps)
  then show ?thesis by (meson hw_only_trans send_data_hw get_or_build_socket_hw recv_force_loop_hw)
qed

text \<open>The exchange through an endpoint's connector changes the connector at most.\<close>

lemma ep_sync_Ret:
  assumes "ep_sync S fuel this n d ph w = Ret r t" and "endpoints w this = Some e"
  obtains c h where "t = w\<lparr>hw := h, endpoints := (endpoints w)(this \<mapsto> e\<lparr>pre_connector := c\<rparr>)\<rparr>"
proof -
  from assms obtain c0 x c w1 where run: "sock_sync_data S fuel n d ph c0 w = Ret x w1"
    and t: "t = w1\<lparr>endpoints := (endpoints w1)(this \<mapsto> e\<lparr>pre_connector := Some c\<rparr>)\<rparr>"
    by (auto simp: ep_sync_def ep_defs outcome_simps)
  from hw_onlyD [OF sock_sync_data_hw [OF run]] obtain h where "w1 = w\<lparr>hw := h\<rparr>" by blast
  with t have "t = w\<lparr>hw := h, endpoints := (endpoints w)(this \<mapsto> e\<lparr>pre_connector := Some c\<rparr>)\<rparr>" by simp
  then show ?thesis by (rule that)
qed


lemma sync_with_peer_Ret:
  assumes "sync_with_peer S fuel this w = Ret r t" and "endpoints w this = Some e"
  obtains c h where "t = w\<lparr>hw := h, endpoints := (endpoints w)(this \<mapsto> e\<lparr>pre_connector := c\<rparr>)\<rparr>"
proof -
  from assms obtain x where "ep_sync S fuel this 1 (string_bytes ''Q'') [0] w = Ret x t"
    by (auto simp: sync_with_peer_def outcome_simps)
  then show ?thesis using assms(2) that by (rule ep_sync_Ret)
qed

text \<open>A new endpoint takes the next two references: itself and its one channel.\<close>

lemma RDMAEndPoint_new_Ret:
  assumes "RDMAEndPoint_new S fuel fd ip port sess w = Ret ep t"
  obtains e h where "ep = next_ref w" "rdma_channel_mgr e = [Suc ep]" "registered_session e = sess"
    "t = w\<lparr>hw := h, next_ref := Suc (Suc ep), channels := (channels w)(Suc ep \<mapsto> RDMAChannel_init ''DataChannel'' ep),
       endpoints := (endpoints w)(ep \<mapsto> e)\<rparr>"
proof -
  let ?ep = "next_ref w"
  let ?e = "\<lparr>ep_id = ''RDMAEndPoint'', pre_connector = Some (TCPConnector_new S fd ip port (w\<lparr>next_ref := Suc ?ep\<rparr>)),
     rdma_channel_mgr = [], registered_session = sess\<rparr>"
  from assms obtain i w1 where
    s: "sync_with_peer S fuel ?ep (set_ep ?ep (?e\<lparr>ep_id := i\<rparr>) (set_ep ?ep ?e (w\<lparr>next_ref := Suc ?ep\<rparr>))) = Ret () w1"
    and c: "setup_rdma_channel ''DataChannel'' ?ep w1 = Ret () t" and ep: "ep = ?ep"
    by (auto simp: RDMAEndPoint_new_def Let_def get_unique_id_def ep_defs outcome_simps)
  from s obtain k h where w1: "w1 = (set_ep ?ep (?e\<lparr>ep_id := i\<rparr>) (set_ep ?ep ?e (w\<lparr>next_ref := Suc ?ep\<rparr>)))\<lparr>hw := h,
      endpoints := (endpoints (set_ep ?ep (?e\<lparr>ep_id := i\<rparr>) (set_ep ?ep ?e (w\<lparr>next_ref := Suc ?ep\<rparr>))))
        (?ep \<mapsto> ?e\<lparr>ep_id := i, pre_connector := k\<rparr>)\<rparr>"
    by (rule sync_with_peer_Ret [where e = "?e\<lparr>ep_id := i\<rparr>"]) (simp_all add: set_ep_def)
  have "t = w\<lparr>hw := h, next_ref := Suc (Suc ep), channels := (channels w)(Suc ep \<mapsto> RDMAChannel_init ''DataChannel'' ep),
       endpoints := (endpoints w)(ep \<mapsto> ?e\<lparr>ep_id := i, pre_connector := k, rdma_channel_mgr := [Suc ep]\<rparr>)\<rparr>"
    using c ep unfolding w1 by (simp add: setup_rdma_channel_def RDMAChannel_new_def set_chan_def ep_defs Let_def)
  then show ?thesis using ep by (intro that) simp_all
qed

section \<open>Lemmas: growing the session\<close>

text \<open>Endpoint \<open>i\<close> of a session belongs to it and has one channel, whose index is \<open>i\<close>.\<close>

definition conn_entry :: "('w, 'z) ep_world_scheme \<Rightarrow> oref \<Rightarrow> nat \<Rightarrow> oref \<Rightarrow> bool" where
  "conn_entry w this i ep \<longleftrightarrow> ep < next_ref w \<and> (case endpoints w ep of None \<Rightarrow> False
     | Some e \<Rightarrow> registered_session e = this \<and> (case rdma_channel_mgr e of
         [ch] \<Rightarrow> ch < next_ref w \<and> (case channels w ch of None \<Rightarrow> False
           | Some c \<Rightarrow> indexed_by_session c = int i \<and> registered_endpoint c = ep)
       | _ \<Rightarrow> False))"

definition conn_inv :: "('w, 'z) ep_world_scheme \<Rightarrow> oref \<Rightarrow> bool" where
  "conn_inv w this \<longleftrightarrow> (case sessions w this of None \<Rightarrow> False
     | Some s \<Rightarrow> list_all (\<lambda>(i, ep). conn_entry w this i ep) (enumerate 0 (end_point_mgr s)))"

lemma conn_inv_iff:
  "conn_inv w this \<longleftrightarrow> (\<exists>s. sessions w this = Some s \<and> (\<forall>i < length (end_point_mgr s). conn_entry w this i (end_point_mgr s ! i)))"
  by (auto simp: conn_inv_def list_all_iff in_set_enumerate_eq split: option.splits)

lemma conn_entry_eps_ok: "conn_entry w this i ep \<Longrightarrow> eps_ok w [ep]"
  by (auto simp: eps_ok_def conn_entry_def split: option.splits list.splits)

lemma conn_inv_eps_ok: "conn_inv w this \<Longrightarrow> sessions w this = Some s \<Longrightarrow> eps_ok w (end_point_mgr s)"
  using conn_entry_eps_ok unfolding eps_ok_def conn_inv_iff list_all_length by fastforce

lemma conn_entry_mono:
  assumes "conn_entry w this i ep" and "next_ref w \<le> next_ref t"
    and "\<And>r. r < next_ref w \<Longrightarrow> endpoints t r = endpoints w r" and "\<And>r. r < next_ref w \<Longrightarrow> channels t r = channels w r"
  shows "conn_entry t this i ep"
  using assms by (auto simp: conn_entry_def split: option.splits list.splits)

lemma accept_new_connection_grows:
  assumes run: "accept_new_connection S fuel this fd cin w = Ret r t"
    and s: "sessions w this = Some s" and inv: "conn_inv w this"
  shows "conn_inv t this" "sessions t this = Some (s\<lparr>end_point_mgr := end_point_mgr s @ [next_ref w]\<rparr>)"
proof -
  let ?ep = "next_ref w"
  from run obtain x w1 where new0: "RDMAEndPoint_new S fuel fd (fst cin) (int (unat (snd cin))) this w = Ret x w1"
    by (auto simp: accept_new_connection_def outcome_simps)
  then have x: "x = ?ep" by (rule RDMAEndPoint_new_Ret)
  note new = new0 [unfolded x]
  from new obtain e h where e: "rdma_channel_mgr e = [Suc ?ep]" "registered_session e = this"
    and w1: "w1 = w\<lparr>hw := h, next_ref := Suc (Suc ?ep), channels := (channels w)(Suc ?ep \<mapsto> RDMAChannel_init ''DataChannel'' ?ep),
       endpoints := (endpoints w)(?ep \<mapsto> e)\<rparr>"
    by (rule RDMAEndPoint_new_Ret)
  let ?s = "s\<lparr>end_point_mgr := end_point_mgr s @ [?ep]\<rparr>"
  let ?c = "(RDMAChannel_init ''DataChannel'' ?ep)\<lparr>indexed_by_session := int (length (end_point_mgr s))\<rparr>"
  have t: "t = w1\<lparr>sessions := (sessions w)(this \<mapsto> ?s), channels := (channels w1)(Suc ?ep \<mapsto> ?c)\<rparr>"
    using run [unfolded accept_new_connection_def new bindO.simps] s e(1)
    by (simp add: w1 get_channel_def ep_defs nth_opt_def setup_index_in_session_def chan_defs)
  then show "sessions t this = Some ?s" by simp
  have old: "conn_entry t this i (end_point_mgr s ! i)" if "i < length (end_point_mgr s)" for i
  proof (rule conn_entry_mono [of w])
    show "conn_entry w this i (end_point_mgr s ! i)" using inv s that by (simp add: conn_inv_iff)
  qed (simp_all add: t w1)
  have "conn_entry t this (length (end_point_mgr s)) ?ep"
    using e by (simp add: conn_entry_def t w1 RDMAChannel_init_def)
  with old show "conn_inv t this" by (auto simp: conn_inv_iff t nth_append less_Suc_eq)
qed

lemma conn_inv_hw [simp]: "conn_inv (w\<lparr>hw := h\<rparr>) this = conn_inv w this"
  by (simp add: conn_inv_def conn_entry_def cong: option.case_cong list.case_cong)

lemma accept_loop_grows:
  assumes "accept_loop S fuel this fd n w = Ret u t" "sessions w this = Some s" "conn_inv w this"
  shows "conn_inv t this \<and> (\<exists>eps. length eps = n \<and> sessions t this = Some (s\<lparr>end_point_mgr := end_point_mgr s @ eps\<rparr>))"
  using assms
proof (induction n arbitrary: w s)
  case 0
  then show ?case by (auto intro: exI [of _ "[]"])
next
  case (Suc n)
  let ?w = "w\<lparr>hw := snd (os_accept S fd (hw w))\<rparr>"
  let ?a = "fst (os_accept S fd (hw w))"
  from Suc.prems(1) obtain r w1 where acc: "accept_new_connection S fuel this (fst ?a) (snd ?a) ?w = Ret r w1"
    and rest: "accept_loop S fuel this fd n w1 = Ret u t"
    by (auto simp: outcome_simps)
  from accept_new_connection_grows [OF acc] Suc.prems(2,3)
  have w1: "conn_inv w1 this" "sessions w1 this = Some (s\<lparr>end_point_mgr := end_point_mgr s @ [next_ref w]\<rparr>)" by simp_all
  from Suc.IH [OF rest w1(2,1)] obtain eps where "conn_inv t this" "length eps = n"
      "sessions t this = Some (s\<lparr>end_point_mgr := (end_point_mgr s @ [next_ref w]) @ eps\<rparr>)" by auto
  then show ?case by (auto intro!: exI [of _ "next_ref w # eps"])
qed

lemma server_init_session_grows:
  assumes run: "server_init_session S fuel this w = Ret () t"
    and s: "sessions w this = Some s" and inv: "conn_inv w this"
  shows "\<exists>eps. sessions t this = Some (s\<lparr>end_point_mgr := end_point_mgr s @ eps, is_connected := True\<rparr>) \<and>
    length eps = max 1 (length (cluster (work_env s))) \<and> conn_inv t this"
proof -
  from run s obtain fd w1 h t1 where sock: "allocate_socket S ''RDMAServerSession'' w = Ret fd w1"
    and loop: "\<exists>s1. sessions w1 this = Some s1 \<and>
      accept_loop S fuel this fd (max 1 (length (cluster (work_env s1)))) (w1\<lparr>hw := h\<rparr>) = Ret () t1"
    and t: "\<exists>s2. sessions t1 this = Some s2 \<and> t = set_sess this (s2\<lparr>is_connected := True\<rparr>) t1"
    by (auto simp: server_init_session_def deref_sess_def outcome_simps simp del: accept_loop.simps)
  from hw_onlyD [OF allocate_socket_hw [OF sock]] obtain h1 where "w1 = w\<lparr>hw := h1\<rparr>" by blast
  with loop s have "accept_loop S fuel this fd (max 1 (length (cluster (work_env s)))) (w\<lparr>hw := h\<rparr>) = Ret () t1" by auto
  from accept_loop_grows [OF this, of s] s inv obtain eps where eps: "length eps = max 1 (length (cluster (work_env s)))"
      "conn_inv t1 this" "sessions t1 this = Some (s\<lparr>end_point_mgr := end_point_mgr s @ eps\<rparr>)" by auto
  then have t': "t = set_sess this (s\<lparr>end_point_mgr := end_point_mgr s @ eps, is_connected := True\<rparr>) t1" using t by simp
  have "conn_entry t = conn_entry t1" unfolding t' by (intro ext) (simp add: conn_entry_def set_sess_def cong: option.case_cong list.case_cong)
  then have "conn_inv t this" using eps(2,3) by (simp add: conn_inv_iff t' set_sess_def)
  moreover have "sessions t this = Some (s\<lparr>end_point_mgr := end_point_mgr s @ eps, is_connected := True\<rparr>)" by (simp add: t' set_sess_def)
  ultimately show ?thesis using eps(1) by blast
qed

lemma accept_new_connection_stream:
  assumes "stream_socket S fd rx tx" "fd \<noteq> 0" "rx (hw w) = q # rest" "0 < fuel" "sessions w this = Some s"
  shows "\<exists>t. accept_new_connection S fuel this fd cin w = Ret 1 t \<and> rx (hw t) = rest"
proof -
  let ?ep = "next_ref w" and ?ip = "fst cin" and ?port = "int (unat (snd cin))"
  let ?e = "\<lparr>ep_id = ''RDMAEndPoint'', pre_connector = Some (TCPConnector_new S fd ?ip ?port (w\<lparr>next_ref := Suc ?ep\<rparr>)),
     rdma_channel_mgr = [], registered_session = this\<rparr>"
  let ?w = "\<lambda>i. w\<lparr>next_ref := Suc ?ep, endpoints := (endpoints w)(?ep \<mapsto> ?e\<lparr>ep_id := i\<rparr>)\<rparr>"
  have sock: "root_sock (TCPConnector_new S fd ?ip ?port (w\<lparr>next_ref := Suc ?ep\<rparr>)) = fd"
    by (simp add: TCPConnector_new_def split: prod.split)
  have "\<exists>h. sync_with_peer S fuel ?ep (?w i) = Ret () ((?w i)\<lparr>hw := h\<rparr>) \<and> rx h = rest" for i
    using ep_sync_stream [of "?w i" ?ep "?e\<lparr>ep_id := i\<rparr>" _ S rx tx 1 "string_bytes ''Q''" "[0]" fuel "\<lambda>_. ()"] assms sock
    by (auto simp: sync_with_peer_def socket_keeps_def string_bytes_def)
  then obtain h where sync: "\<And>i. sync_with_peer S fuel ?ep (?w i) = Ret () ((?w i)\<lparr>hw := h i\<rparr>)" and h: "\<And>i. rx (h i) = rest" by metis
  show ?thesis
    using assms(5) h
    by (simp add: accept_new_connection_def RDMAEndPoint_new_def Let_def ep_defs get_unique_id_def sync [simplified]
      setup_rdma_channel_def RDMAChannel_new_def chan_defs get_channel_def nth_opt_def setup_index_in_session_def)
qed

text \<open>The state after \<open>k\<close> connection attempts.\<close>

definition attempts :: "'w sys \<Rightarrow> int \<Rightarrow> string \<times> u16 \<Rightarrow> nat \<Rightarrow> 'w \<Rightarrow> 'w" where
  "attempts S fd addr k = ((\<lambda>h. snd (os_connect S fd addr h)) ^^ k)"

lemma attempts_Suc: "attempts S fd addr (Suc k) h = attempts S fd addr k (snd (os_connect S fd addr h))"
  by (simp add: attempts_def funpow_Suc_right del: funpow.simps)

lemma connect_loop_success:
  assumes "\<And>i. i < k \<Longrightarrow> fst (os_connect S fd addr (attempts S fd addr i (hw w))) \<noteq> 0"
    and "fst (os_connect S fd addr (attempts S fd addr k (hw w))) = 0" and "k \<le> n"
  shows "connect_loop S fd addr n w = Ret True (w\<lparr>hw := attempts S fd addr (Suc k) (hw w)\<rparr>)"
  using assms
proof (induction n arbitrary: k w)
  case 0
  then show ?case by (simp add: hw_call_eq attempts_def)
next
  case (Suc n)
  show ?case
  proof (cases k)
    case 0
    with Suc.prems(2) show ?thesis by (simp add: hw_call_eq attempts_def)
  next
    case k: (Suc m)
    let ?w = "w\<lparr>hw := snd (os_connect S fd addr (hw w))\<rparr>"
    have "connect_loop S fd addr n ?w = Ret True (?w\<lparr>hw := attempts S fd addr (Suc m) (hw ?w)\<rparr>)"
      using Suc.prems k by (intro Suc.IH) (auto simp: attempts_Suc [symmetric])
    moreover have "fst (os_connect S fd addr (hw w)) \<noteq> 0" using Suc.prems(1) [of 0] k by (simp add: attempts_def)
    ultimately show ?thesis using k by (simp add: hw_call_eq attempts_Suc)
  qed
qed

lemma connect_loop_failure:
  assumes "\<And>i. i \<le> n \<Longrightarrow> fst (os_connect S fd addr (attempts S fd addr i (hw w))) \<noteq> 0"
  shows "connect_loop S fd addr n w = Ret False (w\<lparr>hw := attempts S fd addr (Suc n) (hw w)\<rparr>)"
  using assms
proof (induction n arbitrary: w)
  case 0
  then show ?case by (simp add: hw_call_eq attempts_def)
next
  case (Suc n)
  let ?w = "w\<lparr>hw := snd (os_connect S fd addr (hw w))\<rparr>"
  have "connect_loop S fd addr n ?w = Ret False (?w\<lparr>hw := attempts S fd addr (Suc n) (hw ?w)\<rparr>)"
    using Suc.prems by (intro Suc.IH) (auto simp: attempts_Suc [symmetric])
  moreover have "fst (os_connect S fd addr (hw w)) \<noteq> 0" using Suc.prems [of 0] by (simp add: attempts_def)
  ultimately show ?case by (simp add: hw_call_eq attempts_Suc)
qed

section \<open>Properties\<close>

text \<open>Property C27. \<open>RDMAServerSession::init_session\<close>: when it returns, the session has as many new endpoints as the
  cluster has entries (one if there is none), is marked connected, and endpoint \<open>i\<close> has one channel,
  whose index in the session is \<open>i\<close>; the endpoints the session had are unchanged.\<close>

theorem server_accepts_cluster:
  assumes run: "server_init_session S fuel this w = Ret () t"
    and s: "sessions w this = Some s" and inv: "conn_inv w this"
  shows "\<exists>eps. sessions t this = Some (s\<lparr>end_point_mgr := end_point_mgr s @ eps, is_connected := True\<rparr>) \<and>
    length eps = max 1 (length (cluster (work_env s))) \<and> conn_inv t this \<and> eps_ok t (end_point_mgr s @ eps)"
proof -
  from server_init_session_grows [OF assms] obtain eps where
    "sessions t this = Some (s\<lparr>end_point_mgr := end_point_mgr s @ eps, is_connected := True\<rparr>)"
    "length eps = max 1 (length (cluster (work_env s)))" "conn_inv t this" by blast
  with conn_inv_eps_ok [of t this] show ?thesis by fastforce
qed


definition accept_world :: "lb_state ep_world" where
  "accept_world = group_world\<lparr>hw := lb_init\<lparr>lb_rx := string_bytes ''QQ''\<rparr>,
     sessions := [20 \<mapsto> \<lparr>work_env = sess_config\<lparr>cluster := [''12.12.12.112'', ''12.12.12.113'']\<rparr>, end_point_mgr = [], is_connected = False\<rparr>]\<rparr>"

lemma accept_loopback:
  assumes "sessions w 20 = Some s" "conn_inv (w :: lb_state ep_world) 20" "lb_rx (hw w) = q # rest"
  shows "\<exists>t s'. sessions t 20 = Some s' \<and> conn_inv t 20 \<and> lb_rx (hw t) = rest \<and>
    accept_loop loopback 1 20 3 (Suc n) w = accept_loop loopback 1 20 3 n t"
proof -
  let ?cin = "(''12.12.12.113'', 60878)"
  obtain t where t: "accept_new_connection loopback 1 20 4 ?cin w = Ret 1 t" "lb_rx (hw t) = rest"
    using accept_new_connection_stream [OF stream_socket_loopback, of 4 w q rest 1 20 s ?cin] assms by auto
  have acc: "os_accept loopback 3 h = ((4, ?cin), h)" for h by (simp add: loopback_def)
  show ?thesis
    using accept_new_connection_grows [OF t(1) assms(1,2)] t by (auto simp: hw_call_eq acc)
qed

theorem server_accepts_cluster_witness:
  "\<exists>t s. server_init_session loopback 1 20 accept_world = Ret () t \<and> sessions t 20 = Some s \<and> is_connected s \<and>
     length (end_point_mgr s) = 2 \<and> conn_inv t 20 \<and> eps_ok t (end_point_mgr s)"
proof -
  let ?s = "\<lparr>work_env = sess_config\<lparr>cluster := [''12.12.12.112'', ''12.12.12.113'']\<rparr>, end_point_mgr = [], is_connected = False\<rparr>"
  define h where "h = lb_init\<lparr>lb_rx := string_bytes ''QQ'', lb_opts := [(SO_REUSEADDR, 1), (SO_PRIORITY, 4), (IP_TOS, 16)]\<rparr>"
  have "allocate_socket loopback ''RDMAServerSession'' accept_world = Ret 3 (accept_world\<lparr>hw := h\<rparr>)"
    by (simp add: allocate_socket_def set_and_check_ip_tos_def set_and_check_ip_priority_def set_and_check_def set_socket_reuse_def
      hw_call_eq loopback_def accept_world_def h_def lb_init_def)
  moreover have "lb_rx h = string_bytes ''QQ''" by (simp add: h_def)
  ultimately have h: "allocate_socket loopback ''RDMAServerSession'' accept_world = Ret 3 (accept_world\<lparr>hw := h\<rparr>)" "lb_rx h = string_bytes ''QQ''"
    by simp_all
  have inv: "conn_inv (accept_world\<lparr>hw := h\<rparr>) 20" "sessions (accept_world\<lparr>hw := h\<rparr>) 20 = Some ?s" "sessions accept_world 20 = Some ?s"
    by (simp_all add: conn_inv_def accept_world_def)
  from accept_loopback [OF inv(2,1)] h(2) obtain t1 s1 where 1: "sessions t1 20 = Some s1" "conn_inv t1 20" "lb_rx (hw t1) = string_bytes ''Q''"
    "accept_loop loopback 1 20 3 2 (accept_world\<lparr>hw := h\<rparr>) = accept_loop loopback 1 20 3 1 t1"
    by (fastforce simp: string_bytes_def numeral_2_eq_2 simp del: accept_loop.simps)
  have rx1: "lb_rx (hw t1) = [char_byte CHR ''Q'']" using 1(3) by (simp add: string_bytes_def)
  from accept_loopback [OF 1(1,2) rx1, of 0] obtain t2 s2 where t2: "sessions t2 20 = Some s2"
      "accept_loop loopback 1 20 3 (Suc 0) t1 = accept_loop loopback 1 20 3 0 t2" by blast
  then have 2: "sessions t2 20 = Some s2" "accept_loop loopback 1 20 3 1 t1 = Ret () t2" by (simp_all only: One_nat_def accept_loop.simps(1))
  have bnd: "os_bind loopback fd a k = (0, k)" "os_listen loopback fd n k = (0, k)" for fd a n k by (simp_all add: loopback_def)
  have "server_init_session loopback 1 20 accept_world = Ret () (set_sess 20 (s2\<lparr>is_connected := True\<rparr>) t2)"
    using inv 1(4) 2 by (simp add: server_init_session_def h(1) ep_defs hw_call_eq bnd numeral_2_eq_2 del: accept_loop.simps)
  from server_accepts_cluster [OF this inv(3)] inv(1) this show ?thesis by auto
qed


text \<open>Property C28. \<open>RDMAClientSession::init_session\<close> stops trying at the first successful attempt among 3001 and then
  marks the session connected. If all of them fail it gives no error: it goes on to build an endpoint on
  the unconnected socket, with the session still marked unconnected.\<close>

theorem client_connect_attempts:
  assumes "allocate_socket S ''RDMAClientSession'' w = Ret fd w1" and "sessions w1 this = Some s"
    and "addr = (master_ip (work_env s), ucast (tcp_port (work_env s)))"
  shows "(\<forall>k \<le> 3000. (\<forall>i < k. fst (os_connect S fd addr (attempts S fd addr i (hw w1))) \<noteq> 0) \<and>
      fst (os_connect S fd addr (attempts S fd addr k (hw w1))) = 0 \<longrightarrow>
      client_init_session S fuel this w = bindO (accept_new_connection S fuel this fd addr
        (set_sess this (s\<lparr>is_connected := True\<rparr>) (w1\<lparr>hw := attempts S fd addr (Suc k) (hw w1)\<rparr>))) (\<lambda>_. Ret ())) \<and>
    ((\<forall>i \<le> 3000. fst (os_connect S fd addr (attempts S fd addr i (hw w1))) \<noteq> 0) \<longrightarrow>
      client_init_session S fuel this w = bindO (accept_new_connection S fuel this fd addr
        (w1\<lparr>hw := attempts S fd addr 3001 (hw w1)\<rparr>)) (\<lambda>_. Ret ()))"
proof -
  have *: "client_init_session S fuel this w = bindO (connect_loop S fd addr 3000 w1) (\<lambda>ok w.
      bindO (accept_new_connection S fuel this fd addr (if ok then set_sess this (s\<lparr>is_connected := True\<rparr>) w else w)) (\<lambda>_. Ret ()))"
    using assms by (simp add: client_init_session_def deref_sess_def Let_def)
  show ?thesis
  proof (intro conjI allI impI)
    fix k assume k: "k \<le> 3000" "(\<forall>i < k. fst (os_connect S fd addr (attempts S fd addr i (hw w1))) \<noteq> 0) \<and>
      fst (os_connect S fd addr (attempts S fd addr k (hw w1))) = 0"
    then have "connect_loop S fd addr 3000 w1 = Ret True (w1\<lparr>hw := attempts S fd addr (Suc k) (hw w1)\<rparr>)"
      by (intro connect_loop_success) simp_all
    then show "client_init_session S fuel this w = bindO (accept_new_connection S fuel this fd addr
        (set_sess this (s\<lparr>is_connected := True\<rparr>) (w1\<lparr>hw := attempts S fd addr (Suc k) (hw w1)\<rparr>))) (\<lambda>_. Ret ())"
      by (simp add: *)
  next
    assume "\<forall>i \<le> 3000. fst (os_connect S fd addr (attempts S fd addr i (hw w1))) \<noteq> 0"
    then have "connect_loop S fd addr 3000 w1 = Ret False (w1\<lparr>hw := attempts S fd addr (Suc 3000) (hw w1)\<rparr>)"
      by (intro connect_loop_failure) simp
    moreover have "Suc 3000 = 3001" by simp
    ultimately show "client_init_session S fuel this w = bindO (accept_new_connection S fuel this fd addr
        (w1\<lparr>hw := attempts S fd addr 3001 (hw w1)\<rparr>)) (\<lambda>_. Ret ())"
      by (simp only: * bindO.simps if_False)
  qed
qed

text \<open>A platform on which no connection can be made.\<close>

definition no_server :: "lb_state sys" where
  "no_server = loopback\<lparr>os_connect := (\<lambda>s a h. (- 1, h))\<rparr>"

theorem client_connect_attempts_witness:
  "client_init_session no_server 1 20 accept_world =
     bindO (accept_new_connection no_server 1 20 3 ([], 2020)
       (accept_world\<lparr>hw := lb_init\<lparr>lb_rx := string_bytes ''QQ'', lb_opts := [(SO_REUSEADDR, 1), (SO_PRIORITY, 4), (IP_TOS, 16)]\<rparr>\<rparr>))
       (\<lambda>_. Ret ())"
proof -
  let ?h = "lb_init\<lparr>lb_rx := string_bytes ''QQ'', lb_opts := [(SO_REUSEADDR, 1), (SO_PRIORITY, 4), (IP_TOS, 16)]\<rparr>"
  let ?s = "\<lparr>work_env = sess_config\<lparr>cluster := [''12.12.12.112'', ''12.12.12.113'']\<rparr>, end_point_mgr = [], is_connected = False\<rparr>"
  have 1: "allocate_socket no_server ''RDMAClientSession'' accept_world = Ret 3 (accept_world\<lparr>hw := ?h\<rparr>)"
    by (simp add: allocate_socket_def set_and_check_ip_tos_def set_and_check_ip_priority_def set_and_check_def set_socket_reuse_def
      hw_call_eq loopback_def no_server_def accept_world_def lb_init_def)
  have 2: "sessions (accept_world\<lparr>hw := ?h\<rparr>) 20 = Some ?s" by (simp add: accept_world_def)
  have 3: "([], 2020) = (master_ip (work_env ?s), ucast (tcp_port (work_env ?s)))"
    by (simp add: sess_config_def default_Config_def Config.defs)
  have c: "os_connect no_server fd a h = (- 1, h)" for fd a h by (simp add: no_server_def)
  have "attempts no_server fd a k h = h" for fd a k h by (induction k) (simp_all add: attempts_def c)
  with c show ?thesis using client_connect_attempts [OF 1 2 3, of 1] by simp
qed

end
