(* ===== verification/Default_Handlers.thy ===== *)
theory Default_Handlers
  imports Session_Setup
begin

text \<open>
  The callbacks a session starts with (\<open>src/rdma_session.cc\<close>, \<open>default_established_fn\<close> to
  \<open>default_process_recv_write_with_imm_done\<close>): a connection test in which the two sides greet each
  other, exchange the descriptors of a buffer for remote access, and then write to and read from the
  peer's buffer in turn. \<open>junk\<close> is the value of the uninitialised field \<open>fd_\<close> of a local
  \<open>CommDescriptor\<close>.
\<close>

section \<open>Buffers and messages of the test\<close>

definition test_buffer :: "string \<Rightarrow> oref \<Rightarrow> ('w, 'z) ep_world_scheme \<Rightarrow> (oref, ('w, 'z) ep_world_scheme) outcome" where
  "test_buffer prefix ch w = bindO (channel_get_id ch w) (\<lambda>i. find_buffer ch (prefix @ ''_for_test@'' @ i))"

definition quoted :: "string \<Rightarrow> string" where
  "quoted s = [CHR 0x27] @ s @ [CHR 0x27]"

definition greeting :: "oref \<Rightarrow> ('w, 'z) ep_world_scheme \<Rightarrow> (string, ('w, 'z) ep_world_scheme) outcome" where
  "greeting ch w = bindO (channel_info ch w) (\<lambda>i. Ret (''Greetings from '' @ i @ '' for '' @ quoted ''RDMA connection test''))"

abbreviation (input) strlen32 :: "string \<Rightarrow> u32" where
  "strlen32 s \<equiv> of_nat (length s)"

text \<open>\<open>std::string((char *)buffer->data_addr())\<close>: the bytes up to the first NUL, which has to come before
  the end of the buffer.\<close>

definition read_string :: "oref \<Rightarrow> ('w, 'z) ep_world_scheme \<Rightarrow> (unit, ('w, 'z) ep_world_scheme) outcome" where
  "read_string buf w =
     bindO (deref_buf buf w) (\<lambda>b w.
     defined_if (0 \<in> set (mem_read (data_ptr b) (unat (buffer_size b)) (mem w))) ''string without NUL'' w)"

text \<open>\<open>fill_in\<close> with a string, and \<open>recv_remote(b, b->buffer_size)\<close>, whose length is cut to 32 bits.\<close>

definition fill_string :: "oref \<Rightarrow> string \<Rightarrow> ('w, 'z) ep_world_scheme \<Rightarrow> (bool, ('w, 'z) ep_world_scheme) outcome" where
  "fill_string buf s w = fill_in buf (string_bytes s) (strlen32 s) w"

definition recv_whole :: "'w sys \<Rightarrow> oref \<Rightarrow> oref \<Rightarrow> ('w, 'z) ep_world_scheme \<Rightarrow> (bool, ('w, 'z) ep_world_scheme) outcome" where
  "recv_whole S ch buf w = bindO (deref_buf buf w) (\<lambda>b. recv_remote S ch buf (ucast (buffer_size b)))"

section \<open>The callbacks\<close>

definition establish_channel :: "'w sys \<Rightarrow> nat \<Rightarrow> oref \<Rightarrow> ('w, 'z) ep_world_scheme \<Rightarrow> (unit, ('w, 'z) ep_world_scheme) outcome" where
  "establish_channel S fuel ch w =
     bindO (channel_get_id ch w) (\<lambda>i w.
     bindO (allocate_buffer S 256 10 (''recv_buffer_for_test@'' @ i) w) (\<lambda>recv_buffer w.
     bindO (allocate_buffer S 256 10 (''send_buffer_for_test@'' @ i) w) (\<lambda>send_buffer w.
     bindO (allocate_buffer S 1000 10 (''read_buffer_for_test@'' @ i) w) (\<lambda>read_buffer w.
     bindO (allocate_buffer S 1000 10 (''write_buffer_for_test@'' @ i) w) (\<lambda>write_buffer w.
     bindO (allocate_buffer S 1000 10 (''read_write_sink_buffer_for_test@'' @ i) w) (\<lambda>rw_sink_buffer w.
     bindO (register_buffer S ch recv_buffer w) (\<lambda>_ w.
     bindO (register_buffer S ch send_buffer w) (\<lambda>_ w.
     bindO (register_buffer S ch read_buffer w) (\<lambda>_ w.
     bindO (register_buffer S ch write_buffer w) (\<lambda>_ w.
     bindO (register_buffer S ch rw_sink_buffer w) (\<lambda>_ w.
     bindO (buffer_clear recv_buffer w) (\<lambda>_ w.
     bindO (recv_whole S ch recv_buffer w) (\<lambda>_ w.
     bindO (recv_whole S ch recv_buffer w) (\<lambda>_ w.
     bindO (deref_chan ch w) (\<lambda>c w.
     bindO (sync_with_peer S fuel (registered_endpoint c) w) (\<lambda>_ w.
     bindO (greeting ch w) (\<lambda>base w.
     let tmp_send_buf = base @ '', count: '' in
     bindO (fill_string send_buffer tmp_send_buf w) (\<lambda>_ w.
     bindO (send_remote S ch send_buffer (strlen32 tmp_send_buf) (message_code TEST_FOR_SYNC_DATA) w) (\<lambda>_ w.
     Ret () w)))))))))))))))))))"

definition default_established_fn :: "'w sys \<Rightarrow> nat \<Rightarrow> oref list \<Rightarrow> ('w, 'z) ep_world_scheme \<Rightarrow>
    (unit, ('w, 'z) ep_world_scheme) outcome" where
  "default_established_fn S fuel chs w = forO (establish_channel S fuel) chs w"

definition default_process_send_done :: "ibv_wc \<Rightarrow> ('w, 'z) ep_world_scheme \<Rightarrow> (unit, ('w, 'z) ep_world_scheme) outcome" where
  "default_process_send_done wc w = Ret () w"

text \<open>The three branches of \<open>default_process_recv_done\<close>.\<close>

definition on_exchange_key :: "'w sys \<Rightarrow> u32 \<Rightarrow> oref \<Rightarrow> oref \<Rightarrow> oref \<Rightarrow> oref \<Rightarrow> string \<Rightarrow> ('w, 'z) ep_world_scheme \<Rightarrow>
    (unit, ('w, 'z) ep_world_scheme) outcome" where
  "on_exchange_key S junk ch recv_buffer send_buffer write_buffer base w =
     bindO (deref_buf recv_buffer w) (\<lambda>rb w.
     let remote = (bytes_CommDescriptor (mem_read (data_ptr rb) sizeof_CommDescriptor (mem w)))\<lparr>cd_fd := junk\<rparr> in
     bindO (insert_peer_buffer ch ''rw_sink_buffer_for_test'' remote w) (\<lambda>_ w.
     bindO (recv_whole S ch recv_buffer w) (\<lambda>_ w.
     bindO (send_remote S ch send_buffer (strlen32 base) (message_code RESPONSE_EXCHANGE_KEY) w) (\<lambda>_ w.
     let tmp_send_buf = ''[RDMA write/read test]: '' @ base in
     bindO (fill_string write_buffer tmp_send_buf w) (\<lambda>_ w.
     bindO (write_remote S ch write_buffer (strlen32 tmp_send_buf) remote (message_code RESPONSE_EXCHANGE_KEY) True w) (\<lambda>_ w.
     Ret () w))))))"

definition on_sync_data :: "'w sys \<Rightarrow> u32 \<Rightarrow> oref \<Rightarrow> oref \<Rightarrow> oref \<Rightarrow> ('w, 'z) ep_world_scheme \<Rightarrow>
    (unit, ('w, 'z) ep_world_scheme) outcome" where
  "on_sync_data S junk ch recv_buffer send_buffer w =
     bindO (read_string recv_buffer w) (\<lambda>_ w.
     bindO (recv_whole S ch recv_buffer w) (\<lambda>_ w.
     bindO (test_buffer ''read_write_sink_buffer'' ch w) (\<lambda>rw_sink_buffer w.
     bindO (deref_buf rw_sink_buffer w) (\<lambda>sb w.
     bindO (defined_if (buf_mr sb \<noteq> 0) ''mr_->rkey'' w) (\<lambda>_ w.
     let local = \<lparr>cd_buffer_addr = data_ptr sb, cd_buffer_length = buffer_size sb,
                  cd_rkey = ibv_mr_rkey S (buf_mr sb) (hw w), cd_fd = junk\<rparr> in
     bindO (fill_in send_buffer (CommDescriptor_bytes local) (of_nat sizeof_CommDescriptor) w) (\<lambda>_ w.
     bindO (send_remote S ch send_buffer (of_nat sizeof_CommDescriptor) (message_code REQUEST_EXCHANGE_KEY) w) (\<lambda>_ w.
     Ret () w)))))))"

definition on_other_message :: "'w sys \<Rightarrow> oref \<Rightarrow> oref \<Rightarrow> oref \<Rightarrow> string \<Rightarrow> ('w, 'z) ep_world_scheme \<Rightarrow>
    (unit, ('w, 'z) ep_world_scheme) outcome" where
  "on_other_message S ch recv_buffer send_buffer base w =
     bindO (read_string recv_buffer w) (\<lambda>_ w.
     bindO (recv_whole S ch recv_buffer w) (\<lambda>_ w.
     bindO (fill_string send_buffer base w) (\<lambda>_ w.
     bindO (send_remote S ch send_buffer (strlen32 base) (message_code UNSET) w) (\<lambda>_ w.
     Ret () w))))"

definition default_process_recv_done :: "'w sys \<Rightarrow> u32 \<Rightarrow> ibv_wc \<Rightarrow> ('w, 'z) ep_world_scheme \<Rightarrow>
    (unit, ('w, 'z) ep_world_scheme) outcome" where
  "default_process_recv_done S junk wc w =
     (let ch = wc_wr_id wc in
      bindO (test_buffer ''recv_buffer'' ch w) (\<lambda>recv_buffer w.
      bindO (test_buffer ''send_buffer'' ch w) (\<lambda>send_buffer w.
      bindO (test_buffer ''write_buffer'' ch w) (\<lambda>write_buffer w.
      bindO (check (recv_buffer \<noteq> 0 \<and> send_buffer \<noteq> 0) ''Invalid buffer query'' w) (\<lambda>_ w.
      bindO (greeting ch w) (\<lambda>base w.
      bindO (check (wc_with_imm wc) ''detected imm data failed to check for IBV_WC_RECV'' w) (\<lambda>_ w.
      if wc_imm_data wc = message_code REQUEST_EXCHANGE_KEY then on_exchange_key S junk ch recv_buffer send_buffer write_buffer base w
      else if wc_imm_data wc = message_code TEST_FOR_SYNC_DATA then on_sync_data S junk ch recv_buffer send_buffer w
      else on_other_message S ch recv_buffer send_buffer base w)))))))"

definition default_process_write_done :: "'w sys \<Rightarrow> ibv_wc \<Rightarrow> ('w, 'z) ep_world_scheme \<Rightarrow>
    (unit, ('w, 'z) ep_world_scheme) outcome" where
  "default_process_write_done S wc w =
     (let ch = wc_wr_id wc in
      bindO (test_buffer ''recv_buffer'' ch w) (\<lambda>recv_buffer w.
      bindO (test_buffer ''read_buffer'' ch w) (\<lambda>read_buffer w.
      bindO (find_peer_buffer ch ''rw_sink_buffer_for_test'' w) (\<lambda>remote w.
      case remote of
        None \<Rightarrow> Halt (CheckFailed ''Cannot find the remote buffer info for rw_sink_buffer_for_test'') w
      | Some r \<Rightarrow>
          bindO (check (recv_buffer \<noteq> 0 \<and> read_buffer \<noteq> 0) ''Invalid buffer query'' w) (\<lambda>_ w.
          bindO (buffer_clear read_buffer w) (\<lambda>_ w.
          bindO (deref_buf read_buffer w) (\<lambda>b w.
          bindO (read_remote S ch read_buffer (ucast (buffer_size b)) r w) (\<lambda>_ w.
          Ret () w))))))))"

definition default_process_read_done :: "'w sys \<Rightarrow> ibv_wc \<Rightarrow> ('w, 'z) ep_world_scheme \<Rightarrow>
    (unit, ('w, 'z) ep_world_scheme) outcome" where
  "default_process_read_done S wc w =
     (let ch = wc_wr_id wc in
      bindO (test_buffer ''write_buffer'' ch w) (\<lambda>write_buffer w.
      bindO (test_buffer ''read_buffer'' ch w) (\<lambda>read_buffer w.
      bindO (check (write_buffer \<noteq> 0 \<and> read_buffer \<noteq> 0) ''Invalid buffer query'' w) (\<lambda>_ w.
      bindO (find_peer_buffer ch ''rw_sink_buffer_for_test'' w) (\<lambda>remote w.
      case remote of
        None \<Rightarrow> Halt (CheckFailed ''Cannot find the remote buffer info for rw_sink_buffer_for_test'') w
      | Some r \<Rightarrow>
          bindO (read_string read_buffer w) (\<lambda>_ w.
          bindO (greeting ch w) (\<lambda>base w.
          let tmp_send_buf = ''[RDMA write/read test]: '' @ base in
          bindO (fill_string write_buffer tmp_send_buf w) (\<lambda>_ w.
          bindO (write_remote S ch write_buffer (strlen32 tmp_send_buf) r (message_code UNSET) False w) (\<lambda>_ w.
          Ret () w)))))))))"

definition default_process_recv_write_with_imm_done :: "'w sys \<Rightarrow> ibv_wc \<Rightarrow> ('w, 'z) ep_world_scheme \<Rightarrow>
    (unit, ('w, 'z) ep_world_scheme) outcome" where
  "default_process_recv_write_with_imm_done S wc w =
     (let ch = wc_wr_id wc in
      bindO (test_buffer ''recv_buffer'' ch w) (\<lambda>recv_buffer w.
      bindO (check (recv_buffer \<noteq> 0) ''Invalid buffer query'' w) (\<lambda>_ w.
      bindO (check (wc_with_imm wc) ''detected imm data failed to check for IBV_WC_RECV_RDMA_WITH_IMM'' w) (\<lambda>_ w.
      bindO (recv_whole S ch recv_buffer w) (\<lambda>_ w.
      Ret () w)))))"

text \<open>The table set up by the session's constructor.\<close>

definition default_callbacks :: "'w sys \<Rightarrow> nat \<Rightarrow> u32 \<Rightarrow> ('w, 'z) ep_world_scheme callbacks" where
  "default_callbacks S fuel junk =
     \<lparr>established_done = default_established_fn S fuel,
      process_send_done = default_process_send_done,
      process_recv_done = default_process_recv_done S junk,
      process_recv_write_with_imm_done = default_process_recv_write_with_imm_done S,
      process_write_done = default_process_write_done S,
      process_read_done = default_process_read_done S\<rparr>"

section \<open>Lemmas\<close>

lemma channel_get_id_eq:
  "channel_get_id ch w = Ret i t \<longleftrightarrow> t = w \<and> (\<exists>c e k s. channels w ch = Some c \<and> endpoints w (registered_endpoint c) = Some e \<and>
     pre_connector e = Some k \<and> sessions w (registered_session e) = Some s \<and>
     i = ''('' @ adapter_id c @ '')'' @ ''['' @ connection_id k @ '']@'' @ session_get_id s)"
  by (auto simp: channel_get_id_def endpoint_get_id_def ep_defs deref_chan_def deref_def split: option.splits)

lemma test_buffer_eq:
  "test_buffer prefix ch w = Ret r t \<longleftrightarrow> t = w \<and> (\<exists>i c. channel_get_id ch w = Ret i w \<and> channels w ch = Some c \<and>
     r = (case smap_find (owning_buffers c) (prefix @ ''_for_test@'' @ i) of None \<Rightarrow> 0 | Some x \<Rightarrow> x))"
  by (auto simp: test_buffer_def find_buffer_def deref_chan_def outcome_simps dest: channel_get_id_same)

lemma greeting_same: "greeting ch w = Ret s t \<Longrightarrow> t = w"
  by (auto simp: greeting_def channel_info_def outcome_simps dest: channel_get_id_same)

lemma read_string_same: "read_string buf w = Ret u t \<Longrightarrow> t = w"
  by (auto simp: read_string_def deref_buf_def outcome_simps)

lemma fill_in_Ret:
  assumes "fill_in x bs n w = Ret r t"
  obtains b where "buffers w x = Some b" "data_ptr b \<noteq> 0" "unat n \<le> length bs"
    "t = w\<lparr>mem := mem_write (data_ptr b) (take (unat n) bs) (memset0 (data_ptr b) (buffer_size b) (mem w))\<rparr>"
  using assms by (auto simp: fill_in_def buffer_clear_def buf_defs outcome_simps)

text \<open>Between two posts on a channel nothing changes but the counters, the device and the memory.\<close>

definition test_frame :: "oref \<Rightarrow> ('w, 'z) ep_world_scheme \<Rightarrow> ('w, 'z) ep_world_scheme \<Rightarrow> bool" where
  "test_frame ch w t \<longleftrightarrow> (\<exists>h m a sq rq p. channels w ch = Some a \<and> t = w\<lparr>hw := h, mem := m,
     channels := (channels w)(ch \<mapsto> a\<lparr>sq_inflight := sq, rq_inflight := rq, peer_buffer_mgr := p\<rparr>)\<rparr>)"

lemma chan_frame_test: "chan_frame ch w t \<Longrightarrow> test_frame ch w t"
  unfolding chan_frame_def test_frame_def
proof (elim exE conjE)
  fix h a sq rq
  assume "channels w ch = Some a" "t = w\<lparr>hw := h, channels := (channels w)(ch \<mapsto> a\<lparr>sq_inflight := sq, rq_inflight := rq\<rparr>)\<rparr>"
  then show "\<exists>h m a sq rq p. channels w ch = Some a \<and> t = w\<lparr>hw := h, mem := m,
     channels := (channels w)(ch \<mapsto> a\<lparr>sq_inflight := sq, rq_inflight := rq, peer_buffer_mgr := p\<rparr>)\<rparr>"
    by (intro exI [of _ h] exI [of _ "mem w"] exI [of _ a] exI [of _ sq] exI [of _ rq] exI [of _ "peer_buffer_mgr a"]) simp
qed

lemma test_frame_id: "test_frame ch w t \<Longrightarrow> channel_get_id ch t = Ret i u \<longleftrightarrow> u = t \<and> channel_get_id ch w = Ret i w"
  by (auto simp: test_frame_def channel_get_id_eq)

lemma test_frame_buffer: "test_frame ch w t \<Longrightarrow> test_buffer prefix ch t = Ret r u \<longleftrightarrow> u = t \<and> test_buffer prefix ch w = Ret r w"
  by (auto simp: test_buffer_eq test_frame_id) (auto simp: test_frame_def)


text \<open>\<open>posted k ch w t\<close>: from \<open>w\<close> to \<open>t\<close> the test has posted \<open>k\<close> requests on the channel.\<close>

definition posted :: "nat \<Rightarrow> oref \<Rightarrow> ('w, 'z) ep_world_scheme \<Rightarrow> ('w, 'z) ep_world_scheme \<Rightarrow> bool" where
  "posted k ch w t \<longleftrightarrow> test_frame ch w t \<and> inflight ch t = inflight ch w + int k"

lemma posted_frame: "posted k ch w t \<Longrightarrow> test_frame ch w t"
  by (simp add: posted_def)

lemma test_frameI:
  "channels w ch = Some a \<Longrightarrow> t = w\<lparr>hw := h, mem := m,
     channels := (channels w)(ch \<mapsto> a\<lparr>sq_inflight := sq, rq_inflight := rq, peer_buffer_mgr := p\<rparr>)\<rparr> \<Longrightarrow> test_frame ch w t"
  unfolding test_frame_def by blast

lemma posted_trans [trans]:
  assumes "posted j ch w u" and "posted k ch u t" shows "posted (j + k) ch w t"
proof -
  from assms(1) obtain h m a sq rq p where a: "channels w ch = Some a" and u: "u = w\<lparr>hw := h, mem := m,
     channels := (channels w)(ch \<mapsto> a\<lparr>sq_inflight := sq, rq_inflight := rq, peer_buffer_mgr := p\<rparr>)\<rparr>"
    by (auto simp: posted_def test_frame_def)
  from assms(2) obtain h' m' sq' rq' p' where "t = u\<lparr>hw := h', mem := m',
     channels := (channels u)(ch \<mapsto> a\<lparr>sq_inflight := sq', rq_inflight := rq', peer_buffer_mgr := p'\<rparr>)\<rparr>"
    by (auto simp: posted_def test_frame_def u)
  with a u have "test_frame ch w t" by (intro test_frameI [where a = a and h = h' and m = m' and sq = sq' and rq = rq' and p = p']) simp_all
  with assms show ?thesis by (simp add: posted_def)
qed

lemma posted_mem: "channels w ch \<noteq> None \<Longrightarrow> posted 0 ch w (w\<lparr>mem := m\<rparr>)"
proof -
  assume "channels w ch \<noteq> None"
  then obtain a where "channels w ch = Some a" by blast
  then have "test_frame ch w (w\<lparr>mem := m\<rparr>)"
    by (intro test_frameI [where a = a and h = "hw w" and m = m and sq = "sq_inflight a" and rq = "rq_inflight a" and p = "peer_buffer_mgr a"]) (simp_all add: map_upd_triv)
  then show ?thesis by (simp add: posted_def inflight_def)
qed

lemma posted_refl: "channels w ch \<noteq> None \<Longrightarrow> posted 0 ch w w"
  using posted_mem [of w ch "mem w"] by simp

lemma posted_channel: "posted k ch w t \<Longrightarrow> channels t ch \<noteq> None"
  by (auto simp: posted_def test_frame_def)

lemma posted_posts:
  "send_remote S ch buf len tag w = Ret r t \<Longrightarrow> posted 1 ch w t"
  "recv_remote S ch buf len w = Ret r t \<Longrightarrow> posted 1 ch w t"
  "read_remote S ch buf len d w = Ret r t \<Longrightarrow> posted 1 ch w t"
  "write_remote S ch buf len d tag notify w = Ret r t \<Longrightarrow> posted 1 ch w t"
  using send_remote_posts [of S ch buf len tag w r t] recv_remote_posts [of S ch buf len w r t]
    read_remote_posts [of S ch buf len d w r t] write_remote_posts [of S ch buf len d tag notify w r t]
  by (simp_all add: posted_def chan_frame_test)

lemma posted_recv_whole: "recv_whole S ch buf w = Ret r t \<Longrightarrow> posted 1 ch w t"
  by (auto simp: recv_whole_def deref_buf_def outcome_simps intro: posted_posts [unfolded One_nat_def])

lemma posted_fill: "fill_in buf bs n w = Ret r t \<Longrightarrow> channels w ch \<noteq> None \<Longrightarrow> posted 0 ch w t"
  by (erule fill_in_Ret) (simp add: posted_mem)

lemma posted_clear: "buffer_clear buf w = Ret r t \<Longrightarrow> channels w ch \<noteq> None \<Longrightarrow> posted 0 ch w t"
  by (auto simp: buffer_clear_def buf_defs outcome_simps intro: posted_mem)

lemma posted_insert:
  assumes "insert_peer_buffer ch key d w = Ret r t" shows "posted 0 ch w t"
proof -
  from assms obtain a where a: "channels w ch = Some a" by (auto simp: insert_peer_buffer_def deref_chan_def outcome_simps)
  show ?thesis
  proof (cases "umap_find (peer_buffer_mgr a) key")
    case None
    let ?p = "umap_insert key d (peer_buffer_mgr a)"
    have t: "t = w\<lparr>channels := (channels w)(ch \<mapsto> a\<lparr>peer_buffer_mgr := ?p\<rparr>)\<rparr>"
      using assms a None by (simp add: insert_peer_buffer_def chan_defs)
    have "test_frame ch w t"
      using a t by (intro test_frameI [where a = a and h = "hw w" and m = "mem w" and sq = "sq_inflight a" and rq = "rq_inflight a" and p = ?p]) simp_all
    with a t show ?thesis by (simp add: posted_def inflight_def)
  next
    case (Some x)
    with assms a show ?thesis by (simp add: insert_peer_buffer_def chan_defs posted_refl)
  qed
qed


lemma posted_on_exchange_key:
  assumes "on_exchange_key S junk ch rbuf sbuf wbuf base w = Ret () t" shows "posted 3 ch w t"
proof -
  from assms obtain d w1 w2 w3 w4 u1 u2 u3 u4 u5 m len where
    steps: "insert_peer_buffer ch ''rw_sink_buffer_for_test'' d w = Ret u1 w1" "recv_whole S ch rbuf w1 = Ret u2 w2"
      "send_remote S ch sbuf (strlen32 base) (message_code RESPONSE_EXCHANGE_KEY) w2 = Ret u3 w3"
      "fill_in wbuf m len w3 = Ret u4 w4" "write_remote S ch wbuf len d (message_code RESPONSE_EXCHANGE_KEY) True w4 = Ret u5 t"
    by (auto simp: on_exchange_key_def fill_string_def deref_buf_def Let_def outcome_simps)
  note 1 = posted_insert [OF steps(1)] and 2 = posted_recv_whole [OF steps(2)] and 3 = posted_posts(1) [OF steps(3)]
    and 4 = posted_fill [OF steps(4) posted_channel [OF posted_posts(1) [OF steps(3)]]] and 5 = posted_posts(4) [OF steps(5)]
  from posted_trans [OF posted_trans [OF posted_trans [OF posted_trans [OF 1 2] 3] 4] 5] show ?thesis by (simp add: eval_nat_numeral)
qed

lemma posted_on_sync_data:
  assumes "on_sync_data S junk ch rbuf sbuf w = Ret () t" shows "posted 2 ch w t"
proof -
  from assms obtain w1 w2 u1 u2 u3 m n len tag where
    steps: "recv_whole S ch rbuf w = Ret u1 w1" "fill_in sbuf m n w1 = Ret u2 w2" "send_remote S ch sbuf len tag w2 = Ret u3 t"
    by (auto simp: on_sync_data_def deref_buf_def Let_def outcome_simps test_buffer_eq dest!: read_string_same)
  note 1 = posted_recv_whole [OF steps(1)] and 3 = posted_posts(1) [OF steps(3)]
  note 2 = posted_fill [OF steps(2) posted_channel [OF 1]]
  from posted_trans [OF posted_trans [OF 1 2] 3] show ?thesis by (simp add: eval_nat_numeral)
qed

lemma posted_on_other_message:
  assumes "on_other_message S ch rbuf sbuf base w = Ret () t" shows "posted 2 ch w t"
proof -
  from assms obtain w1 w2 u1 u2 u3 m n where
    steps: "recv_whole S ch rbuf w = Ret u1 w1" "fill_in sbuf m n w1 = Ret u2 w2"
      "send_remote S ch sbuf n (message_code UNSET) w2 = Ret u3 t"
    by (auto simp: on_other_message_def fill_string_def outcome_simps dest!: read_string_same)
  note 1 = posted_recv_whole [OF steps(1)] and 3 = posted_posts(1) [OF steps(3)]
  note 2 = posted_fill [OF steps(2) posted_channel [OF 1]]
  from posted_trans [OF posted_trans [OF 1 2] 3] show ?thesis by (simp add: eval_nat_numeral)
qed

text \<open>How many requests the default callbacks post for a completion.\<close>

definition default_posts :: "ibv_wc \<Rightarrow> nat" where
  "default_posts wc = (case wc_opcode wc of
       IBV_WC_RECV \<Rightarrow> if wc_imm_data wc = message_code REQUEST_EXCHANGE_KEY then 3 else 2
     | IBV_WC_RDMA_WRITE \<Rightarrow> 1 | IBV_WC_RDMA_READ \<Rightarrow> 1 | IBV_WC_RECV_RDMA_WITH_IMM \<Rightarrow> 1 | _ \<Rightarrow> 0)"

lemma test_buffer_channel: "test_buffer prefix ch w = Ret r t \<Longrightarrow> t = w \<and> channels w ch \<noteq> None"
  by (auto simp: test_buffer_eq)

lemma posted_recv_done:
  assumes "default_process_recv_done S junk wc w = Ret () t"
  shows "posted (if wc_imm_data wc = message_code REQUEST_EXCHANGE_KEY then 3 else 2) (wc_wr_id wc) w t"
  using assms
  by (auto simp: default_process_recv_done_def Let_def outcome_simps
      dest!: test_buffer_channel greeting_same posted_on_exchange_key posted_on_sync_data posted_on_other_message split: if_splits)

lemma posted_write_done:
  assumes "default_process_write_done S wc w = Ret () t" shows "posted 1 (wc_wr_id wc) w t"
proof -
  from assms obtain r w1 u1 u2 len d where ch: "channels w (wc_wr_id wc) \<noteq> None" and
    steps: "buffer_clear r w = Ret u1 w1" "read_remote S (wc_wr_id wc) r len d w1 = Ret u2 t"
    by (auto simp: default_process_write_done_def Let_def outcome_simps find_peer_buffer_def deref_chan_def deref_buf_def
        split: option.splits dest!: test_buffer_channel)
  from posted_trans [OF posted_clear [OF steps(1) ch] posted_posts(3) [OF steps(2)]] show ?thesis by simp
qed

lemma posted_read_done:
  assumes "default_process_read_done S wc w = Ret () t" shows "posted 1 (wc_wr_id wc) w t"
proof -
  from assms obtain x m n w1 u1 u2 d where ch: "channels w (wc_wr_id wc) \<noteq> None" and
    steps: "fill_in x m n w = Ret u1 w1" "write_remote S (wc_wr_id wc) x n d (message_code UNSET) False w1 = Ret u2 t"
    by (auto simp: default_process_read_done_def Let_def outcome_simps find_peer_buffer_def deref_chan_def fill_string_def
        split: option.splits dest!: test_buffer_channel greeting_same read_string_same)
  from posted_trans [OF posted_fill [OF steps(1) ch] posted_posts(4) [OF steps(2)]] show ?thesis by simp
qed

lemma posted_recv_imm_done:
  "default_process_recv_write_with_imm_done S wc w = Ret () t \<Longrightarrow> posted 1 (wc_wr_id wc) w t"
  by (auto simp: default_process_recv_write_with_imm_done_def Let_def outcome_simps
      dest!: test_buffer_channel posted_recv_whole)


lemma dispatch_default:
  assumes "dispatch S (default_callbacks S fuel junk) ch0 wc w = Ret () t"
  shows "inflight ch t = inflight ch w + (if wc_wr_id wc = ch then int (default_posts wc) else 0)"
proof -
  have "posted (default_posts wc) (wc_wr_id wc) w t \<or> (t = w \<and> default_posts wc = 0)"
    using assms
    by (auto simp: dispatch_def default_callbacks_def default_process_send_done_def default_posts_def outcome_simps
        split: if_splits ibv_wc_opcode.splits
        dest: posted_recv_done posted_write_done [unfolded One_nat_def] posted_read_done [unfolded One_nat_def] posted_recv_imm_done [unfolded One_nat_def])
  then show ?thesis by (auto simp: posted_def test_frame_def inflight_def)
qed

section \<open>The key exchange\<close>

definition peers_of :: "oref \<Rightarrow> ('w, 'z) chan_world_scheme \<Rightarrow> (string, CommDescriptor) umap" where
  "peers_of ch w = (case channels w ch of None \<Rightarrow> Map.empty | Some c \<Rightarrow> peer_buffer_mgr c)"

lemma peers_of_posts:
  "send_remote S ch buf len tag w = Ret r t \<Longrightarrow> peers_of ch t = peers_of ch w"
  "write_remote S ch buf len d tag notify w = Ret r t \<Longrightarrow> peers_of ch t = peers_of ch w"
  "recv_whole S ch buf u = Ret r v \<Longrightarrow> peers_of ch v = peers_of ch u"
  "fill_in buf bs n u = Ret r v \<Longrightarrow> peers_of ch v = peers_of ch u"
  using send_remote_posts [of S ch buf len tag w r t] write_remote_posts [of S ch buf len d tag notify w r t]
  by (auto simp: chan_frame_def peers_of_def recv_whole_def deref_buf_def outcome_simps elim!: fill_in_Ret dest!: recv_remote_posts)

lemma on_exchange_key_stores:
  assumes run: "on_exchange_key S junk ch rbuf sbuf wbuf base w = Ret () t"
    and rb: "buffers w rbuf = Some rb" and new: "peers_of ch w ''rw_sink_buffer_for_test'' = None"
  shows "peers_of ch t ''rw_sink_buffer_for_test'' =
    Some ((bytes_CommDescriptor (mem_read (data_ptr rb) sizeof_CommDescriptor (mem w)))\<lparr>cd_fd := junk\<rparr>)"
proof -
  let ?d = "(bytes_CommDescriptor (mem_read (data_ptr rb) sizeof_CommDescriptor (mem w)))\<lparr>cd_fd := junk\<rparr>"
  from run rb obtain w1 w2 w3 w4 u1 u2 u3 u4 u5 m len where
    steps: "insert_peer_buffer ch ''rw_sink_buffer_for_test'' ?d w = Ret u1 w1" "recv_whole S ch rbuf w1 = Ret u2 w2"
      "send_remote S ch sbuf (strlen32 base) (message_code RESPONSE_EXCHANGE_KEY) w2 = Ret u3 w3"
      "fill_in wbuf m len w3 = Ret u4 w4" "write_remote S ch wbuf len ?d (message_code RESPONSE_EXCHANGE_KEY) True w4 = Ret u5 t"
    by (auto simp: on_exchange_key_def fill_string_def deref_buf_def Let_def outcome_simps)
  have "peers_of ch w1 ''rw_sink_buffer_for_test'' = Some ?d"
    using steps(1) new by (auto simp: insert_peer_buffer_def peers_of_def chan_defs outcome_simps umap_find_def umap_insert_def split: option.splits)
  with peers_of_posts(3) [OF steps(2)] peers_of_posts(1) [OF steps(3)] peers_of_posts(4) [OF steps(4)] peers_of_posts(2) [OF steps(5)]
  show ?thesis by simp
qed

text \<open>The remote key of a memory region is fixed when the region is registered.\<close>

definition rkey_fixed :: "'w sys \<Rightarrow> bool" where
  "rkey_fixed S \<longleftrightarrow> (\<forall>mr qp wr h. ibv_mr_rkey S mr (snd (ibv_post_recv S qp wr h)) = ibv_mr_rkey S mr h)"

lemma recv_whole_rkey:
  assumes "recv_whole S ch buf w = Ret r t" "rkey_fixed S"
  shows "ibv_mr_rkey S mr (hw t) = ibv_mr_rkey S mr (hw w)" "buffers t = buffers w"
  using assms by (auto simp: recv_whole_def deref_buf_def recv_remote_def usable_buffer_def security_check_def buf_defs post_simps rkey_fixed_def)

lemma on_sync_data_sends:
  assumes run: "on_sync_data S junk ch rbuf sbuf w = Ret () t" and rk: "rkey_fixed S"
    and sb: "buffers w sbuf = Some sb" and sink: "test_buffer ''read_write_sink_buffer'' ch w = Ret sink w" "buffers w sink = Some b"
  shows "mem_read (data_ptr sb) sizeof_CommDescriptor (mem t) = CommDescriptor_bytes \<lparr>cd_buffer_addr = data_ptr b,
    cd_buffer_length = buffer_size b, cd_rkey = ibv_mr_rkey S (buf_mr b) (hw w), cd_fd = junk\<rparr>"
proof -
  from run obtain w1 u1 where rcv: "recv_whole S ch rbuf w = Ret u1 w1"
    by (auto simp: on_sync_data_def outcome_simps dest!: read_string_same)
  from recv_whole_rkey [OF rcv rk] have k: "\<And>mr. ibv_mr_rkey S mr (hw w1) = ibv_mr_rkey S mr (hw w)" "buffers w1 = buffers w" by simp_all
  have sink1: "test_buffer ''read_write_sink_buffer'' ch w1 = Ret sink w1"
    using test_frame_buffer [OF posted_frame [OF posted_recv_whole [OF rcv]]] sink(1) by simp
  let ?d = "\<lparr>cd_buffer_addr = data_ptr b, cd_buffer_length = buffer_size b, cd_rkey = ibv_mr_rkey S (buf_mr b) (hw w), cd_fd = junk\<rparr>"
  from run rcv sink1 k sink(2) obtain w2 u2 u3 where fill: "fill_in sbuf (CommDescriptor_bytes ?d) (of_nat sizeof_CommDescriptor) w1 = Ret u2 w2"
    and snd: "send_remote S ch sbuf (of_nat sizeof_CommDescriptor) (message_code REQUEST_EXCHANGE_KEY) w2 = Ret u3 t"
    by (auto simp: on_sync_data_def deref_buf_def Let_def outcome_simps simp del: message_code.simps dest!: read_string_same)
  from send_remote_posts [OF snd] have "mem t = mem w2" by (auto simp: chan_frame_def)
  moreover from fill k sb have "mem w2 = mem_write (data_ptr sb) (CommDescriptor_bytes ?d) (memset0 (data_ptr sb) (buffer_size sb) (mem w1))"
    by (elim fill_in_Ret) simp
  ultimately show ?thesis using mem_read_write [of "CommDescriptor_bytes ?d"] by simp
qed

lemma recv_done_sync:
  assumes "default_process_recv_done S junk wc w = Ret () t" "wc_imm_data wc = message_code TEST_FOR_SYNC_DATA"
    and "test_buffer ''recv_buffer'' (wc_wr_id wc) w = Ret r w" "test_buffer ''send_buffer'' (wc_wr_id wc) w = Ret s w"
  shows "on_sync_data S junk (wc_wr_id wc) r s w = Ret () t"
  using assms
  by (auto simp: default_process_recv_done_def Let_def outcome_simps split: if_splits dest!: test_buffer_channel greeting_same)

section \<open>The test goes on\<close>

text \<open>The device takes every request (the queues never fill up, the queue pair is ready).\<close>

definition posts_accepted :: "'w sys \<Rightarrow> bool" where
  "posts_accepted S \<longleftrightarrow> (\<forall>qp wr h. fst (ibv_post_send S qp wr h) = 0) \<and> (\<forall>qp wr h. fst (ibv_post_recv S qp wr h) = 0)"

text \<open>A registered buffer with room for \<open>n\<close> bytes, and the buffer the channel has for a purpose.\<close>

definition armed :: "RDMABuffer \<Rightarrow> nat \<Rightarrow> bool" where
  "armed b n \<longleftrightarrow> data_ptr b \<noteq> 0 \<and> owned_by_channel b \<noteq> 0 \<and> buf_mr b \<noteq> 0 \<and> n \<le> unat (buffer_size b) \<and>
     buffer_size b \<noteq> 0 \<and> unat (buffer_size b) < 2 ^ 32"

definition has_buffer :: "nat \<Rightarrow> oref \<Rightarrow> ('w, 'z) ep_world_scheme \<Rightarrow> string \<Rightarrow> bool" where
  "has_buffer n ch w prefix \<longleftrightarrow> (\<exists>r b. test_buffer prefix ch w = Ret r w \<and> r \<noteq> 0 \<and> buffers w r = Some b \<and> armed b n)"

definition test_ready :: "nat \<Rightarrow> oref \<Rightarrow> ('w, 'z) ep_world_scheme \<Rightarrow> bool" where
  "test_ready n ch w \<longleftrightarrow> channels w ch \<noteq> None \<and> (\<exists>base. greeting ch w = Ret base w \<and> length base + 24 \<le> n) \<and>
     list_all (has_buffer n ch w) [''recv_buffer'', ''send_buffer'', ''read_buffer'', ''write_buffer'', ''read_write_sink_buffer'']"

lemma test_ready_frame:
  assumes "test_frame ch w t" and "test_ready n ch w" shows "test_ready n ch t"
proof -
  have b: "buffers t = buffers w" using assms(1) by (auto simp: test_frame_def)
  have "greeting ch w = Ret base w \<Longrightarrow> greeting ch t = Ret base t" for base
    using test_frame_id [OF assms(1)] by (auto simp: greeting_def channel_info_def outcome_simps dest: channel_get_id_same)
  moreover have "has_buffer n ch t = has_buffer n ch w"
    by (intro ext) (simp add: has_buffer_def test_frame_buffer [OF assms(1)] b)
  moreover have "channels t ch \<noteq> None" using assms(1) by (auto simp: test_frame_def)
  ultimately show ?thesis using assms(2) by (auto simp: test_ready_def)
qed

lemmas test_ready_posted = test_ready_frame [OF posted_frame]

lemma usable_armed:
  assumes "buffers w r = Some b" "armed b n" "r \<noteq> 0" "unat len \<le> unat (buffer_size b)" "\<forall>m. limit = Some m \<longrightarrow> unat len \<le> unat m"
  shows "usable_buffer r len limit w = Ret b w"
  using assms by (auto simp: usable_buffer_def security_check_def buf_defs armed_def post_len check_def split: option.splits)

lemma post_armed:
  assumes S: "posts_accepted S" and b: "buffers w r = Some b" "armed b n" "r \<noteq> 0" "unat len \<le> unat (buffer_size b)"
    and ch: "channels w ch \<noteq> None"
  shows "\<exists>t. send_remote S ch r len tag w = Ret True t" "\<exists>t. recv_remote S ch r len w = Ret True t"
    "unat len \<le> unat (cd_buffer_length d) \<Longrightarrow> \<exists>t. read_remote S ch r len d w = Ret True t"
    "unat len \<le> unat (cd_buffer_length d) \<Longrightarrow> \<exists>t. write_remote S ch r len d tag notify w = Ret True t"
proof -
  from ch obtain c where c: "channels w ch = Some c" by blast
  from b(2) have mr: "0 < buf_mr b" by (simp add: armed_def)
  note simps = usable_armed [OF b] c mr S [unfolded posts_accepted_def] add_sqe_def add_rqe_def chan_defs hw_call_eq post_send_def
    real_send_def real_recv_def real_read_remote_def real_write_remote_def real_write_remote_with_notify_def
  show "\<exists>t. send_remote S ch r len tag w = Ret True t" by (simp add: send_remote_def simps)
  show "\<exists>t. recv_remote S ch r len w = Ret True t" by (simp add: recv_remote_def simps)
  assume "unat len \<le> unat (cd_buffer_length d)"
  then show "\<exists>t. read_remote S ch r len d w = Ret True t" "\<exists>t. write_remote S ch r len d tag notify w = Ret True t"
    by (simp_all add: read_remote_def write_remote_def simps Let_def)
qed

lemma recv_whole_armed:
  assumes "posts_accepted S" "buffers w r = Some b" "armed b n" "r \<noteq> 0" "channels w ch \<noteq> None"
  shows "\<exists>t. recv_whole S ch r w = Ret True t"
proof -
  have "unat (ucast (buffer_size b) :: u32) = unat (buffer_size b)" using assms(3) by (simp add: armed_def unsigned_ucast_eq take_bit_nat_eq_self)
  with post_armed(2) [OF assms(1-4) _ assms(5), of "ucast (buffer_size b)"] assms(2) show ?thesis
    by (simp add: recv_whole_def deref_buf_def)
qed

lemma fill_armed:
  assumes "buffers w r = Some b" "armed b n" "unat m \<le> unat (buffer_size b)" "unat m \<le> length bs"
  shows "\<exists>t. fill_in r bs m w = Ret True t"
  using assms by (simp add: fill_in_eq armed_def)

text \<open>The buffer \<open>r\<close> of a purpose, and that it stays the same while the test posts.\<close>

definition buf_ready :: "nat \<Rightarrow> oref \<Rightarrow> ('w, 'z) ep_world_scheme \<Rightarrow> string \<Rightarrow> oref \<Rightarrow> RDMABuffer \<Rightarrow> bool" where
  "buf_ready n ch w prefix r b \<longleftrightarrow> test_buffer prefix ch w = Ret r w \<and> r \<noteq> 0 \<and> buffers w r = Some b \<and> armed b n"

lemma buf_ready_posted: "posted k ch w t \<Longrightarrow> buf_ready n ch w prefix r b \<Longrightarrow> buf_ready n ch t prefix r b"
  using test_frame_buffer [OF posted_frame, of k ch w t] by (auto simp: buf_ready_def posted_def test_frame_def)

lemma has_buffer_ready: "has_buffer n ch w prefix \<longleftrightarrow> (\<exists>r b. buf_ready n ch w prefix r b)"
  by (simp add: has_buffer_def buf_ready_def)

lemma unat_strlen32: "length s \<le> n \<Longrightarrow> armed b n \<Longrightarrow> unat (strlen32 s) = length s"
  by (simp add: armed_def unat_of_nat take_bit_nat_eq_self)

lemma ready_steps:
  assumes S: "posts_accepted S" and b: "buf_ready n ch w prefix r b"
  shows "\<exists>t. recv_whole S ch r w = Ret True t \<and> posted 1 ch w t"
    "length s \<le> n \<Longrightarrow> \<exists>t. send_remote S ch r (strlen32 s) tag w = Ret True t \<and> posted 1 ch w t"
    "length s \<le> n \<Longrightarrow> \<exists>t. fill_string r s w = Ret True t \<and> posted 0 ch w t"
    "length s \<le> n \<Longrightarrow> length s \<le> unat (cd_buffer_length d) \<Longrightarrow>
      \<exists>t. write_remote S ch r (strlen32 s) d tag notify w = Ret True t \<and> posted 1 ch w t"
proof -
  from b have f: "buffers w r = Some b" "armed b n" "r \<noteq> 0" and ch: "channels w ch \<noteq> None"
    by (auto simp: buf_ready_def dest: test_buffer_channel)
  have n: "n \<le> unat (buffer_size b)" using f(2) by (simp add: armed_def)
  show "\<exists>t. recv_whole S ch r w = Ret True t \<and> posted 1 ch w t"
    using recv_whole_armed [OF S f ch] posted_recv_whole by blast
  show "\<exists>t. send_remote S ch r (strlen32 s) tag w = Ret True t \<and> posted 1 ch w t" if "length s \<le> n"
    using post_armed(1) [OF S f _ ch, of "strlen32 s" tag] unat_strlen32 [OF that f(2)] that n posted_posts(1) by fastforce
  show "\<exists>t. fill_string r s w = Ret True t \<and> posted 0 ch w t" if "length s \<le> n"
    using fill_armed [OF f(1,2), of "strlen32 s" "string_bytes s"] unat_strlen32 [OF that f(2)] that n posted_fill [OF _ ch]
    by (fastforce simp: fill_string_def string_bytes_def)
  show "\<exists>t. write_remote S ch r (strlen32 s) d tag notify w = Ret True t \<and> posted 1 ch w t"
    if "length s \<le> n" "length s \<le> unat (cd_buffer_length d)"
    using post_armed(4) [OF S f _ ch, of "strlen32 s" d tag notify] unat_strlen32 [OF that(1) f(2)] that n posted_posts(4) by fastforce
qed

lemma on_other_message_goes_on:
  assumes S: "posts_accepted S" and r: "buf_ready n ch w ''recv_buffer'' r rb" "read_string r w = Ret () w"
    and s: "buf_ready n ch w ''send_buffer'' s sb" and base: "length base \<le> n"
  shows "\<exists>t. on_other_message S ch r s base w = Ret () t"
proof -
  obtain w1 where 1: "recv_whole S ch r w = Ret True w1" "posted 1 ch w w1" using ready_steps(1) [OF S r(1)] by blast
  note s1 = buf_ready_posted [OF 1(2) s]
  obtain w2 where 2: "fill_string s base w1 = Ret True w2" "posted 0 ch w1 w2" using ready_steps(3) [OF S s1 base] by blast
  obtain w3 where "send_remote S ch s (strlen32 base) (message_code UNSET) w2 = Ret True w3"
    using ready_steps(2) [OF S buf_ready_posted [OF 2(2) s1] base] by blast
  then show ?thesis using r(2) 1(1) 2(1) by (simp add: on_other_message_def)
qed

lemma on_sync_data_goes_on:
  assumes S: "posts_accepted S" and r: "buf_ready n ch w ''recv_buffer'' r rb" "read_string r w = Ret () w"
    and s: "buf_ready n ch w ''send_buffer'' s sb" and k: "buf_ready n ch w ''read_write_sink_buffer'' x kb" and n: "24 \<le> n"
  shows "\<exists>t. on_sync_data S junk ch r s w = Ret () t"
proof -
  obtain w1 where 1: "recv_whole S ch r w = Ret True w1" "posted 1 ch w w1" using ready_steps(1) [OF S r(1)] by blast
  note s1 = buf_ready_posted [OF 1(2) s] and k1 = buf_ready_posted [OF 1(2) k]
  let ?d = "\<lparr>cd_buffer_addr = data_ptr kb, cd_buffer_length = buffer_size kb, cd_rkey = ibv_mr_rkey S (buf_mr kb) (hw w1), cd_fd = junk\<rparr>"
  have n': "24 \<le> unat (buffer_size sb)" using s n by (simp add: buf_ready_def armed_def)
  from s1 have "\<exists>t. fill_in s (CommDescriptor_bytes ?d) 24 w1 = Ret True t"
    using n' by (intro fill_armed [where b = sb and n = n]) (simp_all add: buf_ready_def)
  then obtain w2 where 2: "fill_in s (CommDescriptor_bytes ?d) 24 w1 = Ret True w2" by blast
  have p2: "posted 0 ch w1 w2" using posted_fill [OF 2 posted_channel [OF 1(2)]] .
  have "\<exists>t. send_remote S ch s 24 (message_code REQUEST_EXCHANGE_KEY) w2 = Ret True t"
    using buf_ready_posted [OF p2 s1] n' posted_channel [OF p2]
    by (intro post_armed(1) [OF S, where b = sb and n = n]) (simp_all add: buf_ready_def)
  then obtain w3 where "send_remote S ch s 24 (message_code REQUEST_EXCHANGE_KEY) w2 = Ret True w3" by blast
  moreover have "0 < buf_mr kb" "buffers w1 x = Some kb" "test_buffer ''read_write_sink_buffer'' ch w1 = Ret x w1"
    using k1 by (simp_all add: buf_ready_def armed_def)
  ultimately show ?thesis using r(2) 1(1) 2 by (simp add: on_sync_data_def deref_buf_def Let_def del: message_code.simps)
qed

lemma on_exchange_key_goes_on:
  assumes S: "posts_accepted S" and r: "buf_ready n ch w ''recv_buffer'' r rb"
    and s: "buf_ready n ch w ''send_buffer'' s sb" and x: "buf_ready n ch w ''write_buffer'' x xb" and n: "length base + 24 \<le> n"
    and room: "length base + 24 \<le> unat (cd_buffer_length (bytes_CommDescriptor (mem_read (data_ptr rb) sizeof_CommDescriptor (mem w))))"
  shows "\<exists>t. on_exchange_key S junk ch r s x base w = Ret () t"
proof -
  let ?d = "(bytes_CommDescriptor (mem_read (data_ptr rb) sizeof_CommDescriptor (mem w)))\<lparr>cd_fd := junk\<rparr>"
  let ?msg = "''[RDMA write/read test]: '' @ base"
  have ch: "channels w ch \<noteq> None" and rb: "buffers w r = Some rb" using r by (auto simp: buf_ready_def dest: test_buffer_channel)
  then have "returns (insert_peer_buffer ch ''rw_sink_buffer_for_test'' ?d w)"
    by (auto simp: insert_peer_buffer_def deref_chan_def split: option.splits)
  then obtain u w1 where 1: "insert_peer_buffer ch ''rw_sink_buffer_for_test'' ?d w = Ret u w1" by (rule returnsE)
  note p1 = posted_insert [OF 1]
  obtain w2 where 2: "recv_whole S ch r w1 = Ret True w2" "posted 1 ch w1 w2"
    using ready_steps(1) [OF S buf_ready_posted [OF p1 r]] by blast
  note p2 = posted_trans [OF p1 2(2)]
  obtain w3 where 3: "send_remote S ch s (strlen32 base) (message_code RESPONSE_EXCHANGE_KEY) w2 = Ret True w3" "posted 1 ch w2 w3"
    using ready_steps(2) [OF S buf_ready_posted [OF p2 s], of base] n by auto
  note p3 = posted_trans [OF p2 3(2)]
  obtain w4 where 4: "fill_string x ?msg w3 = Ret True w4" "posted 0 ch w3 w4"
    using ready_steps(3) [OF S buf_ready_posted [OF p3 x], of ?msg] n by auto
  obtain w5 where "write_remote S ch x (strlen32 ?msg) ?d (message_code RESPONSE_EXCHANGE_KEY) True w4 = Ret True w5"
    using ready_steps(4) [OF S buf_ready_posted [OF posted_trans [OF p3 4(2)] x], of ?msg ?d] n room by auto
  then show ?thesis using rb 1 2(1) 3(1) 4(1) by (simp add: on_exchange_key_def deref_buf_def Let_def del: message_code.simps)
qed

lemma write_done_goes_on:
  assumes S: "posts_accepted S" and r: "buf_ready n (wc_wr_id wc) w ''recv_buffer'' r rb"
    and x: "buf_ready n (wc_wr_id wc) w ''read_buffer'' x xb"
    and d: "peers_of (wc_wr_id wc) w ''rw_sink_buffer_for_test'' = Some d" "unat (buffer_size xb) \<le> unat (cd_buffer_length d)"
  shows "\<exists>t. default_process_write_done S wc w = Ret () t"
proof -
  let ?ch = "wc_wr_id wc"
  have ch: "channels w ?ch \<noteq> None" using x by (auto simp: buf_ready_def dest: test_buffer_channel)
  have 1: "buffer_clear x w = Ret True (w\<lparr>mem := memset0 (data_ptr xb) (buffer_size xb) (mem w)\<rparr>)"
    using x by (simp add: buffer_clear_def buf_defs buf_ready_def armed_def)
  let ?w = "w\<lparr>mem := memset0 (data_ptr xb) (buffer_size xb) (mem w)\<rparr>"
  have f: "buffers ?w x = Some xb" "armed xb n" "x \<noteq> 0" using x by (simp_all add: buf_ready_def)
  have len: "unat (ucast (buffer_size xb) :: u32) = unat (buffer_size xb)"
    using f(2) by (simp add: armed_def unsigned_ucast_eq take_bit_nat_eq_self)
  have "\<exists>t. read_remote S ?ch x (ucast (buffer_size xb)) d ?w = Ret True t"
    using post_armed(3) [OF S f, of "ucast (buffer_size xb)" ?ch d] len d(2) ch by simp
  then obtain t where "read_remote S ?ch x (ucast (buffer_size xb)) d ?w = Ret True t" by blast
  moreover have "find_peer_buffer ?ch ''rw_sink_buffer_for_test'' w = Ret (Some d) w"
    using d(1) by (auto simp: find_peer_buffer_def deref_chan_def peers_of_def umap_find_def split: option.splits)
  moreover have "test_buffer ''recv_buffer'' ?ch w = Ret r w" "test_buffer ''read_buffer'' ?ch w = Ret x w" "r \<noteq> 0"
    using r x by (simp_all add: buf_ready_def)
  ultimately show ?thesis using 1 f by (simp add: default_process_write_done_def deref_buf_def Let_def)
qed

lemma read_done_goes_on:
  assumes S: "posts_accepted S" and r: "buf_ready n (wc_wr_id wc) w ''write_buffer'' r rb"
    and x: "buf_ready n (wc_wr_id wc) w ''read_buffer'' x xb" "read_string x w = Ret () w"
    and base: "greeting (wc_wr_id wc) w = Ret base w" "length base + 24 \<le> n"
    and d: "peers_of (wc_wr_id wc) w ''rw_sink_buffer_for_test'' = Some d" "length base + 24 \<le> unat (cd_buffer_length d)"
  shows "\<exists>t. default_process_read_done S wc w = Ret () t"
proof -
  let ?ch = "wc_wr_id wc" and ?msg = "''[RDMA write/read test]: '' @ base"
  obtain w1 where 1: "fill_string r ?msg w = Ret True w1" "posted 0 ?ch w w1" using ready_steps(3) [OF S r, of ?msg] base(2) by auto
  obtain t where "write_remote S ?ch r (strlen32 ?msg) d (message_code UNSET) False w1 = Ret True t"
    using ready_steps(4) [OF S buf_ready_posted [OF 1(2) r], of ?msg d] base(2) d(2) by auto
  moreover have "find_peer_buffer ?ch ''rw_sink_buffer_for_test'' w = Ret (Some d) w"
    using d(1) by (auto simp: find_peer_buffer_def deref_chan_def peers_of_def umap_find_def split: option.splits)
  moreover have "test_buffer ''write_buffer'' ?ch w = Ret r w" "test_buffer ''read_buffer'' ?ch w = Ret x w" "x \<noteq> 0" "r \<noteq> 0"
    using r x by (simp_all add: buf_ready_def)
  ultimately show ?thesis using 1(1) x(2) base(1) by (simp add: default_process_read_done_def Let_def del: message_code.simps)
qed

text \<open>A completion the test can handle: it succeeded, carries immediate data where the test expects it, the
  received text ends, and the peer's buffer has been announced and is large enough.\<close>

definition acceptable :: "ibv_wc \<Rightarrow> ('w, 'z) ep_world_scheme \<Rightarrow> bool" where
  "acceptable wc w \<longleftrightarrow> wc_status wc = IBV_WC_SUCCESS \<and> (\<exists>base. greeting (wc_wr_id wc) w = Ret base w \<and>
     (case wc_opcode wc of
        IBV_WC_SEND \<Rightarrow> True
      | IBV_WC_RECV \<Rightarrow> wc_with_imm wc \<and> (\<exists>r b. test_buffer ''recv_buffer'' (wc_wr_id wc) w = Ret r w \<and> buffers w r = Some b \<and>
          (if wc_imm_data wc = message_code REQUEST_EXCHANGE_KEY
           then length base + 24 \<le> unat (cd_buffer_length (bytes_CommDescriptor (mem_read (data_ptr b) sizeof_CommDescriptor (mem w))))
           else read_string r w = Ret () w))
      | IBV_WC_RDMA_WRITE \<Rightarrow> (\<exists>d r b. peers_of (wc_wr_id wc) w ''rw_sink_buffer_for_test'' = Some d \<and>
          test_buffer ''read_buffer'' (wc_wr_id wc) w = Ret r w \<and> buffers w r = Some b \<and> unat (buffer_size b) \<le> unat (cd_buffer_length d))
      | IBV_WC_RDMA_READ \<Rightarrow> (\<exists>d r. peers_of (wc_wr_id wc) w ''rw_sink_buffer_for_test'' = Some d \<and>
          test_buffer ''read_buffer'' (wc_wr_id wc) w = Ret r w \<and> read_string r w = Ret () w \<and> length base + 24 \<le> unat (cd_buffer_length d))
      | IBV_WC_RECV_RDMA_WITH_IMM \<Rightarrow> wc_with_imm wc
      | IBV_WC_OTHER _ \<Rightarrow> False))"

lemma recv_done_goes_on:
  assumes S: "posts_accepted S" and rdy: "test_ready n (wc_wr_id wc) w" and acc: "acceptable wc w" and op: "wc_opcode wc = IBV_WC_RECV"
  shows "\<exists>t. default_process_recv_done S junk wc w = Ret () t"
proof -
  let ?ch = "wc_wr_id wc"
  from rdy obtain base r rb s sb x xb k kb where base: "greeting ?ch w = Ret base w" "length base + 24 \<le> n"
    and b: "buf_ready n ?ch w ''recv_buffer'' r rb" "buf_ready n ?ch w ''send_buffer'' s sb" "buf_ready n ?ch w ''write_buffer'' x xb"
      "buf_ready n ?ch w ''read_write_sink_buffer'' k kb"
    by (auto simp: test_ready_def has_buffer_ready)
  have fs: "test_buffer ''recv_buffer'' ?ch w = Ret r w" "test_buffer ''send_buffer'' ?ch w = Ret s w" "test_buffer ''write_buffer'' ?ch w = Ret x w"
      "r \<noteq> 0" "s \<noteq> 0" "buffers w r = Some rb"
    using b by (simp_all add: buf_ready_def)
  have imm: "wc_with_imm wc" and cond: "if wc_imm_data wc = message_code REQUEST_EXCHANGE_KEY
      then length base + 24 \<le> unat (cd_buffer_length (bytes_CommDescriptor (mem_read (data_ptr rb) sizeof_CommDescriptor (mem w))))
      else read_string r w = Ret () w"
    using acc op base(1) fs by (auto simp: acceptable_def split: if_splits)
  have "\<exists>t. on_exchange_key S junk ?ch r s x base w = Ret () t" if "wc_imm_data wc = message_code REQUEST_EXCHANGE_KEY"
    using cond that by (intro on_exchange_key_goes_on [OF S b(1-3) base(2)]) simp
  moreover have "\<exists>t. on_sync_data S junk ?ch r s w = Ret () t" "\<exists>t. on_other_message S ?ch r s base w = Ret () t"
    if "wc_imm_data wc \<noteq> message_code REQUEST_EXCHANGE_KEY"
    using cond that base(2) on_sync_data_goes_on [OF S b(1) _ b(2,4)] on_other_message_goes_on [OF S b(1) _ b(2)] by auto
  ultimately show ?thesis using fs base(1) imm by (simp add: default_process_recv_done_def Let_def del: message_code.simps)
qed

section \<open>Properties\<close>

text \<open>A connected channel with its test buffers, for the witnesses.\<close>

definition test_id :: string where
  "test_id = ''(D)[12.12.12.111:7-->12.12.12.113:9]@r@s''"

definition test_buf :: "string \<Rightarrow> u64 \<Rightarrow> RDMABuffer" where
  "test_buf name a = (buffer_init 256 1 (name @ ''_for_test@'' @ test_id) False)\<lparr>data_ptr := a, owned_by_channel := 3, buf_mr := 77\<rparr>"

definition test_world :: "lb_state ep_world" where
  "test_world = \<lparr>hw = lb_init, next_ref = 20, device_map = Map.empty, devices = Map.empty, cache_line_size = 64, cycle_buffer = 4096, mem = (\<lambda>_. 0),
     buffers = [11 \<mapsto> test_buf ''recv_buffer'' 4096, 12 \<mapsto> test_buf ''send_buffer'' 8192, 13 \<mapsto> test_buf ''write_buffer'' 12288,
       14 \<mapsto> test_buf ''read_write_sink_buffer'' 16384, 15 \<mapsto> test_buf ''read_buffer'' 20480],
     channels = [3 \<mapsto> (RDMAChannel_init ''D'' 2)\<lparr>ad_qp := 31,
       owning_buffers := map (\<lambda>(name, r). (name @ ''_for_test@'' @ test_id, r))
         [(''read_buffer'', 15), (''read_write_sink_buffer'', 14), (''recv_buffer'', 11), (''send_buffer'', 12), (''write_buffer'', 13)]\<rparr>],
     endpoints = [2 \<mapsto> \<lparr>ep_id = ''e'', pre_connector = Some ep_connector, rdma_channel_mgr = [3], registered_session = 1\<rparr>],
     sessions = [1 \<mapsto> \<lparr>work_env = (Config.truncate default_Config)\<lparr>role := ''r'', session_id := ''s''\<rparr>, end_point_mgr = [2], is_connected = True\<rparr>]\<rparr>"

definition recv_wc :: "u32 \<Rightarrow> ibv_wc" where
  "recv_wc imm = \<lparr>wc_wr_id = 3, wc_status = IBV_WC_SUCCESS, wc_opcode = IBV_WC_RECV, wc_byte_len = 24, wc_imm_data = imm, wc_with_imm = True\<rparr>"

lemma test_ports: "int_string 7 = ''7''" "int_string 9 = ''9''"
  by code_simp+

lemma test_world_id: "channel_get_id 3 (test_world\<lparr>mem := m\<rparr>) = Ret test_id (test_world\<lparr>mem := m\<rparr>)"
  by (simp add: channel_get_id_eq test_world_def RDMAChannel_init_def test_id_def connection_id_def ep_connector_def session_get_id_def
      test_ports)

lemma test_world_buffers:
  "test_buffer ''recv_buffer'' 3 (test_world\<lparr>mem := m\<rparr>) = Ret 11 (test_world\<lparr>mem := m\<rparr>)"
  "test_buffer ''send_buffer'' 3 (test_world\<lparr>mem := m\<rparr>) = Ret 12 (test_world\<lparr>mem := m\<rparr>)"
  "test_buffer ''write_buffer'' 3 (test_world\<lparr>mem := m\<rparr>) = Ret 13 (test_world\<lparr>mem := m\<rparr>)"
  "test_buffer ''read_write_sink_buffer'' 3 (test_world\<lparr>mem := m\<rparr>) = Ret 14 (test_world\<lparr>mem := m\<rparr>)"
  "test_buffer ''read_buffer'' 3 (test_world\<lparr>mem := m\<rparr>) = Ret 15 (test_world\<lparr>mem := m\<rparr>)"
  by (simp_all add: test_buffer_def test_world_id find_buffer_def deref_chan_def) (simp_all add: test_world_def smap_find_def)

definition test_greeting :: string where
  "test_greeting = ''Greetings from RDMAChannel@'' @ test_id @ '' for '' @ quoted ''RDMA connection test''"

lemma test_world_greeting: "greeting 3 (test_world\<lparr>mem := m\<rparr>) = Ret test_greeting (test_world\<lparr>mem := m\<rparr>)"
  by (simp add: greeting_def channel_info_def test_world_id test_greeting_def)

lemma test_buf_armed: "a \<noteq> 0 \<Longrightarrow> armed (test_buf name a) 256"
  by (simp add: armed_def test_buf_def buffer_init_def)

lemma test_world_ready: "test_ready 256 3 (test_world\<lparr>mem := m\<rparr>)"
proof -
  have "buffers (test_world\<lparr>mem := m\<rparr>) 11 = Some (test_buf ''recv_buffer'' 4096)" "buffers (test_world\<lparr>mem := m\<rparr>) 12 = Some (test_buf ''send_buffer'' 8192)"
    "buffers (test_world\<lparr>mem := m\<rparr>) 13 = Some (test_buf ''write_buffer'' 12288)" "buffers (test_world\<lparr>mem := m\<rparr>) 14 = Some (test_buf ''read_write_sink_buffer'' 16384)"
    "buffers (test_world\<lparr>mem := m\<rparr>) 15 = Some (test_buf ''read_buffer'' 20480)" "channels (test_world\<lparr>mem := m\<rparr>) 3 \<noteq> None"
    by (simp_all add: test_world_def)
  moreover have "length test_greeting + 24 \<le> 256" by (simp add: test_greeting_def test_id_def quoted_def)
  ultimately show ?thesis by (simp add: test_ready_def has_buffer_def test_world_buffers test_world_greeting test_buf_armed)
qed

lemma loopback_posts: "posts_accepted loopback" "rkey_fixed loopback"
  by (simp_all add: posts_accepted_def rkey_fixed_def loopback_def)

lemma test_sync_acceptable: "acceptable (recv_wc (message_code TEST_FOR_SYNC_DATA)) test_world"
proof -
  have w: "test_world = test_world\<lparr>mem := (\<lambda>_. 0)\<rparr>" by (simp add: test_world_def)
  have "\<exists>x :: nat. x < 256" by (rule exI [of _ 0]) simp
  then have "read_string 11 test_world = Ret () test_world"
    by (simp add: read_string_def deref_buf_def test_world_def mem_read_def test_buf_def buffer_init_def image_iff)
  moreover have "buffers test_world 11 = Some (test_buf ''recv_buffer'' 4096)" by (simp add: test_world_def)
  moreover have "test_buffer ''recv_buffer'' 3 test_world = Ret 11 test_world" "greeting 3 test_world = Ret test_greeting test_world"
    using test_world_buffers(1) [of "\<lambda>_. 0"] test_world_greeting [of "\<lambda>_. 0"] w by simp_all
  ultimately show ?thesis by (simp add: acceptable_def recv_wc_def)
qed

lemma test_sync_runs:
  obtains t where "default_process_recv_done loopback junk (recv_wc (message_code TEST_FOR_SYNC_DATA)) test_world = Ret () t"
proof -
  have "test_world = test_world\<lparr>mem := (\<lambda>_. 0)\<rparr>" by (simp add: test_world_def)
  then have "test_ready 256 (wc_wr_id (recv_wc (message_code TEST_FOR_SYNC_DATA))) test_world"
    using test_world_ready [of "\<lambda>_. 0"] by (simp add: recv_wc_def)
  from recv_done_goes_on [OF loopback_posts(1) this test_sync_acceptable, of junk] that show ?thesis by (auto simp: recv_wc_def)
qed

text \<open>With the default callbacks the in-flight counters of a channel only grow: every batch of completions that
  is handled adds the requests posted for it (two or three for a received message, one for a finished
  write, read or remote write), and no completion takes anything off.\<close>

theorem default_callbacks_only_count_up:
  assumes "forO (dispatch S (default_callbacks S fuel junk) ch0) wcs w = Ret () t"
  shows "inflight ch t = inflight ch w + int (sum_list (map default_posts (filter (\<lambda>wc. wc_wr_id wc = ch) wcs)))"
  using assms
proof (induction wcs arbitrary: w)
  case Nil
  then show ?case by simp
next
  case (Cons wc wcs)
  then obtain u where "dispatch S (default_callbacks S fuel junk) ch0 wc w = Ret () u"
      "forO (dispatch S (default_callbacks S fuel junk) ch0) wcs u = Ret () t" by (auto simp: outcome_simps)
  with Cons.IH [of u] dispatch_default [of S fuel junk ch0 wc w u ch] show ?case by simp
qed


theorem default_callbacks_only_count_up_witness:
  "\<exists>t. forO (dispatch loopback (default_callbacks loopback 1 0) 3) [recv_wc (message_code TEST_FOR_SYNC_DATA)] test_world = Ret () t \<and>
     inflight 3 t = inflight 3 test_world + 2"
proof -
  let ?wc = "recv_wc (message_code TEST_FOR_SYNC_DATA)"
  obtain t where "default_process_recv_done loopback 0 ?wc test_world = Ret () t" by (rule test_sync_runs)
  then have run: "forO (dispatch loopback (default_callbacks loopback 1 0) 3) [?wc] test_world = Ret () t"
    by (simp add: dispatch_def default_callbacks_def recv_wc_def)
  from default_callbacks_only_count_up [OF run, of 3] run show ?thesis by (auto simp: recv_wc_def default_posts_def)
qed

text \<open>Property C25. The key exchange of the connection test. A side that handles the peer's greeting leaves in its send
  buffer the image of its sink buffer's descriptor. When those bytes have arrived in the receive buffer
  of the other side and the completion is handled there, the other side's entry for the peer's sink
  buffer is exactly that buffer: address, length and remote key.\<close>

theorem key_exchange:
  assumes greet: "default_process_recv_done S junk wcA wA = Ret () tA" "wc_imm_data wcA = message_code TEST_FOR_SYNC_DATA" "rkey_fixed S"
    and sbuf: "test_buffer ''send_buffer'' (wc_wr_id wcA) wA = Ret sbuf wA" "buffers wA sbuf = Some sb"
    and sink: "test_buffer ''read_write_sink_buffer'' (wc_wr_id wcA) wA = Ret sink wA" "buffers wA sink = Some b"
    and rbuf: "test_buffer ''recv_buffer'' (wc_wr_id wcB) wB = Ret rbuf wB" "buffers wB rbuf = Some rb"
    and delivered: "mem_read (data_ptr rb) sizeof_CommDescriptor (mem wB) = mem_read (data_ptr sb) sizeof_CommDescriptor (mem tA)"
    and handle: "default_process_recv_done S' junk' wcB wB = Ret () tB" "wc_imm_data wcB = message_code REQUEST_EXCHANGE_KEY"
    and new: "peers_of (wc_wr_id wcB) wB ''rw_sink_buffer_for_test'' = None"
  shows "peers_of (wc_wr_id wcB) tB ''rw_sink_buffer_for_test'' = Some \<lparr>cd_buffer_addr = data_ptr b,
    cd_buffer_length = buffer_size b, cd_rkey = ibv_mr_rkey S (buf_mr b) (hw wA), cd_fd = junk'\<rparr>"
proof -
  obtain r where r: "test_buffer ''recv_buffer'' (wc_wr_id wcA) wA = Ret r wA"
    using greet(1) by (auto simp: default_process_recv_done_def Let_def outcome_simps dest: test_buffer_channel)
  note sync = recv_done_sync [OF greet(1,2) r sbuf(1)]
  obtain s x base where ex: "on_exchange_key S' junk' (wc_wr_id wcB) rbuf s x base wB = Ret () tB"
    using handle rbuf(1)
    by (auto simp: default_process_recv_done_def Let_def outcome_simps dest!: test_buffer_channel greeting_same)
  from on_exchange_key_stores [OF ex rbuf(2) new] on_sync_data_sends [OF sync greet(3) sbuf(2) sink] delivered
  show ?thesis by (simp add: CommDescriptor_bytes_inverse)
qed


theorem key_exchange_witness:
  "\<exists>tA tB. default_process_recv_done loopback 0 (recv_wc (message_code TEST_FOR_SYNC_DATA)) test_world = Ret () tA \<and>
     default_process_recv_done loopback 5 (recv_wc (message_code REQUEST_EXCHANGE_KEY))
       (test_world\<lparr>mem := mem_write 4096 (mem_read 8192 24 (mem tA)) (\<lambda>_. 0)\<rparr>) = Ret () tB \<and>
     peers_of 3 tB ''rw_sink_buffer_for_test'' = Some \<lparr>cd_buffer_addr = 16384, cd_buffer_length = 256, cd_rkey = 77, cd_fd = 5\<rparr>"
proof -
  let ?A = "recv_wc (message_code TEST_FOR_SYNC_DATA)" and ?B = "recv_wc (message_code REQUEST_EXCHANGE_KEY)"
  obtain tA where A: "default_process_recv_done loopback 0 ?A test_world = Ret () tA" by (rule test_sync_runs)
  let ?m = "mem_write 4096 (mem_read 8192 24 (mem tA)) (\<lambda>_. 0)"
  let ?w = "test_world\<lparr>mem := ?m\<rparr>"
  have w0: "test_world = test_world\<lparr>mem := (\<lambda>_. 0)\<rparr>" by (simp add: test_world_def)
  have f: "buffers test_world 12 = Some (test_buf ''send_buffer'' 8192)" "buffers test_world 14 = Some (test_buf ''read_write_sink_buffer'' 16384)"
      "test_buffer ''recv_buffer'' 3 test_world = Ret 11 test_world" "test_buffer ''send_buffer'' 3 test_world = Ret 12 test_world"
      "test_buffer ''read_write_sink_buffer'' 3 test_world = Ret 14 test_world"
    using test_world_buffers [of "\<lambda>_. 0"] w0 by (simp_all add: test_world_def)
  have g: "buffers ?w 11 = Some (test_buf ''recv_buffer'' 4096)" "test_buffer ''recv_buffer'' 3 ?w = Ret 11 ?w" "greeting 3 ?w = Ret test_greeting ?w"
    by (simp_all add: test_world_buffers test_world_greeting) (simp add: test_world_def)
  have wc: "wc_wr_id ?A = 3" "wc_wr_id ?B = 3" "wc_imm_data ?A = message_code TEST_FOR_SYNC_DATA" "wc_imm_data ?B = message_code REQUEST_EXCHANGE_KEY"
    by (simp_all add: recv_wc_def)
  have ptrs: "data_ptr (test_buf x a) = a" "buffer_size (test_buf x a) = 256" "buf_mr (test_buf x a) = 77" for x a
    by (simp_all add: test_buf_def buffer_init_def)
  have dl: "mem_read 4096 24 ?m = mem_read 8192 24 (mem tA)" using mem_read_write [of "mem_read 8192 24 (mem tA)" 4096 "\<lambda>_. 0"] by simp
  have "on_sync_data loopback 0 3 11 12 test_world = Ret () tA"
    using recv_done_sync [OF A wc(3)] f(3,4) unfolding wc(1) by blast
  from on_sync_data_sends [OF this loopback_posts(2) f(1,5,2)] dl
  have "cd_buffer_length (bytes_CommDescriptor (mem_read 4096 24 ?m)) = 256" by (simp add: ptrs CommDescriptor_bytes_inverse)
  moreover have "length test_greeting + 24 \<le> 256" by (simp add: test_greeting_def test_id_def quoted_def)
  ultimately have "acceptable ?B ?w" using g unfolding acceptable_def by (simp add: ptrs recv_wc_def del: message_code.simps)
  from recv_done_goes_on [OF loopback_posts(1) _ this, of 256 5] test_world_ready [of ?m]
  obtain tB where B: "default_process_recv_done loopback 5 ?B ?w = Ret () tB" by (auto simp: recv_wc_def)
  have "peers_of 3 ?w ''rw_sink_buffer_for_test'' = None" by (simp add: peers_of_def test_world_def RDMAChannel_init_def)
  from key_exchange [OF A wc(3) loopback_posts(2) _ f(1) _ f(2) _ g(1) _ B wc(4)] this f(4,5) g(2) dl
  have "peers_of 3 tB ''rw_sink_buffer_for_test'' =
      Some \<lparr>cd_buffer_addr = 16384, cd_buffer_length = 256, cd_rkey = ibv_mr_rkey loopback 77 (hw test_world), cd_fd = 5\<rparr>"
    unfolding wc(1,2) ptrs by simp
  moreover have "ibv_mr_rkey loopback 77 h = 77" for h by (simp add: loopback_def)
  ultimately show ?thesis using A B by auto
qed




end
