(* ===== verification/Block_Rings.thy ===== *)
theory Block_Rings
  imports Default_Handlers
begin

text \<open>
  Rings of registered blocks on a channel, for the programs that use them: what \<open>next\<close> and \<open>last\<close> change
  and leave, that a block handed out can be posted, and two rings that share no object.
\<close>

section \<open>What a ring operation changes\<close>

text \<open>What a ring operation may change of a buffer object.\<close>

definition buf_core :: "RDMABuffer \<Rightarrow> RDMABuffer" where
  "buf_core b = b\<lparr>next_active := 0, last_active := 0, in_used := False\<rparr>"

lemma buf_core_idem [simp]: "buf_core (b\<lparr>next_active := i\<rparr>) = buf_core b"
  "buf_core (b\<lparr>last_active := i\<rparr>) = buf_core b" "buf_core (b\<lparr>in_used := u\<rparr>) = buf_core b"
  by (simp_all add: buf_core_def)

lemma buf_core_fields:
  "buf_core b = buf_core b' \<Longrightarrow> data_ptr b = data_ptr b' \<and> buffer_size b = buffer_size b' \<and> owned_by_channel b = owned_by_channel b' \<and>
     buf_mr b = buf_mr b' \<and> buffer_mgr b = buffer_mgr b'"
  by (cases b; cases b') (simp add: buf_core_def)

text \<open>\<open>ring_frame r w t\<close>: only the ring \<open>r\<close> has moved; \<open>outside\<close> its objects nothing has changed.\<close>

definition ring_frame :: "oref \<Rightarrow> ('w, 'z) ep_world_scheme \<Rightarrow> ('w, 'z) ep_world_scheme \<Rightarrow> bool" where
  "ring_frame r w t \<longleftrightarrow> (\<exists>bs. t = w\<lparr>buffers := bs\<rparr> \<and> (\<forall>y. map_option buf_core (bs y) = map_option buf_core (buffers w y)) \<and>
     (\<exists>b. buffers w r = Some b \<and> (\<forall>y. y \<noteq> r \<longrightarrow> y \<notin> set (buffer_mgr b) \<longrightarrow> bs y = buffers w y)))"

lemma ring_frameI:
  "buffers w r = Some b \<Longrightarrow> buf_core b' = buf_core b \<Longrightarrow> x \<in> set (buffer_mgr b) \<Longrightarrow> x \<noteq> r \<Longrightarrow> buffers w x = Some sb \<Longrightarrow>
     buf_core sb' = buf_core sb \<Longrightarrow> ring_frame r w (w\<lparr>buffers := (buffers w)(r \<mapsto> b', x \<mapsto> sb')\<rparr>)"
  by (auto simp: ring_frame_def)

lemma ring_next:
  assumes "ring_ok r w" "length (outstanding r w) < ring_capacity r w" "0 < ring_budget r w"
  obtains x t where "buffer_next r w = Ret x t" "ring_ok r t" "outstanding r t = outstanding r w @ [x]"
    "ring_capacity r t = ring_capacity r w" "Suc (ring_budget r t) = ring_budget r w" "ring_frame r w t"
    "\<exists>b. buffers w r = Some b \<and> x \<in> set (buffer_mgr b)"
proof -
  from buffer_next_acquires [OF assms] obtain x t where t: "buffer_next r w = Ret x t" "ring_ok r t"
      "outstanding r t = outstanding r w @ [x]" "ring_capacity r t = ring_capacity r w" "Suc (ring_budget r t) = ring_budget r w"
    by blast
  from assms(1) obtain b where b: "wf_buffer w r" "buffers w r = Some b" "- 1 \<le> last_active b" "last_active b \<le> next_active b"
    by (rule ring_okE)
  from assms(3) b(2) have lt: "next_active b < INT_MAX" by (simp add: ring_budget_def)
  let ?x = "ring_slot b (next_active b + 1)"
  obtain sb where sb: "buffers w ?x = Some sb" using wf_block(3) [OF b(1,2)] by blast
  have eq: "x = ?x" "t = w\<lparr>buffers := (buffers w)(r \<mapsto> b\<lparr>next_active := next_active b + 1\<rparr>, ?x \<mapsto> sb\<lparr>in_used := True\<rparr>)\<rparr>"
    using buffer_next_eq [OF b(1,2) _ lt sb] t(1) b(3,4) by auto
  have "ring_frame r w t" unfolding eq by (rule ring_frameI [OF b(2) _ wf_block(1,2) [OF b(1,2)] sb]) simp_all
  with t b(2) eq(1) wf_block(1) [OF b(1,2)] show ?thesis by (intro that) auto
qed

lemma ring_last:
  assumes "ring_ok r w" "0 < length (outstanding r w)"
  obtains x t where "buffer_last r w = Ret x t" "ring_ok r t" "outstanding r w = x # outstanding r t"
    "ring_capacity r t = ring_capacity r w" "ring_budget r t = ring_budget r w" "ring_frame r w t"
proof -
  from assms(2) obtain x xs where xs: "outstanding r w = x # xs" by (cases "outstanding r w") auto
  from buffer_last_releases [OF assms(1) xs] obtain t where t: "buffer_last r w = Ret x t" "ring_ok r t"
      "outstanding r t = xs" "ring_capacity r t = ring_capacity r w" "ring_budget r t = ring_budget r w"
    by blast
  from assms(1) obtain b where b: "wf_buffer w r" "buffers w r = Some b" "- 1 \<le> last_active b" "last_active b \<le> next_active b"
      "next_active b \<le> INT_MAX"
    by (rule ring_okE)
  have lt: "last_active b < INT_MAX" using assms(2) b(5) by (simp add: outstanding_length [OF b(2)])
  let ?x = "ring_slot b (last_active b + 1)"
  obtain sb where sb: "buffers w ?x = Some sb" using wf_block(3) [OF b(1,2)] by blast
  have eq: "t = w\<lparr>buffers := (buffers w)(r \<mapsto> b\<lparr>last_active := last_active b + 1\<rparr>, ?x \<mapsto> sb\<lparr>in_used := False\<rparr>)\<rparr>"
    using buffer_last_eq [OF b(1-3) lt sb] t(1) by auto
  have "ring_frame r w t" unfolding eq by (rule ring_frameI [OF b(2) _ wf_block(1,2) [OF b(1,2)] sb]) simp_all
  with t xs show ?thesis by (intro that) auto
qed


lemma post_Ret:
  assumes "channels w ch = Some c"
  shows "send_remote S ch buf len tag w = Ret r t \<Longrightarrow> \<exists>h. t = w\<lparr>channels := (channels w)(ch \<mapsto> c\<lparr>sq_inflight := sq_inflight c + 1\<rparr>), hw := h\<rparr>"
    "write_remote S ch buf len d tag notify w = Ret r t \<Longrightarrow> \<exists>h. t = w\<lparr>channels := (channels w)(ch \<mapsto> c\<lparr>sq_inflight := sq_inflight c + 1\<rparr>), hw := h\<rparr>"
    "recv_remote S ch buf len w = Ret r t \<Longrightarrow> \<exists>h. t = w\<lparr>channels := (channels w)(ch \<mapsto> c\<lparr>rq_inflight := rq_inflight c + 1\<rparr>), hw := h\<rparr>"
  using assms by (auto simp: send_remote_def write_remote_def recv_remote_def post_simps Let_def split: if_splits)

text \<open>A ring of \<open>cap\<close> registered blocks of \<open>n\<close> bytes.\<close>

definition ring_armed :: "nat \<Rightarrow> oref \<Rightarrow> ('w, 'z) ep_world_scheme \<Rightarrow> bool" where
  "ring_armed n r w \<longleftrightarrow> (case buffers w r of None \<Rightarrow> False | Some b \<Rightarrow>
     list_all (\<lambda>x. x \<noteq> 0 \<and> (case buffers w x of None \<Rightarrow> False | Some sb \<Rightarrow> armed sb n \<and> unat (buffer_size sb) = n)) (buffer_mgr b))"

definition ring_at :: "nat \<Rightarrow> nat \<Rightarrow> oref \<Rightarrow> ('w, 'z) ep_world_scheme \<Rightarrow> bool" where
  "ring_at n cap r w \<longleftrightarrow> ring_ok r w \<and> ring_capacity r w = cap \<and> ring_armed n r w"

lemma ring_armedD:
  "ring_armed n r w \<Longrightarrow> buffers w r = Some b \<Longrightarrow> x \<in> set (buffer_mgr b) \<Longrightarrow>
     x \<noteq> 0 \<and> (\<exists>sb. buffers w x = Some sb \<and> armed sb n \<and> unat (buffer_size sb) = n)"
  by (auto simp: ring_armed_def list_all_iff split: option.splits)

lemma core_armed: "buf_core b = buf_core b' \<Longrightarrow> armed b n = armed b' n"
  using buf_core_fields [of b b'] by (simp add: armed_def)

lemma ring_armed_frame:
  assumes "ring_frame r' w t" "ring_armed n r w" shows "ring_armed n r t"
proof -
  from assms(1) have core: "\<And>y. map_option buf_core (buffers t y) = map_option buf_core (buffers w y)" by (auto simp: ring_frame_def)
  from assms(2) obtain b where b: "buffers w r = Some b" by (auto simp: ring_armed_def split: option.splits)
  with core [of r] obtain b' where b': "buffers t r = Some b'" "buf_core b' = buf_core b" by auto
  have "x \<noteq> 0 \<and> (\<exists>sb. buffers t x = Some sb \<and> armed sb n \<and> unat (buffer_size sb) = n)" if "x \<in> set (buffer_mgr b')" for x
  proof -
    from that buf_core_fields [OF b'(2)] have "x \<in> set (buffer_mgr b)" by simp
    from ring_armedD [OF assms(2) b this] obtain sb where sb: "x \<noteq> 0" "buffers w x = Some sb" "armed sb n" "unat (buffer_size sb) = n" by blast
    with core [of x] obtain sb' where "buffers t x = Some sb'" "buf_core sb' = buf_core sb" by auto
    with sb core_armed [of sb' sb n] buf_core_fields [of sb' sb] show ?thesis by simp
  qed
  then show ?thesis unfolding ring_armed_def list_all_iff using b'(1) by (fastforce split: option.splits)
qed

lemma ring_cong:
  assumes "buffers t = buffers w" "next_ref t = next_ref w"
  shows "ring_at n cap r t = ring_at n cap r w" "outstanding r t = outstanding r w" "ring_budget r t = ring_budget r w"
  unfolding ring_at_def ring_ok_def wf_buffer_def blocks_ok_def outstanding_def ring_capacity_def ring_armed_def ring_budget_def assms
  by (rule refl)+

lemma ring_at_next:
  assumes "ring_at n cap r w" "length (outstanding r w) < cap" "0 < ring_budget r w"
  obtains x t sb where "buffer_next r w = Ret x t" "ring_at n cap r t" "outstanding r t = outstanding r w @ [x]"
    "Suc (ring_budget r t) = ring_budget r w" "ring_frame r w t" "x \<noteq> 0" "buffers t x = Some sb" "armed sb n" "unat (buffer_size sb) = n"
proof -
  from assms have w: "ring_ok r w" "ring_capacity r w = cap" "ring_armed n r w" by (simp_all add: ring_at_def)
  with assms(2) have "length (outstanding r w) < ring_capacity r w" by simp
  from ring_next [OF w(1) this assms(3)] obtain x t b where t: "buffer_next r w = Ret x t" "ring_ok r t" "outstanding r t = outstanding r w @ [x]"
    "ring_capacity r t = ring_capacity r w" "Suc (ring_budget r t) = ring_budget r w" "ring_frame r w t"
    "buffers w r = Some b" "x \<in> set (buffer_mgr b)" by metis
  note at = ring_armed_frame [OF t(6) w(3)]
  from t(6) have core: "\<And>y. map_option buf_core (buffers t y) = map_option buf_core (buffers w y)" by (auto simp: ring_frame_def)
  from core [of r] t(7) obtain b' where b': "buffers t r = Some b'" "buf_core b' = buf_core b" by auto
  then have "x \<in> set (buffer_mgr b')" using t(8) buf_core_fields [of b' b] by simp
  from ring_armedD [OF at b'(1) this] obtain sb where sb: "x \<noteq> 0" "buffers t x = Some sb" "armed sb n" "unat (buffer_size sb) = n" by blast
  have "ring_at n cap r t" using t(2,4) w(2) at by (simp add: ring_at_def)
  from that [OF t(1) this t(3,5,6) sb] show ?thesis .
qed

lemma ring_at_last:
  assumes "ring_at n cap r w" "0 < length (outstanding r w)"
  obtains x t where "buffer_last r w = Ret x t" "ring_at n cap r t" "outstanding r w = x # outstanding r t"
    "ring_budget r t = ring_budget r w" "ring_frame r w t"
proof -
  from assms have w: "ring_ok r w" "ring_capacity r w = cap" "ring_armed n r w" by (simp_all add: ring_at_def)
  from ring_last [OF w(1) assms(2)] obtain x t where t: "buffer_last r w = Ret x t" "ring_ok r t" "outstanding r w = x # outstanding r t"
    "ring_capacity r t = ring_capacity r w" "ring_budget r t = ring_budget r w" "ring_frame r w t" by metis
  have "ring_at n cap r t" using t(2,4) w(2) ring_armed_frame [OF t(6) w(3)] by (simp add: ring_at_def)
  from that [OF t(1) this t(3,5,6)] show ?thesis .
qed

section \<open>Two rings side by side\<close>

definition ring_objects :: "oref \<Rightarrow> ('w, 'z) ep_world_scheme \<Rightarrow> oref set" where
  "ring_objects r w = (case buffers w r of None \<Rightarrow> {} | Some b \<Rightarrow> insert r (set (buffer_mgr b)))"

definition rings_apart :: "oref \<Rightarrow> oref \<Rightarrow> ('w, 'z) ep_world_scheme \<Rightarrow> bool" where
  "rings_apart r r' w \<longleftrightarrow> ring_objects r w \<inter> ring_objects r' w = {}"

lemma ring_objects_frame:
  assumes "ring_frame r w t" shows "ring_objects q t = ring_objects q w"
proof -
  from assms have "map_option buf_core (buffers t q) = map_option buf_core (buffers w q)" by (auto simp: ring_frame_def)
  then have "map_option buffer_mgr (buffers t q) = map_option buffer_mgr (buffers w q)"
    by (auto simp: map_option_case split: option.splits dest: buf_core_fields)
  then show ?thesis by (auto simp: ring_objects_def map_option_case split: option.splits)
qed

lemma ring_at_agree:
  assumes "ring_at n cap r w" "next_ref t = next_ref w" "\<And>y. y \<in> ring_objects r w \<Longrightarrow> buffers t y = buffers w y"
  shows "ring_at n cap r t" "outstanding r t = outstanding r w" "ring_budget r t = ring_budget r w"
proof -
  from assms(1) obtain b where b: "wf_buffer w r" "buffers w r = Some b" by (auto simp: ring_at_def elim: ring_okE)
  have r: "buffers t r = Some b" and blk: "\<And>y. y \<in> set (buffer_mgr b) \<Longrightarrow> buffers t y = buffers w y"
    using assms(3) b(2) by (auto simp: ring_objects_def)
  show out: "outstanding r t = outstanding r w" and "ring_budget r t = ring_budget r w"
    by (simp_all add: outstanding_def ring_budget_def r b(2))
  have "blocks_ok t r b sz = blocks_ok w r b sz" for sz using blk assms(2) by (auto simp: blocks_ok_def)
  then have "wf_buffer t r" using b r assms(2) by (simp add: wf_buffer_def)
  then have "ring_ok r t" using assms(1) b(2) r blk out by (auto simp: ring_at_def ring_ok_def)
  moreover have "ring_armed n r t" using assms(1) b(2) r blk by (auto simp: ring_at_def ring_armed_def list_all_iff)
  moreover have "ring_capacity r t = cap" using assms(1) b(2) r by (simp add: ring_at_def ring_capacity_def)
  ultimately show "ring_at n cap r t" by (simp add: ring_at_def)
qed

lemma ring_other:
  assumes "ring_frame r w t" "rings_apart r q w" "ring_at n cap q w"
  shows "ring_at n cap q t" "outstanding q t = outstanding q w" "ring_budget q t = ring_budget q w" "rings_apart r q t"
proof -
  from assms(1) obtain b where n: "next_ref t = next_ref w" "buffers w r = Some b"
    and same: "\<And>y. y \<noteq> r \<Longrightarrow> y \<notin> set (buffer_mgr b) \<Longrightarrow> buffers t y = buffers w y"
    by (auto simp: ring_frame_def)
  have "buffers t y = buffers w y" if "y \<in> ring_objects q w" for y
    using that assms(2) n(2) by (intro same) (auto simp: rings_apart_def ring_objects_def)
  from ring_at_agree [OF assms(3) n(1) this] show "ring_at n cap q t" "outstanding q t = outstanding q w" "ring_budget q t = ring_budget q w"
    by simp_all
  show "rings_apart r q t" using assms(2) by (simp add: rings_apart_def ring_objects_frame [OF assms(1)])
qed

text \<open>On a full ring, \<open>next\<close> after \<open>last\<close> hands out the block just given back.\<close>

lemma full_ring_again:
  assumes w: "ring_at n cap r w" "length (outstanding r w) = cap" "0 < ring_budget r w" and l: "buffer_last r w = Ret x t"
  obtains u where "buffer_next r t = Ret x u" "ring_at n cap r u" "length (outstanding r u) = cap"
    "Suc (ring_budget r u) = ring_budget r w" "ring_frame r w t" "ring_frame r t u" "hd (outstanding r w) = x"
proof -
  from w(1) obtain b where b: "wf_buffer w r" "buffers w r = Some b" "- 1 \<le> last_active b" "last_active b \<le> next_active b"
    by (auto simp: ring_at_def elim: ring_okE)
  have cap: "cap = unat (blocks b)" "0 < cap" using w(1) b(2) wf_block(5) [OF b(1,2)] by (simp_all add: ring_at_def ring_capacity_def)
  have pos: "0 < length (outstanding r w)" using w(2) cap(2) by simp
  from w(1) this obtain x' t' where t: "buffer_last r w = Ret x' t'" "ring_at n cap r t'" "outstanding r w = x' # outstanding r t'"
      "ring_budget r t' = ring_budget r w" "ring_frame r w t'" by (rule ring_at_last)
  with l have t': "x' = x" "t' = t" by simp_all
  note t = t [unfolded t']
  have "length (outstanding r t) < cap" "0 < ring_budget r t" using t(3,4) w(2,3) by auto
  from t(2) this obtain y u sb where u: "buffer_next r t = Ret y u" "ring_at n cap r u" "outstanding r u = outstanding r t @ [y]"
      "Suc (ring_budget r u) = ring_budget r t" "ring_frame r t u"
    by (rule ring_at_next)
  have n: "nat (next_active b + 1) = nat (last_active b + 1) + cap"
    using w(2) b(3,4) by (simp add: outstanding_length [OF b(2)])
  have lt: "last_active b < INT_MAX" "next_active b < INT_MAX" using w(3) b(2,4) by (auto simp: ring_budget_def)
  have lx: "x = ring_slot b (last_active b + 1)"
  proof -
    obtain sb where "buffers w (ring_slot b (last_active b + 1)) = Some sb" using wf_block(3) [OF b(1,2)] by blast
    from buffer_last_eq [OF b(1-3) lt(1) this] l show ?thesis by simp
  qed
  obtain sb0 where sb0: "buffers w (ring_slot b (last_active b + 1)) = Some sb0" using wf_block(3) [OF b(1,2)] by blast
  let ?b = "b\<lparr>last_active := last_active b + 1\<rparr>"
  have "t = w\<lparr>buffers := (buffers w)(r \<mapsto> ?b, ring_slot b (last_active b + 1) \<mapsto> sb0\<lparr>in_used := False\<rparr>)\<rparr>"
    using buffer_last_eq [OF b(1-3) lt(1) sb0] l by simp
  then have r: "buffers t r = Some ?b" using wf_block(2) [OF b(1,2)] by auto
  have wt: "wf_buffer t r" using t(2) by (auto simp: ring_at_def ring_ok_def)
  obtain sb where "buffers t (ring_slot ?b (next_active ?b + 1)) = Some sb" using wf_block(3) [OF wt r] by blast
  from buffer_next_eq [OF wt r _ _ this] u(1) lt b(3,4) have "y = ring_slot ?b (next_active b + 1)" by simp
  with lx n cap(1) have "y = x" by (simp add: ring_slot_def)
  with u t(3-5) w(2) show ?thesis by (intro that [of u]) auto
qed

section \<open>A concrete ring\<close>

text \<open>A ring at object \<open>r\<close> and address \<open>a\<close> with \<open>cnt\<close> registered blocks of \<open>sz\<close> bytes, the first \<open>k\<close> handed out: the
  state of the witnesses.\<close>

definition demo_base :: "nat \<Rightarrow> nat \<Rightarrow> oref \<Rightarrow> u64 \<Rightarrow> nat \<Rightarrow> RDMABuffer" where
  "demo_base cnt sz r a k = \<lparr>buffer_name = ''b'', buffer_size = of_nat (sz * cnt), data_ptr = a, owned_by_channel = 3, is_initialized = True,
     buf_mr = 77, next_active = int k - 1, last_active = - 1, in_used = False, buffer_index = - 1, buffer_mgr = [r + 1..<r + 1 + cnt],
     is_sub_buffer = False, blocks = of_nat cnt, base_buffer = r\<rparr>"

definition demo_block :: "nat \<Rightarrow> oref \<Rightarrow> u64 \<Rightarrow> nat \<Rightarrow> nat \<Rightarrow> RDMABuffer" where
  "demo_block sz r a k i = \<lparr>buffer_name = ''s'', buffer_size = of_nat sz, data_ptr = a + of_nat i * of_nat sz, owned_by_channel = 3,
     is_initialized = True, buf_mr = 77, next_active = - 1, last_active = - 1, in_used = (i < k), buffer_index = int i, buffer_mgr = [],
     is_sub_buffer = True, blocks = 1, base_buffer = r\<rparr>"

definition demo_ring :: "nat \<Rightarrow> nat \<Rightarrow> oref \<Rightarrow> u64 \<Rightarrow> nat \<Rightarrow> oref \<rightharpoonup> RDMABuffer" where
  "demo_ring cnt sz r a k x = (if x = r then Some (demo_base cnt sz r a k)
     else if r < x \<and> x \<le> r + cnt then Some (demo_block sz r a k (x - r - 1)) else None)"

lemma demo_block_armed:
  assumes "i < cnt" "0 < unat a" "unat a + sz * cnt \<le> 2 ^ 64" "0 < sz" "sz < 2 ^ 32"
  shows "armed (demo_block sz r a k i) sz" "unat (buffer_size (demo_block sz r a k i)) = sz"
proof -
  have sz: "unat (of_nat sz :: u64) = sz" using assms(5) by (simp add: unat_of_nat take_bit_nat_eq_self)
  have "i * sz < sz * cnt" using assms(1,4) by simp
  with assms(3) have "unat a + i * sz < 2 ^ 64" by linarith
  then have "\<not> 2 ^ 64 dvd unat a + i * sz" using assms(2) by (intro nat_dvd_not_less) simp_all
  then have "(of_nat (unat a + i * sz) :: u64) \<noteq> 0" by (simp only: word_of_nat_eq_0_iff) simp
  moreover have "(of_nat sz :: u64) \<noteq> 0" using sz assms(4) by auto
  ultimately show "armed (demo_block sz r a k i) sz" "unat (buffer_size (demo_block sz r a k i)) = sz"
    using assms(5) sz by (simp_all add: armed_def demo_block_def)
qed

lemma demo_ring_at:
  assumes agree: "\<And>x. r \<le> x \<Longrightarrow> x \<le> r + cnt \<Longrightarrow> buffers w x = demo_ring cnt sz r a k x" and nr: "r + 1 + cnt \<le> next_ref w"
    and k: "k \<le> cnt" "0 < cnt" "cnt \<le> 2 ^ 31" and a: "0 < unat a" "unat a + sz * cnt \<le> 2 ^ 64" "0 < sz" "sz < 2 ^ 32"
  shows "ring_at sz cnt r w" "outstanding r w = [r + 1..<r + 1 + k]" "ring_budget r w = nat (INT_MAX - (int k - 1))"
    "ring_objects r w = {r..<r + 1 + cnt}"
proof -
  let ?b = "demo_base cnt sz r a k"
  have base: "buffers w r = Some ?b" using agree [of r] by (simp add: demo_ring_def)
  have blk: "buffers w (r + 1 + i) = Some (demo_block sz r a k i)" if "i < cnt" for i
    using agree [of "r + 1 + i"] that by (simp add: demo_ring_def)
  have "sz * cnt < 2 ^ 64" using a(1,2) by linarith
  then have num: "unat (of_nat (sz * cnt) :: u64) = sz * cnt" by (simp only: unat_of_nat take_bit_nat_eq_self) simp
  have small: "unat (of_nat cnt :: u64) = cnt" "unat (of_nat sz :: u64) = sz"
    using k(3) a(4) by (simp_all add: unat_of_nat take_bit_nat_eq_self)
  have f: "buffer_mgr ?b = [r + 1..<r + 1 + cnt]" "unat (blocks ?b) = cnt" "unat (buffer_size ?b) = sz * cnt" "data_ptr ?b = a"
      "next_active ?b = int k - 1" "last_active ?b = - 1" "\<not> is_sub_buffer ?b" "base_buffer ?b = r"
    using num small by (simp_all add: demo_base_def)
  have "map (\<lambda>j. [r + 1..<r + 1 + cnt] ! (nat j mod cnt)) [0..int k - 1] = [r + 1..<r + 1 + k]"
    by (rule nth_equalityI) (use k in \<open>simp_all del: upt_Suc\<close>)
  then show out: "outstanding r w = [r + 1..<r + 1 + k]" using base f by (simp add: outstanding_def)
  have sub: "sub_of r ?b (of_nat sz) i (demo_block sz r a k i)" for i by (simp add: sub_of_def f demo_block_def)
  have at: "[r + 1..<r + 1 + cnt] ! i = r + 1 + i" if "i < cnt" for i using that by (simp del: upt_Suc)
  have "blocks_ok w r ?b (of_nat sz)"
    unfolding blocks_ok_def f using blk sub nr at by (auto simp del: upt_Suc)
  moreover have "(0 :: u64) < of_nat sz" "blocks ?b \<noteq> 0" using small a(3) k(2) f(2) by (auto simp: word_gt_0)
  ultimately have wf: "wf_buffer w r"
    unfolding wf_buffer_def using base nr a f small by (intro exI [of _ ?b] exI [of _ "of_nat sz"]) (auto simp del: upt_Suc)
  have "in_used sb = (x \<in> set (outstanding r w))" if "x \<in> set [r + 1..<r + 1 + cnt]" "buffers w x = Some sb" for x sb
    using that blk [of "x - r - 1"] unfolding out by (auto simp: demo_block_def simp del: upt_Suc)
  with wf base k f have ok: "ring_ok r w"
    unfolding ring_ok_def by (intro conjI exI [of _ ?b]) (auto simp del: upt_Suc)
  have "x \<noteq> 0 \<and> (\<exists>sb. buffers w x = Some sb \<and> armed sb sz \<and> unat (buffer_size sb) = sz)" if "x \<in> set [r + 1..<r + 1 + cnt]" for x
    using that blk [of "x - r - 1"] demo_block_armed [OF _ a, of "x - r - 1" r k] by (auto simp del: upt_Suc)
  then have "ring_armed sz r w" unfolding ring_armed_def list_all_iff using base f(1) by (fastforce simp del: upt_Suc)
  with ok base f(2) show "ring_at sz cnt r w" by (simp add: ring_at_def ring_capacity_def)
  show "ring_budget r w = nat (INT_MAX - (int k - 1))" using base f by (simp add: ring_budget_def)
  show "ring_objects r w = {r..<r + 1 + cnt}" using base f(1) by (auto simp: ring_objects_def)
qed

end
