(* ===== verification/Mesh_Service.thy ===== *)
theory Mesh_Service
  imports Block_Rings
begin

text \<open>
  \<open>example/mesh_comm_service.cc\<close>: a full-mesh service on top of the sessions. Every node runs a server
  and one client per peer. A client asks its server for a buffer and then keeps 127 blocks of 16 KiB in
  flight as remote writes. The loops own a send ring and a receive ring per channel; the rings and the
  peer's descriptors are local variables of \<open>process_CQ\<close>, the record \<open>tensors\<close>.
\<close>

section \<open>Data\<close>

datatype MsgDataChannel = REQUEST_BUFFER | RESPONSE_TO_REQUEST_BUFFER | SEND_TEST_REQUEST | RESPONSE_TO_SEND_TEST_REQUEST
  | WRITE_TEST_REQUEST | RESPONSE_TO_WRITE_TEST_REQUEST | READ_TEST_REQUEST | RESPONSE_TO_READ_TEST_REQUEST | BYEBYE | TRANSFER_RAW_DATA

primrec data_code :: "MsgDataChannel \<Rightarrow> u32" where
  "data_code REQUEST_BUFFER = 1"
| "data_code RESPONSE_TO_REQUEST_BUFFER = 2"
| "data_code SEND_TEST_REQUEST = 3"
| "data_code RESPONSE_TO_SEND_TEST_REQUEST = 4"
| "data_code WRITE_TEST_REQUEST = 5"
| "data_code RESPONSE_TO_WRITE_TEST_REQUEST = 6"
| "data_code READ_TEST_REQUEST = 7"
| "data_code RESPONSE_TO_READ_TEST_REQUEST = 8"
| "data_code BYEBYE = 255"
| "data_code TRANSFER_RAW_DATA = 299"

abbreviation (input) NUM_BLOCK :: nat where "NUM_BLOCK \<equiv> 128"
abbreviation (input) BLOCK_SIZE :: "'a::len word" where "BLOCK_SIZE \<equiv> 16384"

record tensors =
  tensor_buffer_send :: "oref list"
  tensor_buffer_recv :: "oref list"
  peer_comm_fd_mgr :: "CommDescriptor list"

definition elem :: "'a list \<Rightarrow> u32 \<Rightarrow> string \<Rightarrow> ('w, 'z) ep_world_scheme \<Rightarrow> ('a, ('w, 'z) ep_world_scheme) outcome" where
  "elem xs i what w = deref (nth_opt xs (unat i)) what w"

section \<open>Configuration of the channels\<close>

definition mesh_config :: "nat \<Rightarrow> AdapterConfig \<Rightarrow> AdapterConfig" where
  "mesh_config n c = c\<lparr>ac_max_recv_wr := of_nat NUM_BLOCK, ac_max_send_wr := of_nat NUM_BLOCK, ac_traffic_class := 0,
     ac_cq_size := (of_nat NUM_BLOCK + of_nat NUM_BLOCK) * of_nat n\<rparr>"

definition mesh_server_lazy_config_hca :: "oref \<Rightarrow> ('w, 'z) ep_world_scheme \<Rightarrow> (unit, ('w, 'z) ep_world_scheme) outcome" where
  "mesh_server_lazy_config_hca this w =
     bindO (deref_sess this w) (\<lambda>s w.
     forO (configure_channel (\<lambda>c. (mesh_config (length (end_point_mgr s)) c)
       \<lparr>ac_using_shared_cq := True, ac_cq_key := ''GlobalSharedCQForRecv''\<rparr>)) (end_point_mgr s) w)"

definition mesh_client_lazy_config_hca :: "oref \<Rightarrow> ('w, 'z) ep_world_scheme \<Rightarrow> (unit, ('w, 'z) ep_world_scheme) outcome" where
  "mesh_client_lazy_config_hca this w =
     bindO (deref_sess this w) (\<lambda>s w.
     bindO (check (length (end_point_mgr s) = 1) ''Invalid configuration for your test'' w) (\<lambda>_ w.
     forO (configure_channel (\<lambda>c. (mesh_config (length (end_point_mgr s)) c)\<lparr>ac_using_shared_cq := False\<rparr>)) (end_point_mgr s) w))"

section \<open>Setting up the rings\<close>

definition add_tensors :: "'w sys \<Rightarrow> nat \<times> oref \<Rightarrow> tensors \<Rightarrow> ('w, 'z) ep_world_scheme \<Rightarrow> (tensors, ('w, 'z) ep_world_scheme) outcome" where
  "add_tensors S ic L w = (case ic of (chan_index, ch) \<Rightarrow>
     bindO (allocate_buffer S BLOCK_SIZE (of_nat NUM_BLOCK) ''datachannel_write_placeholder'' w) (\<lambda>snd_buffer w.
     bindO (register_buffer S ch snd_buffer w) (\<lambda>_ w.
     bindO (allocate_buffer S BLOCK_SIZE (of_nat NUM_BLOCK) ''datachannel_recv_placeholder'' w) (\<lambda>rcv_buffer w.
     bindO (register_buffer S ch rcv_buffer w) (\<lambda>_ w.
     bindO (setup_index_in_session ch (int chan_index) w) (\<lambda>_ w.
     Ret (L\<lparr>tensor_buffer_send := tensor_buffer_send L @ [snd_buffer], tensor_buffer_recv := tensor_buffer_recv L @ [rcv_buffer]\<rparr>) w))))))"

text \<open>All blocks of the receive ring are posted.\<close>

definition post_next_recv :: "'w sys \<Rightarrow> oref \<Rightarrow> oref \<Rightarrow> ('w, 'z) ep_world_scheme \<Rightarrow> (unit, ('w, 'z) ep_world_scheme) outcome" where
  "post_next_recv S ch ring w =
     bindO (buffer_next ring w) (\<lambda>recv_buf w.
     bindO (recv_remote S ch recv_buf BLOCK_SIZE w) (\<lambda>_ w.
     Ret () w))"

definition prefill :: "'w sys \<Rightarrow> nat \<Rightarrow> oref \<times> oref \<Rightarrow> ('w, 'z) ep_world_scheme \<Rightarrow> (unit, ('w, 'z) ep_world_scheme) outcome" where
  "prefill S n cr w = forO (\<lambda>_. post_next_recv S (fst cr) (snd cr)) [0..<n] w"

definition final_sync :: "'w sys \<Rightarrow> nat \<Rightarrow> oref \<Rightarrow> ('w, 'z) ep_world_scheme \<Rightarrow> (unit, ('w, 'z) ep_world_scheme) outcome" where
  "final_sync S fuel ch w = bindO (deref_chan ch w) (\<lambda>c w. sync_with_peer S fuel (registered_endpoint c) w)"

definition mesh_setup :: "'w sys \<Rightarrow> nat \<Rightarrow> oref list \<Rightarrow> ('w, 'z) ep_world_scheme \<Rightarrow> (tensors, ('w, 'z) ep_world_scheme) outcome" where
  "mesh_setup S fuel chs w =
     bindO (foldO (add_tensors S) (enumerate 0 chs)
       \<lparr>tensor_buffer_send = [], tensor_buffer_recv = [],
        peer_comm_fd_mgr = replicate (length chs) \<lparr>cd_buffer_addr = 0, cd_buffer_length = 0, cd_rkey = 0, cd_fd = 0\<rparr>\<rparr> w) (\<lambda>L w.
     bindO (forO (prefill S NUM_BLOCK) (zip chs (tensor_buffer_recv L)) w) (\<lambda>_ w.
     bindO (forO (final_sync S fuel) chs w) (\<lambda>_ w.
     Ret L w)))"

section \<open>The server's loop\<close>

text \<open>The part of a turn before the \<open>switch\<close>: a failed completion ends the process; otherwise the channel
  of the completion and its index.\<close>

definition completed_channel :: "'w sys \<Rightarrow> oref \<Rightarrow> ibv_wc \<Rightarrow> ('w, 'z) ep_world_scheme \<Rightarrow> (oref \<times> u32, ('w, 'z) ep_world_scheme) outcome" where
  "completed_channel S each_channel wc w =
     (if wc_status wc \<noteq> IBV_WC_SUCCESS
      then bindO (show_qp_info S each_channel w) (\<lambda>_ w.
           bindO (channel_info each_channel w) (\<lambda>_ w.
           Halt (LogFatal ''[ERROR]: Encounting unsuccess wqe'') w))
      else bindO (deref_chan (wc_wr_id wc) w) (\<lambda>c w. Ret (wc_wr_id wc, of_int (indexed_by_session c)) w))"

text \<open>The answer to a request for a buffer: the fields of the descriptor are written into a send block.\<close>

definition answer_request :: "'w sys \<Rightarrow> oref \<Rightarrow> oref \<Rightarrow> ('w, 'z) ep_world_scheme \<Rightarrow> (unit, ('w, 'z) ep_world_scheme) outcome" where
  "answer_request S ch ring w =
     bindO (buffer_next ring w) (\<lambda>active_send_buf w.
     bindO (deref_buf active_send_buf w) (\<lambda>sb w.
     bindO (deref_buf ring w) (\<lambda>base w.
     bindO (defined_if (data_ptr sb \<noteq> 0 \<and> buf_mr base \<noteq> 0) ''local_comm'' w) (\<lambda>_ w.
     let local_comm = \<lparr>cd_buffer_addr = data_ptr base, cd_buffer_length = buffer_size base,
                       cd_rkey = ibv_mr_rkey S (buf_mr base) (hw w), cd_fd = 0\<rparr>;
         w = w\<lparr>mem := mem_write (data_ptr sb) (CommDescriptor_bytes local_comm) (mem w)\<rparr> in
     bindO (send_remote S ch active_send_buf (of_nat sizeof_CommDescriptor) (data_code RESPONSE_TO_REQUEST_BUFFER) w) (\<lambda>_ w.
     Ret () w)))))"

definition server_complete :: "'w sys \<Rightarrow> oref \<Rightarrow> ibv_wc \<Rightarrow> tensors \<Rightarrow> ('w, 'z) ep_world_scheme \<Rightarrow> (tensors, ('w, 'z) ep_world_scheme) outcome" where
  "server_complete S each_channel wc L w =
     bindO (completed_channel S each_channel wc w) (\<lambda>(ch, i) w.
     case wc_opcode wc of
       IBV_WC_SEND \<Rightarrow>
         bindO (add_sqe (- 1) ch w) (\<lambda>_ w.
         bindO (elem (tensor_buffer_send L) i ''tensor_buffer_send'' w) (\<lambda>ring w.
         bindO (buffer_last ring w) (\<lambda>_ w. Ret L w)))
     | IBV_WC_RECV \<Rightarrow>
         bindO (elem (tensor_buffer_recv L) i ''tensor_buffer_recv'' w) (\<lambda>rring w.
         bindO (buffer_last rring w) (\<lambda>_ w.
         bindO (add_rqe (- 1) ch w) (\<lambda>_ w.
         bindO (if wc_imm_data wc = data_code REQUEST_BUFFER
           then bindO (elem (tensor_buffer_send L) i ''tensor_buffer_send'' w) (\<lambda>sring. answer_request S ch sring)
           else Halt (LogFatal ''UNIMPLEMENTED'') w) (\<lambda>_ w.
         bindO (post_next_recv S ch rring w) (\<lambda>_ w. Ret L w)))))
     | IBV_WC_RECV_RDMA_WITH_IMM \<Rightarrow> Halt (LogFatal ''UNIMPLEMENTED'') w
     | _ \<Rightarrow> bindO (channel_info ch w) (\<lambda>_ w. Halt (LogFatal ''Unknown opcode'') w))"

section \<open>The client's loop\<close>

definition post_write :: "'w sys \<Rightarrow> oref \<Rightarrow> oref \<Rightarrow> CommDescriptor \<Rightarrow> ('w, 'z) ep_world_scheme \<Rightarrow> (unit, ('w, 'z) ep_world_scheme) outcome" where
  "post_write S ch ring peer w =
     bindO (buffer_next ring w) (\<lambda>next_send_buf w.
     bindO (deref_buf next_send_buf w) (\<lambda>b w.
     bindO (write_remote S ch next_send_buf (ucast (buffer_size b)) peer (data_code TRANSFER_RAW_DATA) False w) (\<lambda>_ w.
     Ret () w)))"

definition client_complete :: "'w sys \<Rightarrow> oref \<Rightarrow> ibv_wc \<Rightarrow> tensors \<Rightarrow> ('w, 'z) ep_world_scheme \<Rightarrow> (tensors, ('w, 'z) ep_world_scheme) outcome" where
  "client_complete S each_channel wc L w =
     bindO (completed_channel S each_channel wc w) (\<lambda>(ch, i) w.
     case wc_opcode wc of
       IBV_WC_SEND \<Rightarrow>
         bindO (add_sqe (- 1) ch w) (\<lambda>_ w.
         bindO (elem (tensor_buffer_send L) i ''tensor_buffer_send'' w) (\<lambda>ring w.
         bindO (buffer_last ring w) (\<lambda>_ w. Ret L w)))
     | IBV_WC_RECV \<Rightarrow>
         bindO (add_rqe (- 1) ch w) (\<lambda>_ w.
         bindO (elem (tensor_buffer_recv L) i ''tensor_buffer_recv'' w) (\<lambda>rring w.
         bindO (buffer_last rring w) (\<lambda>_ w.
         if wc_imm_data wc = data_code RESPONSE_TO_REQUEST_BUFFER
         then
           bindO (buffer_next rring w) (\<lambda>active_recv_buf w.
           bindO (deref_buf active_recv_buf w) (\<lambda>rb w.
           let peer = bytes_CommDescriptor (mem_read (data_ptr rb) sizeof_CommDescriptor (mem w)) in
           bindO (elem (peer_comm_fd_mgr L) i ''peer_comm_fd_mgr'' w) (\<lambda>_ w.
           bindO (elem (tensor_buffer_send L) i ''tensor_buffer_send'' w) (\<lambda>sring w.
           bindO (forO (\<lambda>_. post_write S ch sring peer) [0..<NUM_BLOCK - 1] w) (\<lambda>_ w.
           Ret (L\<lparr>peer_comm_fd_mgr := (peer_comm_fd_mgr L)[unat i := peer]\<rparr>) w)))))
         else Halt (LogFatal ''UNIMPLEMENTED'') w)))
     | IBV_WC_RECV_RDMA_WITH_IMM \<Rightarrow> Halt (LogFatal ''UNIMPLEMENTED'') w
     | IBV_WC_RDMA_WRITE \<Rightarrow>
         bindO (add_sqe (- 1) ch w) (\<lambda>_ w.
         bindO (elem (tensor_buffer_send L) i ''tensor_buffer_send'' w) (\<lambda>ring w.
         bindO (buffer_last ring w) (\<lambda>_ w.
         bindO (elem (peer_comm_fd_mgr L) i ''peer_comm_fd_mgr'' w) (\<lambda>peer w.
         bindO (post_write S ch ring peer w) (\<lambda>_ w. Ret L w)))))
     | _ \<Rightarrow> bindO (channel_info ch w) (\<lambda>_ w. Halt (LogFatal ''Unknown opcode'') w))"

text \<open>The client's first message.\<close>

definition request_buffer :: "'w sys \<Rightarrow> tensors \<Rightarrow> oref \<Rightarrow> ('w, 'z) ep_world_scheme \<Rightarrow> (unit, ('w, 'z) ep_world_scheme) outcome" where
  "request_buffer S L ch w =
     bindO (deref_chan ch w) (\<lambda>c w.
     bindO (elem (tensor_buffer_send L) (of_int (indexed_by_session c)) ''tensor_buffer_send'' w) (\<lambda>ring w.
     bindO (buffer_next ring w) (\<lambda>active_send_buf w.
     bindO (send_remote S ch active_send_buf 1 (data_code REQUEST_BUFFER) w) (\<lambda>_ w.
     Ret () w))))"

section \<open>The poll loops\<close>

definition mesh_turn :: "'w sys \<Rightarrow> (oref \<Rightarrow> ibv_wc \<Rightarrow> tensors \<Rightarrow> ('w, 'z) ep_world_scheme \<Rightarrow> (tensors, ('w, 'z) ep_world_scheme) outcome) \<Rightarrow>
    oref \<Rightarrow> tensors \<Rightarrow> ('w, 'z) ep_world_scheme \<Rightarrow> (tensors, ('w, 'z) ep_world_scheme) outcome" where
  "mesh_turn S complete ch L w =
     bindO (poll_cq_batch S ch 128 w) (\<lambda>(num_wqe, global_wc) w.
     foldO (complete ch) (take (nat num_wqe) global_wc) L w)"

primrec mesh_rounds :: "'w sys \<Rightarrow> (oref \<Rightarrow> ibv_wc \<Rightarrow> tensors \<Rightarrow> ('w, 'z) ep_world_scheme \<Rightarrow> (tensors, ('w, 'z) ep_world_scheme) outcome) \<Rightarrow>
    oref list \<Rightarrow> nat \<Rightarrow> tensors \<Rightarrow> ('w, 'z) ep_world_scheme \<Rightarrow> (unit, ('w, 'z) ep_world_scheme) outcome" where
  "mesh_rounds S complete chs 0 L w = Halt (NoReturn ''process_CQ'') w"
| "mesh_rounds S complete chs (Suc n) L w = bindO (foldO (mesh_turn S complete) chs L w) (mesh_rounds S complete chs n)"

definition server_process_CQ :: "'w sys \<Rightarrow> nat \<Rightarrow> nat \<Rightarrow> oref list \<Rightarrow> ('w, 'z) ep_world_scheme \<Rightarrow> (unit, ('w, 'z) ep_world_scheme) outcome" where
  "server_process_CQ S fuel rounds chs w =
     bindO (check (length chs \<le> 64) ''Currently, one thread only support <=64 connection'' w) (\<lambda>_ w.
     bindO (mesh_setup S fuel chs w) (\<lambda>L w.
     mesh_rounds S (server_complete S) chs rounds L w))"

definition client_process_CQ :: "'w sys \<Rightarrow> nat \<Rightarrow> nat \<Rightarrow> oref list \<Rightarrow> ('w, 'z) ep_world_scheme \<Rightarrow> (unit, ('w, 'z) ep_world_scheme) outcome" where
  "client_process_CQ S fuel rounds chs w =
     bindO (check (length chs = 1) ''Currently, one thread only place 1 connection at client side'' w) (\<lambda>_ w.
     bindO (mesh_setup S fuel chs w) (\<lambda>L w.
     bindO (forO (request_buffer S L) chs w) (\<lambda>_ w.
     mesh_rounds S (client_complete S) chs rounds L w)))"

section \<open>The services\<close>

text \<open>Both services return what \<open>running\<close> hands to the poll threads, whose bodies are the two functions
  above. The constructor of the server sets the session id of the caller's configuration after the base
  class has copied it.\<close>

definition ServerTower_new :: "Config \<Rightarrow> ('w, 'z) ep_world_scheme \<Rightarrow> (oref \<times> Config, ('w, 'z) ep_world_scheme) outcome" where
  "ServerTower_new conf w = bindO (RDMASession_new conf w) (\<lambda>this. Ret (this, conf\<lparr>session_id := ''FullMeshService''\<rparr>))"

definition server_config :: "Config \<Rightarrow> Config" where
  "server_config conf = conf\<lparr>role := ''master'', master_ip := [], serve_as_client := False\<rparr>"

definition client_config :: "Config \<Rightarrow> string \<Rightarrow> Config" where
  "client_config conf server_ip = conf\<lparr>role := ''slaver'', master_ip := server_ip, cluster := [], serve_as_client := True\<rparr>"

definition start_server_service :: "'w sys \<Rightarrow> nat \<Rightarrow> (oref list \<Rightarrow> oref list) \<Rightarrow> Config \<Rightarrow> ('w, 'z) ep_world_scheme \<Rightarrow>
    (oref list list, ('w, 'z) ep_world_scheme) outcome" where
  "start_server_service S fuel schedule conf w =
     bindO (ServerTower_new (server_config conf) w) (\<lambda>(this, _) w.
     bindO (server_init_session S fuel this w) (\<lambda>_ w.
     bindO (mesh_server_lazy_config_hca this w) (\<lambda>_ w.
     bindO (deref_sess this w) (\<lambda>s w.
     bindO (real_connecting S fuel (schedule (end_point_mgr s)) w) (\<lambda>_ w.
     running_threads this w)))))"

definition start_client_service :: "'w sys \<Rightarrow> nat \<Rightarrow> (oref list \<Rightarrow> oref list) \<Rightarrow> Config \<Rightarrow> string \<Rightarrow> ('w, 'z) ep_world_scheme \<Rightarrow>
    (oref list list, ('w, 'z) ep_world_scheme) outcome" where
  "start_client_service S fuel schedule conf server_ip w =
     bindO (RDMASession_new (client_config conf server_ip) w) (\<lambda>this w.
     bindO (client_init_session S fuel this w) (\<lambda>_ w.
     bindO (mesh_client_lazy_config_hca this w) (\<lambda>_ w.
     bindO (deref_sess this w) (\<lambda>s w.
     bindO (real_connecting S fuel (schedule (end_point_mgr s)) w) (\<lambda>_ w.
     running_threads this w)))))"

text \<open>\<open>main\<close>: the threads it starts, each with a copy of the configuration.\<close>

datatype mesh_service = Server_service Config | Client_service Config string

definition mesh_main :: "string \<Rightarrow> string list \<Rightarrow> (mesh_service list, Derived_Config) outcome" where
  "mesh_main ip argv =
     bindO (parse_args ip argv default_Config) (\<lambda>_ conf.
     let c = Config.truncate conf in
     Ret (Server_service c # map (Client_service c) (cluster conf)) conf)"

section \<open>The client's window\<close>

text \<open>\<open>sending ch i ring k w\<close>: of the 128 blocks of the send ring of channel \<open>i\<close>, \<open>k\<close> are handed out, and the
  channel counts as many requests in flight.\<close>

definition sending :: "oref \<Rightarrow> nat \<Rightarrow> oref \<Rightarrow> nat \<Rightarrow> ('w, 'z) ep_world_scheme \<Rightarrow> bool" where
  "sending ch i ring k w \<longleftrightarrow> ring_at 16384 NUM_BLOCK ring w \<and> length (outstanding ring w) = k \<and> i < 2 ^ 32 \<and>
     (case channels w ch of None \<Rightarrow> False | Some c \<Rightarrow> sq_inflight c = int k \<and> indexed_by_session c = int i)"

lemma sendingE:
  assumes "sending ch i ring k w"
  obtains c where "ring_at 16384 NUM_BLOCK ring w" "length (outstanding ring w) = k" "i < 2 ^ 32" "channels w ch = Some c"
    "sq_inflight c = int k" "indexed_by_session c = int i"
  using assms by (auto simp: sending_def split: option.splits)

lemma sending_cong:
  assumes "buffers t = buffers w" "next_ref t = next_ref w" "channels t ch = Some (c\<lparr>sq_inflight := int k'\<rparr>)"
    and "channels w ch = Some c" "sending ch i ring k w" "k' = length (outstanding ring w)"
  shows "sending ch i ring k' t"
  using assms ring_cong [OF assms(1,2)] by (simp add: sending_def)

lemma post_write_step:
  assumes S: "posts_accepted S" and w: "sending ch i ring k w" and room: "k < NUM_BLOCK" "0 < ring_budget ring w"
    and peer: "16384 \<le> unat (cd_buffer_length peer)"
  shows "\<exists>t. post_write S ch ring peer w = Ret () t \<and> sending ch i ring (Suc k) t \<and> Suc (ring_budget ring t) = ring_budget ring w"
proof -
  from w obtain c where f: "ring_at 16384 NUM_BLOCK ring w" "length (outstanding ring w) = k" "i < 2 ^ 32" "channels w ch = Some c"
    "sq_inflight c = int k" "indexed_by_session c = int i" by (rule sendingE)
  have "length (outstanding ring w) < NUM_BLOCK" using f(2) room(1) by simp
  from f(1) this room(2) obtain x t sb where t: "buffer_next ring w = Ret x t" "ring_at 16384 NUM_BLOCK ring t"
      "outstanding ring t = outstanding ring w @ [x]" "Suc (ring_budget ring t) = ring_budget ring w" "ring_frame ring w t"
    and sb: "x \<noteq> 0" "buffers t x = Some sb" "armed sb 16384" "unat (buffer_size sb) = 16384"
    by (rule ring_at_next)
  have ch: "channels t ch = Some c" using t(5) f(4) by (auto simp: ring_frame_def)
  have len: "unat (ucast (buffer_size sb) :: u32) = 16384" using sb(4) by (simp add: unsigned_ucast_eq)
  have "\<exists>u. write_remote S ch x (ucast (buffer_size sb)) peer (data_code TRANSFER_RAW_DATA) False t = Ret True u"
    using post_armed(4) [OF S sb(2,3,1), of "ucast (buffer_size sb)" ch peer] len sb(4) peer ch by simp
  then obtain u where u: "write_remote S ch x (ucast (buffer_size sb)) peer (data_code TRANSFER_RAW_DATA) False t = Ret True u" by blast
  from post_Ret(2) [OF ch u] obtain h where u': "u = t\<lparr>channels := (channels t)(ch \<mapsto> c\<lparr>sq_inflight := sq_inflight c + 1\<rparr>), hw := h\<rparr>" by blast
  have "sending ch i ring (Suc k) u"
    using t(2,3) f ring_cong [of u t] u' by (simp add: sending_def)
  moreover have "ring_budget ring u = ring_budget ring t" by (rule ring_cong(3)) (simp_all add: u')
  ultimately show ?thesis using t(1,4) sb(2) u by (simp add: post_write_def deref_buf_def)
qed

lemma completion_step:
  assumes w: "sending ch i ring k w" and "0 < k"
  shows "\<exists>w1 x t. add_sqe (- 1) ch w = Ret () w1 \<and> buffer_last ring w1 = Ret x t \<and> sending ch i ring (k - 1) t \<and>
    ring_budget ring t = ring_budget ring w"
proof -
  from w obtain c where f: "ring_at 16384 NUM_BLOCK ring w" "length (outstanding ring w) = k" "i < 2 ^ 32" "channels w ch = Some c"
    "sq_inflight c = int k" "indexed_by_session c = int i" by (rule sendingE)
  let ?w = "w\<lparr>channels := (channels w)(ch \<mapsto> c\<lparr>sq_inflight := int k - 1\<rparr>)\<rparr>"
  have 1: "add_sqe (- 1) ch w = Ret () ?w" using f(4,5) by (simp add: add_sqe_def chan_defs)
  have c: "ring_at 16384 NUM_BLOCK ring ?w" "outstanding ring ?w = outstanding ring w" "ring_budget ring ?w = ring_budget ring w"
    using ring_cong [of ?w w] f(1) by simp_all
  from c(1) have "0 < length (outstanding ring ?w)" using c(2) f(2) assms(2) by simp
  from c(1) this obtain x t where t: "buffer_last ring ?w = Ret x t" "ring_at 16384 NUM_BLOCK ring t"
      "outstanding ring ?w = x # outstanding ring t" "ring_budget ring t = ring_budget ring ?w" "ring_frame ring ?w t"
    by (rule ring_at_last)
  have "channels t ch = Some (c\<lparr>sq_inflight := int k - 1\<rparr>)" using t(5) by (auto simp: ring_frame_def)
  moreover have "length (outstanding ring t) = k - 1" using t(3) c(2) f(2) by simp
  ultimately have "sending ch i ring (k - 1) t" using t(2) f(3,6) assms(2) by (simp add: sending_def)
  with 1 t(1,4) c(3) show ?thesis by simp
qed

lemma sending_bound:
  assumes "sending ch i ring k w" shows "k \<le> NUM_BLOCK \<and> distinct (outstanding ring w)"
proof -
  from assms have ok: "ring_ok ring w" and k: "k = length (outstanding ring w)" and cap: "ring_capacity ring w = NUM_BLOCK"
    by (simp_all add: sending_def ring_at_def)
  from ok obtain b where b: "buffers w ring = Some b" "next_active b - last_active b \<le> int (unat (blocks b))" by (rule ring_okE)
  then have "k \<le> NUM_BLOCK" using k cap by (simp add: outstanding_length [OF b(1)] ring_capacity_def nat_le_iff del: uint_nat of_nat_unat)
  with outstanding_distinct [OF ok] show ?thesis by simp
qed

text \<open>Completions in the order the queue pair can produce them: never more than there are requests.\<close>

fun window :: "oref \<Rightarrow> nat \<Rightarrow> ibv_wc list \<Rightarrow> bool" where
  "window ch k [] = True"
| "window ch k (wc # wcs) \<longleftrightarrow> wc_status wc = IBV_WC_SUCCESS \<and> wc_wr_id wc = ch \<and> 0 < k \<and>
     (wc_opcode wc = IBV_WC_SEND \<and> window ch (k - 1) wcs \<or> wc_opcode wc = IBV_WC_RDMA_WRITE \<and> window ch k wcs)"

abbreviation (input) sends :: "ibv_wc list \<Rightarrow> nat" where
  "sends wcs \<equiv> length (filter (\<lambda>wc. wc_opcode wc = IBV_WC_SEND) wcs)"

section \<open>Lemmas: the start\<close>

lemma post_writes:
  assumes S: "posts_accepted S" and peer: "16384 \<le> unat (cd_buffer_length peer)"
  shows "sending ch i ring k w \<Longrightarrow> k + length xs \<le> NUM_BLOCK \<Longrightarrow> length xs \<le> ring_budget ring w \<Longrightarrow>
    \<exists>t. forO (\<lambda>_. post_write S ch ring peer) xs w = Ret () t \<and> sending ch i ring (k + length xs) t"
proof (induction xs arbitrary: k w)
  case (Cons a xs)
  have "k < NUM_BLOCK" "0 < ring_budget ring w" using Cons.prems by simp_all
  from post_write_step [OF S Cons.prems(1) this peer] obtain u where "post_write S ch ring peer w = Ret () u" "sending ch i ring (Suc k) u"
      "Suc (ring_budget ring u) = ring_budget ring w" by blast
  with Cons.IH [of "Suc k" u] Cons.prems show ?case by simp
qed simp

lemma sending_other:
  assumes "ring_frame r w t" "rings_apart r ring w" "sending ch i ring k w"
  shows "sending ch i ring k t" "ring_budget ring t = ring_budget ring w"
proof -
  from assms(3) have at: "ring_at 16384 NUM_BLOCK ring w" by (simp add: sending_def)
  have "channels t = channels w" using assms(1) by (auto simp: ring_frame_def)
  then show "sending ch i ring k t" "ring_budget ring t = ring_budget ring w"
    using assms(3) ring_other [OF assms(1,2) at] by (simp_all add: sending_def)
qed

section \<open>Properties\<close>



text \<open>A ring of 128 blocks with the first \<open>k\<close> of them in use, and a channel with a send ring (one block in use)
  and a receive ring (all blocks in use), for the witnesses.\<close>

definition mesh_peer :: CommDescriptor where
  "mesh_peer = \<lparr>cd_buffer_addr = 8192, cd_buffer_length = 2097152, cd_rkey = 9, cd_fd = 0\<rparr>"

definition mesh_world :: "lb_state ep_world" where
  "mesh_world = group_world\<lparr>next_ref := 400, mem := mem_write 4198400 (CommDescriptor_bytes mesh_peer) (\<lambda>_. 0),
     buffers := demo_ring 128 16384 1 4096 1 ++ demo_ring 128 16384 201 4198400 128,
     channels := [3 \<mapsto> (RDMAChannel_init ''D'' 2)\<lparr>ad_qp := 31, sq_inflight := 1, indexed_by_session := 0\<rparr>]\<rparr>"

lemma mesh_world_rings:
  "ring_at 16384 NUM_BLOCK 1 mesh_world" "outstanding 1 mesh_world = [2]" "ring_budget 1 mesh_world = 2147483647"
  "ring_at 16384 NUM_BLOCK 201 mesh_world" "outstanding 201 mesh_world = [202..<330]" "ring_budget 201 mesh_world = 2147483520"
  "rings_apart 201 1 mesh_world"
proof -
  have "buffers mesh_world x = demo_ring 128 16384 1 4096 1 x" if "1 \<le> x" "x \<le> 1 + 128" for x
    using that by (simp add: mesh_world_def map_add_def demo_ring_def)
  note 1 = demo_ring_at [of 1 128 mesh_world 16384 4096 1, OF this]
  have "buffers mesh_world x = demo_ring 128 16384 201 4198400 128 x" if "201 \<le> x" "x \<le> 201 + 128" for x
    using that by (simp add: mesh_world_def map_add_def demo_ring_def)
  note 2 = demo_ring_at [of 201 128 mesh_world 16384 4198400 128, OF this]
  have n: "next_ref mesh_world = 400" by (simp add: mesh_world_def)
  show "ring_at 16384 NUM_BLOCK 1 mesh_world" "outstanding 1 mesh_world = [2]" "ring_budget 1 mesh_world = 2147483647"
    using 1 n by (simp_all add: upt_rec)
  show "ring_at 16384 NUM_BLOCK 201 mesh_world" "outstanding 201 mesh_world = [202..<330]" "ring_budget 201 mesh_world = 2147483520"
    using 2 n by (simp_all del: upt_rec_numeral)
  show "rings_apart 201 1 mesh_world" using 1(4) 2(4) n by (auto simp: rings_apart_def)
qed

lemma mesh_world_sending: "sending 3 0 1 1 mesh_world"
  using mesh_world_rings by (simp add: sending_def mesh_world_def)

definition mesh_wc :: "ibv_wc_opcode \<Rightarrow> ibv_wc" where
  "mesh_wc opc = \<lparr>wc_wr_id = 3, wc_status = IBV_WC_SUCCESS, wc_opcode = opc, wc_byte_len = 24, wc_imm_data = data_code RESPONSE_TO_REQUEST_BUFFER, wc_with_imm = False\<rparr>"

definition mesh_tensors :: tensors where
  "mesh_tensors = \<lparr>tensor_buffer_send = [1], tensor_buffer_recv = [201], peer_comm_fd_mgr = [mesh_peer]\<rparr>"


text \<open>Property C37. The start of the mesh client. When the server's answer arrives and all receive blocks are posted,
  the client reads the descriptor from the very block the answer came into (the ring is full, so the
  block handed out next is the one just given back), records it, and starts 127 writes: the requests in
  flight grow from at most 1 to at most 128, one per block.\<close>

theorem client_starts_writing:
  assumes S: "posts_accepted S" and snd: "sending ch i sring k w" "k \<le> 1" "127 \<le> ring_budget sring w"
    and rcv: "ring_at 16384 NUM_BLOCK rring w" "length (outstanding rring w) = NUM_BLOCK" "0 < ring_budget rring w" "rings_apart rring sring w"
    and L: "nth_opt (tensor_buffer_send L) i = Some sring" "nth_opt (tensor_buffer_recv L) i = Some rring" "i < length (peer_comm_fd_mgr L)"
    and wc: "wc_status wc = IBV_WC_SUCCESS" "wc_wr_id wc = ch" "wc_opcode wc = IBV_WC_RECV" "wc_imm_data wc = data_code RESPONSE_TO_REQUEST_BUFFER"
    and d: "buffers w (hd (outstanding rring w)) = Some rb" "mem_read (data_ptr rb) sizeof_CommDescriptor (mem w) = CommDescriptor_bytes d"
      "16384 \<le> unat (cd_buffer_length d)"
  shows "\<exists>t. client_complete S each wc L w = Ret (L\<lparr>peer_comm_fd_mgr := (peer_comm_fd_mgr L)[i := d]\<rparr>) t \<and> sending ch i sring (k + 127) t"
proof -
  from snd(1) obtain c where c: "channels w ch = Some c" "indexed_by_session c = int i" "i < 2 ^ 32" by (auto elim: sendingE)
  have ch: "completed_channel S each wc w = Ret (ch, of_nat i) w" using wc c by (simp add: completed_channel_def deref_chan_def)
  have i: "unat (of_nat i :: u32) = i" using c(3) by (simp add: unat_of_nat take_bit_nat_eq_self)
  let ?w = "w\<lparr>channels := (channels w)(ch \<mapsto> c\<lparr>rq_inflight := rq_inflight c - 1\<rparr>)\<rparr>"
  have 1: "add_rqe (- 1) ch w = Ret () ?w" using c(1) by (simp add: add_rqe_def chan_defs)
  have r1: "ring_at 16384 NUM_BLOCK rring ?w" "outstanding rring ?w = outstanding rring w" "ring_budget rring ?w = ring_budget rring w"
      "ring_budget sring ?w = ring_budget sring w"
    using ring_cong [of ?w w] rcv(1) by simp_all
  have s1: "sending ch i sring k ?w" using snd(1) ring_cong [of ?w w] c(1) by (simp add: sending_def)
  have a1: "rings_apart rring sring ?w" using rcv(4) by (simp add: rings_apart_def ring_objects_def)
  have "0 < length (outstanding rring ?w)" using rcv(2) r1(2) by simp
  with r1(1) obtain x t where l: "buffer_last rring ?w = Ret x t" by (rule ring_at_last)
  have full: "length (outstanding rring ?w) = NUM_BLOCK" "0 < ring_budget rring ?w" using r1(2,3) rcv(2,3) by simp_all
  from r1(1) full l obtain u where u: "buffer_next rring t = Ret x u" "ring_frame rring ?w t" "ring_frame rring t u" "hd (outstanding rring ?w) = x"
    by (rule full_ring_again)
  note s2 = sending_other [OF u(2) a1 s1]
  have "rings_apart rring sring t" using a1 by (simp add: rings_apart_def ring_objects_frame [OF u(2)])
  note s3 = sending_other [OF u(3) this s2(1)]
  have "map_option buf_core (buffers u x) = map_option buf_core (buffers w x)" "mem u = mem w"
    using u(2,3) by (auto simp: ring_frame_def)
  moreover have "buffers w x = Some rb" using d(1) u(4) r1(2) by simp
  ultimately obtain rb' where rb': "buffers u x = Some rb'" "data_ptr rb' = data_ptr rb" "mem u = mem w"
    by (auto dest: buf_core_fields)
  have elems: "elem (tensor_buffer_send L) (of_nat i) m v = Ret sring v" "elem (tensor_buffer_recv L) (of_nat i) m v = Ret rring v"
      "elem (peer_comm_fd_mgr L) (of_nat i) m v = Ret (peer_comm_fd_mgr L ! i) v"
    for m and v :: "('a, 'b) ep_world_scheme"
    using L i by (simp_all add: elem_def nth_opt_def)
  have "k + length [0..<NUM_BLOCK - 1] \<le> NUM_BLOCK" "length [0..<NUM_BLOCK - 1] \<le> ring_budget sring u"
    using snd(2,3) s2(2) s3(2) r1(4) by simp_all
  from post_writes [OF S d(3) s3(1) this] obtain v where v: "forO (\<lambda>_. post_write S ch sring d) [0..<NUM_BLOCK - 1] u = Ret () v"
      "sending ch i sring (k + 127) v" by auto
  have "client_complete S each wc L w = Ret (L\<lparr>peer_comm_fd_mgr := (peer_comm_fd_mgr L)[i := d]\<rparr>) v"
    using ch 1 l u(1) rb' d(2) v(1) wc(3,4) i
    by (simp add: client_complete_def elems deref_buf_def Let_def CommDescriptor_bytes_inverse del: upt_rec_numeral)
  with v(2) show ?thesis by blast
qed


theorem client_starts_writing_witness:
  "\<exists>t. client_complete loopback 3 (mesh_wc IBV_WC_RECV) mesh_tensors mesh_world = Ret mesh_tensors t \<and> sending 3 0 1 128 t"
proof -
  have L: "nth_opt (tensor_buffer_send mesh_tensors) 0 = Some 1" "nth_opt (tensor_buffer_recv mesh_tensors) 0 = Some 201"
      "0 < length (peer_comm_fd_mgr mesh_tensors)" "mesh_tensors\<lparr>peer_comm_fd_mgr := (peer_comm_fd_mgr mesh_tensors)[0 := mesh_peer]\<rparr> = mesh_tensors"
    by (simp_all add: mesh_tensors_def nth_opt_def)
  have wc: "wc_status (mesh_wc IBV_WC_RECV) = IBV_WC_SUCCESS" "wc_wr_id (mesh_wc IBV_WC_RECV) = 3" "wc_opcode (mesh_wc IBV_WC_RECV) = IBV_WC_RECV"
      "wc_imm_data (mesh_wc IBV_WC_RECV) = data_code RESPONSE_TO_REQUEST_BUFFER"
    by (simp_all add: mesh_wc_def)
  have "hd (outstanding 201 mesh_world) = 202" using mesh_world_rings(5) by (simp add: upt_rec)
  then have d: "buffers mesh_world (hd (outstanding 201 mesh_world)) = Some (demo_block 16384 201 4198400 128 0)"
    by (simp add: mesh_world_def map_add_def demo_ring_def)
  have "mem_read 4198400 24 (mem mesh_world) = CommDescriptor_bytes mesh_peer"
    using mem_read_write [of "CommDescriptor_bytes mesh_peer" 4198400] by (simp add: mesh_world_def)
  then have e: "mem_read (data_ptr (demo_block 16384 201 4198400 128 0)) 24 (mem mesh_world) = CommDescriptor_bytes mesh_peer" by (simp add: demo_block_def)
  have n: "127 \<le> ring_budget 1 mesh_world" "length (outstanding 201 mesh_world) = NUM_BLOCK" "0 < ring_budget 201 mesh_world"
      "16384 \<le> unat (cd_buffer_length mesh_peer)"
    using mesh_world_rings by (simp_all add: mesh_peer_def del: upt_rec_numeral)
  from client_starts_writing [OF loopback_posts(1) mesh_world_sending _ n(1) mesh_world_rings(4) n(2,3) mesh_world_rings(7) L(1-3) wc d e n(4), of 3]
  show ?thesis by (simp add: L(4))
qed

end
