(* ===== verification/Benchmark.thy ===== *)
theory Benchmark
  imports Block_Rings
begin

text \<open>
  \<open>example/lat_bw_benchmark.cc\<close>: latency and bandwidth between one client and one server, each with one
  channel and a ring of 1000 blocks of 8 MiB. The sessions keep the channel, the ring, the array of the
  last completions and the peer's descriptor as members, the record \<open>bench\<close>. A loop that waits for a
  completion runs at most \<open>fuel\<close> times. Times are measured and printed only, so timer and output are
  left out.
\<close>

section \<open>Data\<close>

datatype MessageforTest = REQUEST_BUFFER | RESPONSE_TO_REQUEST_BUFFER | SEND_TEST_REQUEST | RESPONSE_TO_SEND_TEST_REQUEST
  | WRITE_TEST_REQUEST | RESPONSE_TO_WRITE_TEST_REQUEST | READ_TEST_REQUEST | RESPONSE_TO_READ_TEST_REQUEST | BYEBYE | TEST_RAW_DATA

primrec test_code :: "MessageforTest \<Rightarrow> u32" where
  "test_code REQUEST_BUFFER = 1"
| "test_code RESPONSE_TO_REQUEST_BUFFER = 2"
| "test_code SEND_TEST_REQUEST = 3"
| "test_code RESPONSE_TO_SEND_TEST_REQUEST = 4"
| "test_code WRITE_TEST_REQUEST = 5"
| "test_code RESPONSE_TO_WRITE_TEST_REQUEST = 6"
| "test_code READ_TEST_REQUEST = 7"
| "test_code RESPONSE_TO_READ_TEST_REQUEST = 8"
| "test_code BYEBYE = 255"
| "test_code TEST_RAW_DATA = 299"

text \<open>\<open>global_wc\<close>: the entries of the array that have a value; \<open>buffer_peer\<close> is \<open>None\<close> until it is read.\<close>

record bench =
  active_channel :: oref
  benchmark_buffer :: oref
  global_wc :: "ibv_wc list"
  buffer_peer :: "CommDescriptor option"

abbreviation (input) BENCH_BLOCK :: "'a::len word" where "BENCH_BLOCK \<equiv> 8388608"

text \<open>\<open>for (uint32_t b = 1; b <= 8 * MB; b *= 2)\<close>\<close>

definition bench_sizes :: "u32 list" where
  "bench_sizes = map (\<lambda>i. 2 ^ i) [0..<24]"

text \<open>The size in the printed results: the number of bytes, of KiB or of MiB.\<close>

definition size_text :: "u64 \<Rightarrow> string" where
  "size_text msg_length =
     (if msg_length < 1024 then nat_string (unat msg_length)
      else if msg_length < 1048576 then nat_string (unat (msg_length div 1024)) @ '' K''
      else nat_string (unat (msg_length div 1048576)) @ '' M'')"

section \<open>Waiting for completions\<close>

primrec poll_wait :: "'w sys \<Rightarrow> nat \<Rightarrow> int \<Rightarrow> bench \<Rightarrow> ('w, 'z) ep_world_scheme \<Rightarrow> (int \<times> bench, ('w, 'z) ep_world_scheme) outcome" where
  "poll_wait S 0 n m w = Halt (NoReturn ''poll_cq_batch'') w"
| "poll_wait S (Suc fuel) n m w =
     bindO (poll_cq_batch S (active_channel m) n w) (\<lambda>(num_wqe, wcs) w.
     let m = m\<lparr>global_wc := wcs @ drop (length wcs) (global_wc m)\<rparr> in
     if num_wqe = 0 then poll_wait S fuel n m w else Ret (num_wqe, m) w)"

definition poll_one :: "'w sys \<Rightarrow> nat \<Rightarrow> bench \<Rightarrow> ('w, 'z) ep_world_scheme \<Rightarrow> (ibv_wc \<times> bench, ('w, 'z) ep_world_scheme) outcome" where
  "poll_one S fuel m w =
     bindO (poll_wait S fuel 1 m w) (\<lambda>(_, m) w.
     bindO (deref (nth_opt (global_wc m) 0) ''global_wc'' w) (\<lambda>wc w.
     bindO (check (wc_status wc = IBV_WC_SUCCESS) ''Failed to query exchange info with error'' w) (\<lambda>_ w.
     Ret (wc, m) w)))"

definition expect :: "'w sys \<Rightarrow> nat \<Rightarrow> ibv_wc_opcode \<Rightarrow> bench \<Rightarrow> ('w, 'z) ep_world_scheme \<Rightarrow> (ibv_wc \<times> bench, ('w, 'z) ep_world_scheme) outcome" where
  "expect S fuel opc m w =
     bindO (poll_one S fuel m w) (\<lambda>(wc, m) w.
     bindO (check (wc_opcode wc = opc) ''Unexpected opcode'' w) (\<lambda>_ w.
     Ret (wc, m) w))"

text \<open>The client waits for the completion of its request and for the answer, in either order.\<close>

function await_both :: "'w sys \<Rightarrow> nat \<Rightarrow> u32 \<Rightarrow> bool \<Rightarrow> bool \<Rightarrow> bench \<Rightarrow> ('w, 'z) ep_world_scheme \<Rightarrow> (bench, ('w, 'z) ep_world_scheme) outcome" where
  "await_both S fuel answer send_completion recv_completion m w =
     (if send_completion \<and> recv_completion then Ret m w
      else
        bindO (poll_one S fuel m w) (\<lambda>r w.
        if wc_opcode (fst r) = IBV_WC_SEND then
          bindO (check (\<not> send_completion) ''Unexpected send completion events'' w) (\<lambda>_ w.
          await_both S fuel answer True recv_completion (snd r) w)
        else
          bindO (check (wc_opcode (fst r) = IBV_WC_RECV) ''Receive unexpected opcode'' w) (\<lambda>_ w.
          bindO (check (wc_imm_data (fst r) = answer) ''Unexpected message for the test benchmark'' w) (\<lambda>_ w.
          bindO (check (\<not> recv_completion) ''Unexpected receive completion events'' w) (\<lambda>_ w.
          await_both S fuel answer send_completion True (snd r) w)))))"
  by pat_completeness auto

termination await_both
  by (relation "measure (\<lambda>(S, fuel, answer, s, r, m, w). (if s then 0 else 1) + (if r then 0 else (1 :: nat)))")
    (auto simp: check_def split: if_splits)

declare await_both.simps [simp del]

section \<open>Shared set-up\<close>

definition bench_register_buffer :: "'w sys \<Rightarrow> oref \<Rightarrow> bench \<Rightarrow> ('w, 'z) ep_world_scheme \<Rightarrow> (bench, ('w, 'z) ep_world_scheme) outcome" where
  "bench_register_buffer S ch m w =
     bindO (check (ch \<noteq> 0) ''active_channel_ != nullptr'' w) (\<lambda>_ w.
     bindO (allocate_buffer S BENCH_BLOCK 1000 ''benchmark_buffer'' w) (\<lambda>buf w.
     let m = m\<lparr>active_channel := ch, benchmark_buffer := buf\<rparr> in
     bindO (register_buffer S ch buf w) (\<lambda>_ w.
     bindO (buffer_at buf 0 w) (\<lambda>buffer_recv w.
     bindO (deref_buf buffer_recv w) (\<lambda>b w.
     bindO (recv_remote S ch buffer_recv (ucast (buffer_size b)) w) (\<lambda>_ w.
     Ret m w))))))"

definition bench_start :: "'w sys \<Rightarrow> nat \<Rightarrow> oref list \<Rightarrow> ('w, 'z) ep_world_scheme \<Rightarrow> (bench, ('w, 'z) ep_world_scheme) outcome" where
  "bench_start S fuel chs w =
     bindO (check (length chs = 1) ''Invalid aggregated_channels for this task'' w) (\<lambda>_ w.
     bindO (bench_register_buffer S (hd chs) \<lparr>active_channel = 0, benchmark_buffer = 0, global_wc = [], buffer_peer = None\<rparr> w) (\<lambda>m w.
     bindO (deref_chan (hd chs) w) (\<lambda>c w.
     bindO (sync_with_peer S fuel (registered_endpoint c) w) (\<lambda>_ w.
     Ret m w))))"

definition bench_lazy_config :: "AdapterConfig \<Rightarrow> AdapterConfig" where
  "bench_lazy_config c = c\<lparr>ac_using_shared_cq := False, ac_max_recv_wr := 1024, ac_max_send_wr := 1024, ac_cq_size := 1024 + 1024\<rparr>"

section \<open>The client\<close>

definition client_exchange_buffer_info :: "'w sys \<Rightarrow> nat \<Rightarrow> bench \<Rightarrow> ('w, 'z) ep_world_scheme \<Rightarrow> (bench, ('w, 'z) ep_world_scheme) outcome" where
  "client_exchange_buffer_info S fuel m w =
     bindO (buffer_at (benchmark_buffer m) 1 w) (\<lambda>buffer_to_send w.
     bindO (send_remote S (active_channel m) buffer_to_send 2 (test_code REQUEST_BUFFER) w) (\<lambda>_ w.
     bindO (await_both S fuel (test_code RESPONSE_TO_REQUEST_BUFFER) False False m w) (\<lambda>m w.
     bindO (buffer_at (benchmark_buffer m) 0 w) (\<lambda>r w.
     bindO (deref_buf r w) (\<lambda>b w.
     Ret (m\<lparr>buffer_peer := Some (bytes_CommDescriptor (mem_read (data_ptr b) sizeof_CommDescriptor (mem w)))\<rparr>) w)))))"

text \<open>One operation on the next block of the ring, its completion, and the block given back; 1000 times.\<close>

definition measure_step :: "'w sys \<Rightarrow> nat \<Rightarrow> (oref \<Rightarrow> ('w, 'z) ep_world_scheme \<Rightarrow> (bool, ('w, 'z) ep_world_scheme) outcome) \<Rightarrow> ibv_wc_opcode \<Rightarrow>
    nat \<Rightarrow> bench \<Rightarrow> ('w, 'z) ep_world_scheme \<Rightarrow> (bench, ('w, 'z) ep_world_scheme) outcome" where
  "measure_step S fuel post opc _ m w =
     bindO (buffer_next (benchmark_buffer m) w) (\<lambda>x w.
     bindO (post x w) (\<lambda>_ w.
     bindO (expect S fuel opc m w) (\<lambda>(_, m) w.
     bindO (buffer_last (benchmark_buffer m) w) (\<lambda>_ w.
     Ret m w))))"

definition measure_ops :: "'w sys \<Rightarrow> nat \<Rightarrow> (oref \<Rightarrow> ('w, 'z) ep_world_scheme \<Rightarrow> (bool, ('w, 'z) ep_world_scheme) outcome) \<Rightarrow> ibv_wc_opcode \<Rightarrow>
    bench \<Rightarrow> ('w, 'z) ep_world_scheme \<Rightarrow> (bench, ('w, 'z) ep_world_scheme) outcome" where
  "measure_ops S fuel post opc m w = foldO (measure_step S fuel post opc) [0..<1000] m w"

definition client_lat_send :: "'w sys \<Rightarrow> nat \<Rightarrow> u32 \<Rightarrow> bench \<Rightarrow> ('w, 'z) ep_world_scheme \<Rightarrow> (bench, ('w, 'z) ep_world_scheme) outcome" where
  "client_lat_send S fuel msg_length m w =
     bindO (buffer_at (benchmark_buffer m) 0 w) (\<lambda>r w.
     bindO (recv_remote S (active_channel m) r 64 w) (\<lambda>_ w.
     bindO (buffer_at (benchmark_buffer m) 1 w) (\<lambda>buffer_to_send w.
     bindO (send_remote S (active_channel m) buffer_to_send 2 (test_code SEND_TEST_REQUEST) w) (\<lambda>_ w.
     bindO (await_both S fuel (test_code RESPONSE_TO_SEND_TEST_REQUEST) False False m w) (\<lambda>m w.
     measure_ops S fuel (\<lambda>x. send_remote S (active_channel m) x msg_length (test_code TEST_RAW_DATA)) IBV_WC_SEND m w)))))"

definition write_test :: "'w sys \<Rightarrow> nat \<Rightarrow> u32 \<Rightarrow> bench \<Rightarrow> ('w, 'z) ep_world_scheme \<Rightarrow> (bench, ('w, 'z) ep_world_scheme) outcome" where
  "write_test S fuel msg_length m w =
     bindO (deref (buffer_peer m) ''buffer_peer'' w) (\<lambda>peer w.
     measure_ops S fuel (\<lambda>x. write_remote S (active_channel m) x msg_length peer (test_code TEST_RAW_DATA) False) IBV_WC_RDMA_WRITE m w)"

definition read_test :: "'w sys \<Rightarrow> nat \<Rightarrow> u32 \<Rightarrow> bench \<Rightarrow> ('w, 'z) ep_world_scheme \<Rightarrow> (bench, ('w, 'z) ep_world_scheme) outcome" where
  "read_test S fuel msg_length m w =
     bindO (deref (buffer_peer m) ''buffer_peer'' w) (\<lambda>peer w.
     measure_ops S fuel (\<lambda>x. read_remote S (active_channel m) x msg_length peer) IBV_WC_RDMA_READ m w)"

text \<open>The bandwidth tests post 1000 writes and then collect the completions in batches: at most 1000 turns. The
  first test walks the ring, the second writes block 0 again and again (\<open>round_robin = False\<close>).\<close>

definition confirm_wc :: "bool \<Rightarrow> oref \<Rightarrow> ibv_wc \<Rightarrow> nat \<Rightarrow> ('w, 'z) ep_world_scheme \<Rightarrow> (nat, ('w, 'z) ep_world_scheme) outcome" where
  "confirm_wc round_robin buf wc confirm w =
     bindO (check (wc_status wc = IBV_WC_SUCCESS) ''Failed to query exchange info with error'' w) (\<lambda>_ w.
     bindO (check (wc_opcode wc = IBV_WC_RDMA_WRITE) ''Unexpected opcode'' w) (\<lambda>_ w.
     bindO (if round_robin then bindO (buffer_last buf w) (\<lambda>_. Ret ()) else Ret () w) (\<lambda>_ w.
     Ret (confirm + 1) w)))"

primrec confirm_loop :: "'w sys \<Rightarrow> nat \<Rightarrow> bool \<Rightarrow> nat \<Rightarrow> nat \<Rightarrow> bench \<Rightarrow> ('w, 'z) ep_world_scheme \<Rightarrow> (nat \<times> bench, ('w, 'z) ep_world_scheme) outcome" where
  "confirm_loop S fuel round_robin 0 confirm m w = Ret (confirm, m) w"
| "confirm_loop S fuel round_robin (Suc turns) confirm m w =
     (if confirm \<ge> 1000 then Ret (confirm, m) w
      else
        bindO (poll_wait S fuel 128 m w) (\<lambda>(num_wqe, m) w.
        bindO (foldO (confirm_wc round_robin (benchmark_buffer m)) (take (nat num_wqe) (global_wc m)) confirm w) (\<lambda>confirm w.
        confirm_loop S fuel round_robin turns confirm m w)))"

definition bw_post :: "'w sys \<Rightarrow> bool \<Rightarrow> u32 \<Rightarrow> CommDescriptor \<Rightarrow> bench \<Rightarrow> nat \<Rightarrow> ('w, 'z) ep_world_scheme \<Rightarrow> (unit, ('w, 'z) ep_world_scheme) outcome" where
  "bw_post S round_robin msg_length peer m _ w =
     bindO (if round_robin then buffer_next (benchmark_buffer m) w else buffer_at (benchmark_buffer m) 0 w) (\<lambda>x w.
     bindO (write_remote S (active_channel m) x msg_length peer (test_code TEST_RAW_DATA) False w) (\<lambda>_ w.
     Ret () w))"

definition bw_test :: "'w sys \<Rightarrow> nat \<Rightarrow> bool \<Rightarrow> u32 \<Rightarrow> bench \<Rightarrow> ('w, 'z) ep_world_scheme \<Rightarrow> (bench, ('w, 'z) ep_world_scheme) outcome" where
  "bw_test S fuel round_robin msg_length m w =
     bindO (deref (buffer_peer m) ''buffer_peer'' w) (\<lambda>peer w.
     bindO (forO (bw_post S round_robin msg_length peer m) [0..<1000] w) (\<lambda>_ w.
     bindO (confirm_loop S fuel round_robin 1000 0 m w) (\<lambda>(confirm, m) w.
     bindO (check (confirm = 1000) ''confirm == 1000'' w) (\<lambda>_ w.
     Ret m w))))"

definition write_bw_test :: "'w sys \<Rightarrow> nat \<Rightarrow> u32 \<Rightarrow> bench \<Rightarrow> ('w, 'z) ep_world_scheme \<Rightarrow> (bench, ('w, 'z) ep_world_scheme) outcome" where
  "write_bw_test S fuel msg_length m w = bw_test S fuel True msg_length m w"

definition write_bw_test_fake :: "'w sys \<Rightarrow> nat \<Rightarrow> u32 \<Rightarrow> bench \<Rightarrow> ('w, 'z) ep_world_scheme \<Rightarrow> (bench, ('w, 'z) ep_world_scheme) outcome" where
  "write_bw_test_fake S fuel msg_length m w = bw_test S fuel False msg_length m w"

definition bench_client_process_CQ :: "'w sys \<Rightarrow> nat \<Rightarrow> oref list \<Rightarrow> ('w, 'z) ep_world_scheme \<Rightarrow> (unit, ('w, 'z) ep_world_scheme) outcome" where
  "bench_client_process_CQ S fuel chs w =
     bindO (bench_start S fuel chs w) (\<lambda>m w.
     bindO (client_exchange_buffer_info S fuel m w) (\<lambda>m w.
     bindO (foldO (client_lat_send S fuel) bench_sizes m w) (\<lambda>m w.
     bindO (foldO (write_test S fuel) bench_sizes m w) (\<lambda>m w.
     bindO (foldO (read_test S fuel) bench_sizes m w) (\<lambda>m w.
     bindO (foldO (write_bw_test S fuel) bench_sizes m w) (\<lambda>m w.
     bindO (foldO (write_bw_test_fake S fuel) bench_sizes m w) (\<lambda>m w.
     bindO (buffer_at (benchmark_buffer m) 0 w) (\<lambda>x w.
     bindO (send_remote S (active_channel m) x 64 (test_code BYEBYE) w) (\<lambda>_ w.
     Ret () w)))))))))"

definition bench_client_lazy_config_hca :: "oref \<Rightarrow> ('w, 'z) ep_world_scheme \<Rightarrow> (unit, ('w, 'z) ep_world_scheme) outcome" where
  "bench_client_lazy_config_hca this w =
     bindO (deref_sess this w) (\<lambda>s w.
     bindO (check (length (end_point_mgr s) = 1) ''Invalid configuration for your test'' w) (\<lambda>_ w.
     forO (configure_channel bench_lazy_config) (end_point_mgr s) w))"

section \<open>The server\<close>

text \<open>The descriptor is written into block 1 field by field; its last field keeps what is there.\<close>

definition server_exchange_buffer_info :: "'w sys \<Rightarrow> nat \<Rightarrow> bench \<Rightarrow> ('w, 'z) ep_world_scheme \<Rightarrow> (bench, ('w, 'z) ep_world_scheme) outcome" where
  "server_exchange_buffer_info S fuel m w =
     bindO (expect S fuel IBV_WC_RECV m w) (\<lambda>(wc, m) w.
     bindO (check (wc_imm_data wc = test_code REQUEST_BUFFER) ''Unexpected message for the exchange buffer'' w) (\<lambda>_ w.
     bindO (buffer_at (benchmark_buffer m) 1 w) (\<lambda>mybuffer w.
     bindO (deref_buf mybuffer w) (\<lambda>mb w.
     bindO (buffer_at (benchmark_buffer m) 0 w) (\<lambda>buffer_to_write w.
     bindO (deref_buf buffer_to_write w) (\<lambda>b w.
     bindO (defined_if (data_ptr mb \<noteq> 0 \<and> buf_mr b \<noteq> 0) ''mybuffer'' w) (\<lambda>_ w.
     let old = bytes_CommDescriptor (mem_read (data_ptr mb) sizeof_CommDescriptor (mem w));
         d = old\<lparr>cd_buffer_addr := data_ptr b, cd_buffer_length := buffer_size b, cd_rkey := ibv_mr_rkey S (buf_mr b) (hw w)\<rparr>;
         w = w\<lparr>mem := mem_write (data_ptr mb) (CommDescriptor_bytes d) (mem w)\<rparr> in
     bindO (send_remote S (active_channel m) mybuffer 64 (test_code RESPONSE_TO_REQUEST_BUFFER) w) (\<lambda>_ w.
     bindO (expect S fuel IBV_WC_SEND m w) (\<lambda>(_, m) w.
     Ret m w)))))))))"

definition post_block_recv :: "'w sys \<Rightarrow> bench \<Rightarrow> nat \<Rightarrow> ('w, 'z) ep_world_scheme \<Rightarrow> (unit, ('w, 'z) ep_world_scheme) outcome" where
  "post_block_recv S m _ w =
     bindO (buffer_next (benchmark_buffer m) w) (\<lambda>buffer_bin w.
     bindO (deref_buf buffer_bin w) (\<lambda>b w.
     bindO (recv_remote S (active_channel m) buffer_bin (ucast (buffer_size b)) w) (\<lambda>_ w.
     Ret () w)))"

definition await_raw :: "'w sys \<Rightarrow> nat \<Rightarrow> nat \<Rightarrow> bench \<Rightarrow> ('w, 'z) ep_world_scheme \<Rightarrow> (bench, ('w, 'z) ep_world_scheme) outcome" where
  "await_raw S fuel _ m w =
     bindO (expect S fuel IBV_WC_RECV m w) (\<lambda>(wc, m) w.
     bindO (check (wc_imm_data wc = test_code TEST_RAW_DATA) ''Invalid msg_type'' w) (\<lambda>_ w.
     bindO (buffer_last (benchmark_buffer m) w) (\<lambda>_ w.
     Ret m w)))"

definition server_lat_send :: "'w sys \<Rightarrow> nat \<Rightarrow> u32 \<Rightarrow> bench \<Rightarrow> ('w, 'z) ep_world_scheme \<Rightarrow> (bench, ('w, 'z) ep_world_scheme) outcome" where
  "server_lat_send S fuel _ m w =
     bindO (buffer_at (benchmark_buffer m) 0 w) (\<lambda>r w.
     bindO (recv_remote S (active_channel m) r 64 w) (\<lambda>_ w.
     bindO (expect S fuel IBV_WC_RECV m w) (\<lambda>(_, m) w.
     bindO (forO (post_block_recv S m) [0..<1000] w) (\<lambda>_ w.
     bindO (buffer_at (benchmark_buffer m) 1 w) (\<lambda>x w.
     bindO (send_remote S (active_channel m) x 0 (test_code RESPONSE_TO_SEND_TEST_REQUEST) w) (\<lambda>_ w.
     bindO (expect S fuel IBV_WC_SEND m w) (\<lambda>(_, m) w.
     foldO (await_raw S fuel) [0..<1000] m w)))))))"

definition bench_server_process_CQ :: "'w sys \<Rightarrow> nat \<Rightarrow> oref list \<Rightarrow> ('w, 'z) ep_world_scheme \<Rightarrow> (unit, ('w, 'z) ep_world_scheme) outcome" where
  "bench_server_process_CQ S fuel chs w =
     bindO (bench_start S fuel chs w) (\<lambda>m w.
     bindO (server_exchange_buffer_info S fuel m w) (\<lambda>m w.
     bindO (foldO (server_lat_send S fuel) bench_sizes m w) (\<lambda>m w.
     bindO (buffer_at (benchmark_buffer m) 0 w) (\<lambda>x w.
     bindO (recv_remote S (active_channel m) x 64 w) (\<lambda>_ w.
     bindO (expect S fuel IBV_WC_RECV m w) (\<lambda>(wc, _) w.
     check (wc_imm_data wc = test_code BYEBYE) ''Unexpected message for the test benchmark'' w))))))"

definition bench_server_lazy_config_hca :: "oref \<Rightarrow> ('w, 'z) ep_world_scheme \<Rightarrow> (unit, ('w, 'z) ep_world_scheme) outcome" where
  "bench_server_lazy_config_hca this w =
     bindO (deref_sess this w) (\<lambda>s w. forO (configure_channel bench_lazy_config) (end_point_mgr s) w)"

section \<open>The program\<close>

text \<open>\<open>main\<close> up to the start of the poll threads, whose bodies are the two \<open>process_CQ\<close> functions.\<close>

definition bench_main :: "'w sys \<Rightarrow> nat \<Rightarrow> (oref list \<Rightarrow> oref list) \<Rightarrow> string \<Rightarrow> string list \<Rightarrow> ('w, 'z) ep_world_scheme \<Rightarrow>
    (oref list list, ('w, 'z) ep_world_scheme) outcome" where
  "bench_main S fuel schedule ip argv w =
     bindO (configured ip argv w) (\<lambda>conf w.
      if role conf = ''master'' then
        bindO (RDMASession_new (conf\<lparr>serve_as_client := False\<rparr>) w) (\<lambda>this w.
        bindO (server_init_session S fuel this w) (\<lambda>_ w.
        bindO (bench_server_lazy_config_hca this w) (\<lambda>_ w.
        bindO (deref_sess this w) (\<lambda>s w.
        bindO (real_connecting S fuel (schedule (end_point_mgr s)) w) (\<lambda>_ w.
        running_threads this w)))))
      else if role conf = ''slaver'' then
        bindO (RDMASession_new (conf\<lparr>serve_as_client := True\<rparr>) w) (\<lambda>this w.
        bindO (client_init_session S fuel this w) (\<lambda>_ w.
        bindO (bench_client_lazy_config_hca this w) (\<lambda>_ w.
        bindO (deref_sess this w) (\<lambda>s w.
        bindO (real_connecting S fuel (schedule (end_point_mgr s)) w) (\<lambda>_ w.
        running_threads this w)))))
      else Halt (LogFatal ''Unknown role for'') w)"

text \<open>The sizes tested are powers of two, so the division in their texts leaves no rest.\<close>

lemma size_texts: "map (\<lambda>n. size_text (ucast n)) bench_sizes =
  [''1'', ''2'', ''4'', ''8'', ''16'', ''32'', ''64'', ''128'', ''256'', ''512'', ''1 K'', ''2 K'', ''4 K'', ''8 K'', ''16 K'', ''32 K'', ''64 K'',
   ''128 K'', ''256 K'', ''512 K'', ''1 M'', ''2 M'', ''4 M'', ''8 M'']"
  by code_simp

section \<open>A device that completes every request\<close>

primrec wc_of :: "ibv_wr_opcode \<Rightarrow> ibv_wc_opcode" where
  "wc_of IBV_WR_SEND_WITH_IMM = IBV_WC_SEND"
| "wc_of IBV_WR_RDMA_WRITE = IBV_WC_RDMA_WRITE"
| "wc_of IBV_WR_RDMA_WRITE_WITH_IMM = IBV_WC_RDMA_WRITE"
| "wc_of IBV_WR_RDMA_READ = IBV_WC_RDMA_READ"

definition succeeded :: "ibv_wc_opcode \<Rightarrow> ibv_wc \<Rightarrow> bool" where
  "succeeded opc wc \<longleftrightarrow> wc_status wc = IBV_WC_SUCCESS \<and> wc_opcode wc = opc"

text \<open>\<open>pend\<close>: the completions to come on the queue; \<open>idle\<close>: how many polls still find nothing, at most \<open>d\<close>. A posted
  request adds its successful completion; a poll that finds something takes at least one, in order.\<close>

definition completing :: "'w sys \<Rightarrow> oref \<Rightarrow> oref \<Rightarrow> ('w \<Rightarrow> ibv_wc list) \<Rightarrow> ('w \<Rightarrow> nat) \<Rightarrow> nat \<Rightarrow> bool" where
  "completing S qp cq pend idle d \<longleftrightarrow> cq \<noteq> 0 \<and> (\<forall>h. idle h \<le> d) \<and>
     (\<forall>wr h. \<exists>wc. pend (snd (ibv_post_send S qp wr h)) = pend h @ [wc] \<and> succeeded (wc_of (swr_opcode wr)) wc) \<and>
     (\<forall>n m h. 1 \<le> n \<and> pend h \<noteq> [] \<longrightarrow>
       (if 0 < idle h then \<exists>m' h'. ibv_poll_cq S cq n m h = ((0, []), m', h') \<and> pend h' = pend h \<and> idle h' < idle h
        else \<exists>k m' h'. 1 \<le> k \<and> k \<le> nat n \<and> k \<le> length (pend h) \<and>
          ibv_poll_cq S cq n m h = ((int k, take k (pend h)), m', h') \<and> pend h' = drop k (pend h)))"

lemma completing_post:
  "completing S qp cq pend idle d \<Longrightarrow> \<exists>wc. pend (snd (ibv_post_send S qp wr h)) = pend h @ [wc] \<and> succeeded (wc_of (swr_opcode wr)) wc"
  unfolding completing_def by (elim conjE) (drule spec [of _ wr], drule spec [of _ h], assumption)

text \<open>\<open>testing\<close>: \<open>k\<close> blocks are handed out, and the completions of as many requests are to come; the channel has
  counted \<open>j\<close> requests.\<close>

definition testing :: "oref \<Rightarrow> oref \<Rightarrow> ('w \<Rightarrow> ibv_wc list) \<Rightarrow> nat \<Rightarrow> ibv_wc_opcode \<Rightarrow> bench \<Rightarrow> nat \<Rightarrow> int \<Rightarrow> ('w, 'z) ep_world_scheme \<Rightarrow> bool" where
  "testing qp cq pend n opc m k j w \<longleftrightarrow> ring_at n 1000 (benchmark_buffer m) w \<and> length (outstanding (benchmark_buffer m) w) = k \<and>
     length (pend (hw w)) = k \<and> list_all (succeeded opc) (pend (hw w)) \<and>
     (case channels w (active_channel m) of None \<Rightarrow> False | Some c \<Rightarrow> ad_qp c = qp \<and> used_cq c = cq \<and> sq_inflight c = j)"

lemma testingE:
  assumes "testing qp cq pend n opc m k j w"
  obtains c where "ring_at n 1000 (benchmark_buffer m) w" "length (outstanding (benchmark_buffer m) w) = k" "length (pend (hw w)) = k"
    "list_all (succeeded opc) (pend (hw w))" "channels w (active_channel m) = Some c" "ad_qp c = qp" "used_cq c = cq" "sq_inflight c = j"
  using assms by (auto simp: testing_def split: option.splits)

lemma testing_wc [simp]: "testing qp cq pend n opc (m\<lparr>global_wc := g\<rparr>) k j w = testing qp cq pend n opc m k j w"
  by (simp add: testing_def)

lemma poll_wait_returns:
  assumes S: "completing S qp cq pend idle d" and n: "1 \<le> n"
    and c: "channels w (active_channel m) = Some c" "used_cq c = cq" and p: "pend (hw w) \<noteq> []" and f: "idle (hw w) < fuel"
  shows "\<exists>k g mm h. poll_wait S fuel n m w =
      Ret (int k, m\<lparr>global_wc := take k (pend (hw w)) @ g\<rparr>) (w\<lparr>hw := h, mem := mm\<rparr>) \<and>
    1 \<le> k \<and> k \<le> nat n \<and> k \<le> length (pend (hw w)) \<and> pend h = drop k (pend (hw w))"
  using c p f
proof (induction fuel arbitrary: m w)
  case (Suc fuel)
  from S have cq: "cq \<noteq> 0" by (simp add: completing_def)
  have poll: "poll_wait S (Suc fuel) n m w = (case ibv_poll_cq S cq n (mem w) (hw w) of ((num, wcs), mm, h) \<Rightarrow>
      let m' = m\<lparr>global_wc := wcs @ drop (length wcs) (global_wc m)\<rparr>; w' = w\<lparr>hw := h, mem := mm\<rparr> in
      if num = 0 then poll_wait S fuel n m' w' else Ret (num, m') w')"
    using Suc.prems(1,2) cq n by (simp add: poll_cq_batch_def real_poll_completion_queue_def deref_chan_def Let_def split: prod.splits)
  show ?case
  proof (cases "0 < idle (hw w)")
    case True
    with S n Suc.prems(3) obtain mm h where h: "ibv_poll_cq S cq n (mem w) (hw w) = ((0, []), mm, h)" "pend h = pend (hw w)" "idle h < idle (hw w)"
      unfolding completing_def by meson
    let ?w = "w\<lparr>hw := h, mem := mm\<rparr>"
    have "poll_wait S (Suc fuel) n m w = poll_wait S fuel n m ?w" using poll h(1) by simp
    moreover from Suc.IH [of ?w m] Suc.prems h obtain k g mm' h' where
      "poll_wait S fuel n m ?w = Ret (int k, m\<lparr>global_wc := take k (pend (hw w)) @ g\<rparr>) (?w\<lparr>hw := h', mem := mm'\<rparr>)"
      "1 \<le> k" "k \<le> nat n" "k \<le> length (pend (hw w))" "pend h' = drop k (pend (hw w))" by auto
    ultimately show ?thesis by auto
  next
    case False
    with S n Suc.prems(3) obtain k mm h where h: "ibv_poll_cq S cq n (mem w) (hw w) = ((int k, take k (pend (hw w))), mm, h)"
      "pend h = drop k (pend (hw w))" "1 \<le> k" "k \<le> nat n" "k \<le> length (pend (hw w))"
      unfolding completing_def by meson
    then show ?thesis using poll by (auto simp: Let_def)
  qed
qed simp

lemma ring_hw [simp]:
  "ring_at n cap r (w\<lparr>hw := h, mem := mm\<rparr>) = ring_at n cap r w" "outstanding r (w\<lparr>hw := h, mem := mm\<rparr>) = outstanding r w"
  "ring_budget r (w\<lparr>hw := h, mem := mm\<rparr>) = ring_budget r w"
  by (rule ring_cong, simp, simp)+

lemma give_back:
  assumes "testing qp cq pend n opc m k j w" "0 < k" "w' = w\<lparr>hw := h, mem := mm\<rparr>" "pend h = tl (pend (hw w))"
  shows "\<exists>x t. buffer_last (benchmark_buffer m) w' = Ret x t \<and> testing qp cq pend n opc m (k - 1) j t \<and>
    ring_budget (benchmark_buffer m) t = ring_budget (benchmark_buffer m) w"
proof -
  from assms(1) obtain c where f: "ring_at n 1000 (benchmark_buffer m) w" "length (outstanding (benchmark_buffer m) w) = k" "length (pend (hw w)) = k"
    "list_all (succeeded opc) (pend (hw w))" "channels w (active_channel m) = Some c" "ad_qp c = qp" "used_cq c = cq" "sq_inflight c = j"
    by (rule testingE)
  have "ring_at n 1000 (benchmark_buffer m) w'" "0 < length (outstanding (benchmark_buffer m) w')" using f(1,2) assms(2,3) by simp_all
  then obtain x t where t: "buffer_last (benchmark_buffer m) w' = Ret x t" "ring_at n 1000 (benchmark_buffer m) t"
      "outstanding (benchmark_buffer m) w' = x # outstanding (benchmark_buffer m) t"
      "ring_budget (benchmark_buffer m) t = ring_budget (benchmark_buffer m) w'" "ring_frame (benchmark_buffer m) w' t"
    by (rule ring_at_last)
  have same: "channels t = channels w" "hw t = h" using t(5) assms(3) by (auto simp: ring_frame_def)
  have "length (outstanding (benchmark_buffer m) t) = k - 1" using t(3) f(2) assms(3) by simp
  moreover have "list_all (succeeded opc) (tl (pend (hw w)))" using f(4) by (cases "pend (hw w)") simp_all
  ultimately have "testing qp cq pend n opc m (k - 1) j t" using t(2) f same assms(4) by (simp add: testing_def)
  with t(1,4) assms(3) show ?thesis by simp
qed

section \<open>The operations under test\<close>

text \<open>What the tests rely on in an operation: on a block that is registered and large enough it posts one request
  whose completion has the operation's opcode.\<close>

locale bench_op =
  fixes S :: "'w sys" and ch :: oref and n :: nat and ready :: bool
    and post :: "oref \<Rightarrow> ('w, 'z) ep_world_scheme \<Rightarrow> (bool, ('w, 'z) ep_world_scheme) outcome" and opc :: ibv_wc_opcode
  assumes posts: "ready \<Longrightarrow> buffers w x = Some b \<Longrightarrow> armed b n \<Longrightarrow> x \<noteq> 0 \<Longrightarrow> channels w ch = Some c \<Longrightarrow>
    \<exists>t wr. post x w = Ret True t \<and> wc_of (swr_opcode wr) = opc \<and>
      t = w\<lparr>channels := (channels w)(ch \<mapsto> c\<lparr>sq_inflight := sq_inflight c + 1\<rparr>), hw := snd (ibv_post_send S (ad_qp c) wr (hw w))\<rparr>"
begin

lemma post_next:
  assumes r: ready and S: "completing S qp cq pend idle d" and w: "testing qp cq pend n opc m k j w" and m: "active_channel m = ch"
    and room: "k < 1000" "0 < ring_budget (benchmark_buffer m) w"
  shows "\<exists>x w1 t. buffer_next (benchmark_buffer m) w = Ret x w1 \<and> post x w1 = Ret True t \<and> testing qp cq pend n opc m (Suc k) (j + 1) t \<and>
    Suc (ring_budget (benchmark_buffer m) t) = ring_budget (benchmark_buffer m) w"
proof -
  from w obtain c where f: "ring_at n 1000 (benchmark_buffer m) w" "length (outstanding (benchmark_buffer m) w) = k" "length (pend (hw w)) = k"
    "list_all (succeeded opc) (pend (hw w))" "channels w (active_channel m) = Some c" "ad_qp c = qp" "used_cq c = cq" "sq_inflight c = j"
    by (rule testingE)
  have "length (outstanding (benchmark_buffer m) w) < 1000" using f(2) room(1) by simp
  from f(1) this room(2) obtain x w1 sb where w1: "buffer_next (benchmark_buffer m) w = Ret x w1" "ring_at n 1000 (benchmark_buffer m) w1"
      "outstanding (benchmark_buffer m) w1 = outstanding (benchmark_buffer m) w @ [x]"
      "Suc (ring_budget (benchmark_buffer m) w1) = ring_budget (benchmark_buffer m) w" "ring_frame (benchmark_buffer m) w w1"
    and sb: "x \<noteq> 0" "buffers w1 x = Some sb" "armed sb n"
    by (rule ring_at_next)
  have same: "channels w1 ch = Some c" "hw w1 = hw w" using w1(5) f(5) m by (auto simp: ring_frame_def)
  from posts [OF r sb(2,3,1) same(1)] obtain t wr where t: "post x w1 = Ret True t" "wc_of (swr_opcode wr) = opc"
      "t = w1\<lparr>channels := (channels w1)(ch \<mapsto> c\<lparr>sq_inflight := sq_inflight c + 1\<rparr>), hw := snd (ibv_post_send S qp wr (hw w))\<rparr>"
    using same(2) f(6) by auto
  obtain wc where "pend (hw t) = pend (hw w) @ [wc]" "succeeded opc wc" using completing_post [OF S, of wr "hw w"] t(2,3) by auto
  moreover have "ring_at n 1000 (benchmark_buffer m) t" "outstanding (benchmark_buffer m) t = outstanding (benchmark_buffer m) w1"
      "ring_budget (benchmark_buffer m) t = ring_budget (benchmark_buffer m) w1"
    using ring_cong [of t w1] w1(2) t(3) by simp_all
  ultimately have "testing qp cq pend n opc m (Suc k) (j + 1) t" using f w1(3) t(3) m by (simp add: testing_def)
  with w1(1,4) t(1) \<open>ring_budget (benchmark_buffer m) t = _\<close> show ?thesis by auto
qed

lemma measure_one:
  assumes r: ready and S: "completing S qp cq pend idle d" and w: "testing qp cq pend n opc m 0 j w" and m: "active_channel m = ch"
    and room: "0 < ring_budget (benchmark_buffer m) w" and fuel: "d < fuel"
  shows "\<exists>g t. measure_step S fuel post opc i m w = Ret (m\<lparr>global_wc := g\<rparr>) t \<and> testing qp cq pend n opc m 0 (j + 1) t \<and>
    Suc (ring_budget (benchmark_buffer m) t) = ring_budget (benchmark_buffer m) w"
proof -
  from post_next [OF r S w m _ room] obtain x w1 t where
    p: "buffer_next (benchmark_buffer m) w = Ret x w1" "post x w1 = Ret True t" "testing qp cq pend n opc m 1 (j + 1) t"
      "Suc (ring_budget (benchmark_buffer m) t) = ring_budget (benchmark_buffer m) w" by auto
  from p(3) obtain c where f: "length (pend (hw t)) = 1" "list_all (succeeded opc) (pend (hw t))" "channels t (active_channel m) = Some c" "used_cq c = cq"
    by (rule testingE)
  have idle: "idle (hw t) < fuel" using S fuel le_less_trans unfolding completing_def by blast
  have "pend (hw t) \<noteq> []" using f(1) by auto
  from poll_wait_returns [OF S _ f(3,4) this idle, of 1] f(1) obtain g mm h where
    q: "poll_wait S fuel 1 m t = Ret (1, m\<lparr>global_wc := pend (hw t) @ g\<rparr>) (t\<lparr>hw := h, mem := mm\<rparr>)" "pend h = tl (pend (hw t))"
    by (auto simp: le_Suc_eq drop_Suc)
  obtain wc where wc: "pend (hw t) = [wc]" "succeeded opc wc" using f(1,2) by (cases "pend (hw t)") auto
  have e: "expect S fuel opc m t = Ret (wc, m\<lparr>global_wc := wc # g\<rparr>) (t\<lparr>hw := h, mem := mm\<rparr>)"
    using q(1) wc by (simp add: expect_def poll_one_def nth_opt_def succeeded_def)
  from give_back [OF p(3) _ refl [of "t\<lparr>hw := h, mem := mm\<rparr>"] q(2)] obtain y u where
    "buffer_last (benchmark_buffer m) (t\<lparr>hw := h, mem := mm\<rparr>) = Ret y u" "testing qp cq pend n opc m 0 (j + 1) u"
    "ring_budget (benchmark_buffer m) u = ring_budget (benchmark_buffer m) t" by auto
  with p e show ?thesis by (auto simp: measure_step_def)
qed

lemma measure_returns:
  assumes r: ready and S: "completing S qp cq pend idle d" and fuel: "d < fuel"
  shows "testing qp cq pend n opc m 0 j w \<Longrightarrow> active_channel m = ch \<Longrightarrow> length is \<le> ring_budget (benchmark_buffer m) w \<Longrightarrow>
    \<exists>g t. foldO (measure_step S fuel post opc) is m w = Ret (m\<lparr>global_wc := g\<rparr>) t \<and> testing qp cq pend n opc m 0 (j + int (length is)) t"
proof (induction "is" arbitrary: m j w)
  case Nil
  then show ?case by (intro exI [of _ "global_wc m"] exI [of _ w]) simp
next
  case (Cons i "is")
  from measure_one [OF r S Cons.prems(1,2) _ fuel, of i] Cons.prems(3) obtain g t where
    t: "measure_step S fuel post opc i m w = Ret (m\<lparr>global_wc := g\<rparr>) t" "testing qp cq pend n opc m 0 (j + 1) t"
      "Suc (ring_budget (benchmark_buffer m) t) = ring_budget (benchmark_buffer m) w" by auto
  from Cons.IH [of "m\<lparr>global_wc := g\<rparr>" "j + 1" t] t Cons.prems show ?case by (auto simp: add.assoc)
qed

end

lemma send_posts:
  assumes "posts_accepted S" "unat len \<le> n" "buffers w x = Some b" "armed b n" "x \<noteq> 0" "channels w ch = Some c"
  shows "\<exists>t wr. send_remote S ch x len tag w = Ret True t \<and> wc_of (swr_opcode wr) = IBV_WC_SEND \<and>
      t = w\<lparr>channels := (channels w)(ch \<mapsto> c\<lparr>sq_inflight := sq_inflight c + 1\<rparr>), hw := snd (ibv_post_send S (ad_qp c) wr (hw w))\<rparr>"
    "unat len \<le> unat (cd_buffer_length peer) \<Longrightarrow> \<exists>t wr. write_remote S ch x len peer tag False w = Ret True t \<and> wc_of (swr_opcode wr) = IBV_WC_RDMA_WRITE \<and>
      t = w\<lparr>channels := (channels w)(ch \<mapsto> c\<lparr>sq_inflight := sq_inflight c + 1\<rparr>), hw := snd (ibv_post_send S (ad_qp c) wr (hw w))\<rparr>"
    "unat len \<le> unat (cd_buffer_length peer) \<Longrightarrow> \<exists>t wr. read_remote S ch x len peer w = Ret True t \<and> wc_of (swr_opcode wr) = IBV_WC_RDMA_READ \<and>
      t = w\<lparr>channels := (channels w)(ch \<mapsto> c\<lparr>sq_inflight := sq_inflight c + 1\<rparr>), hw := snd (ibv_post_send S (ad_qp c) wr (hw w))\<rparr>"
proof -
  have len: "unat len \<le> unat (buffer_size b)" using assms(2,4) by (simp add: armed_def)
  from assms(4) have mr: "0 < buf_mr b" by (simp add: armed_def)
  note simps = usable_armed [OF assms(3,4,5) len] assms(6) mr assms(1) [unfolded posts_accepted_def] add_sqe_def chan_defs hw_call_eq post_send_def
    real_send_def real_read_remote_def real_write_remote_def
  show "\<exists>t wr. send_remote S ch x len tag w = Ret True t \<and> wc_of (swr_opcode wr) = IBV_WC_SEND \<and>
      t = w\<lparr>channels := (channels w)(ch \<mapsto> c\<lparr>sq_inflight := sq_inflight c + 1\<rparr>), hw := snd (ibv_post_send S (ad_qp c) wr (hw w))\<rparr>"
    by (simp add: send_remote_def simps) (rule exI, rule conjI [rotated], rule refl, simp)
  assume "unat len \<le> unat (cd_buffer_length peer)"
  then show "\<exists>t wr. write_remote S ch x len peer tag False w = Ret True t \<and> wc_of (swr_opcode wr) = IBV_WC_RDMA_WRITE \<and>
      t = w\<lparr>channels := (channels w)(ch \<mapsto> c\<lparr>sq_inflight := sq_inflight c + 1\<rparr>), hw := snd (ibv_post_send S (ad_qp c) wr (hw w))\<rparr>"
    "\<exists>t wr. read_remote S ch x len peer w = Ret True t \<and> wc_of (swr_opcode wr) = IBV_WC_RDMA_READ \<and>
      t = w\<lparr>channels := (channels w)(ch \<mapsto> c\<lparr>sq_inflight := sq_inflight c + 1\<rparr>), hw := snd (ibv_post_send S (ad_qp c) wr (hw w))\<rparr>"
    by (simp_all add: write_remote_def read_remote_def simps Let_def) (rule exI, rule conjI [rotated], rule refl, simp)+
qed

interpretation bsend: bench_op S ch n "posts_accepted S \<and> unat len \<le> n" "\<lambda>x. send_remote S ch x len tag" IBV_WC_SEND
  for S :: "'w sys" and ch n len tag
  by unfold_locales (rule send_posts(1), auto)

interpretation bwrite: bench_op S ch n "posts_accepted S \<and> unat len \<le> n \<and> unat len \<le> unat (cd_buffer_length peer)"
    "\<lambda>x. write_remote S ch x len peer tag False" IBV_WC_RDMA_WRITE
  for S :: "'w sys" and ch n len peer tag
  by unfold_locales (rule send_posts(2), auto)

interpretation bread: bench_op S ch n "posts_accepted S \<and> unat len \<le> n \<and> unat len \<le> unat (cd_buffer_length peer)"
    "\<lambda>x. read_remote S ch x len peer" IBV_WC_RDMA_READ
  for S :: "'w sys" and ch n len peer
  by unfold_locales (rule send_posts(3), auto)

lemma testing_idle: "testing qp cq pend n opc m 0 j w \<Longrightarrow> testing qp cq pend n opc' m 0 j w"
  by (auto simp: testing_def)

section \<open>Lemmas: the bandwidth test\<close>

lemma bw_posts:
  assumes S: "completing S qp cq pend idle d" "posts_accepted S" "unat len \<le> n" "unat len \<le> unat (cd_buffer_length peer)"
  shows "testing qp cq pend n IBV_WC_RDMA_WRITE m k j w \<Longrightarrow> k + length is \<le> 1000 \<Longrightarrow> length is \<le> ring_budget (benchmark_buffer m) w \<Longrightarrow>
    \<exists>t. forO (bw_post S True len peer m) is w = Ret () t \<and> testing qp cq pend n IBV_WC_RDMA_WRITE m (k + length is) (j + int (length is)) t"
proof (induction "is" arbitrary: k j w)
  case (Cons i "is")
  have r: "posts_accepted S \<and> unat len \<le> n \<and> unat len \<le> unat (cd_buffer_length peer)" "k < 1000" "0 < ring_budget (benchmark_buffer m) w"
    using S Cons.prems by simp_all
  from bwrite.post_next [OF r(1) S(1) Cons.prems(1) refl r(2,3)] obtain x w1 t where
    t: "buffer_next (benchmark_buffer m) w = Ret x w1" "write_remote S (active_channel m) x len peer (test_code TEST_RAW_DATA) False w1 = Ret True t"
      "testing qp cq pend n IBV_WC_RDMA_WRITE m (Suc k) (j + 1) t" "Suc (ring_budget (benchmark_buffer m) t) = ring_budget (benchmark_buffer m) w" by blast
  have "bw_post S True len peer m i w = Ret () t" using t(1,2) by (simp add: bw_post_def)
  with Cons.IH [OF t(3)] Cons.prems t(4) show ?case by (simp add: add.assoc)
qed simp

lemma confirm_batch:
  assumes "list_all (succeeded IBV_WC_RDMA_WRITE) wcs"
  shows "ring_at n 1000 r w \<Longrightarrow> length wcs \<le> length (outstanding r w) \<Longrightarrow>
    \<exists>t. foldO (confirm_wc True r) wcs c w = Ret (c + length wcs) t \<and> ring_at n 1000 r t \<and>
      length (outstanding r t) = length (outstanding r w) - length wcs \<and> channels t = channels w \<and> hw t = hw w"
  using assms
proof (induction wcs arbitrary: c w)
  case (Cons wc wcs)
  have "0 < length (outstanding r w)" using Cons.prems(2) by auto
  from Cons.prems(1) this obtain x t where t: "buffer_last r w = Ret x t" "ring_at n 1000 r t" "outstanding r w = x # outstanding r t"
      "ring_frame r w t" by (rule ring_at_last)
  have "confirm_wc True r wc c w = Ret (c + 1) t" using t(1) Cons.prems(3) by (simp add: confirm_wc_def succeeded_def)
  moreover have "channels t = channels w" "hw t = hw w" using t(4) by (auto simp: ring_frame_def)
  ultimately show ?case using Cons.IH [OF t(2), of "c + 1"] Cons.prems(2,3) t(3) by (simp add: add.assoc)
qed simp

lemma confirm_loop_returns:
  assumes S: "completing S qp cq pend idle d" and fuel: "d < fuel"
  shows "testing qp cq pend n IBV_WC_RDMA_WRITE m k j w \<Longrightarrow> confirm + k = 1000 \<Longrightarrow> k \<le> turns \<Longrightarrow>
    \<exists>g t. confirm_loop S fuel True turns confirm m w = Ret (1000, m\<lparr>global_wc := g\<rparr>) t \<and> testing qp cq pend n IBV_WC_RDMA_WRITE m 0 j t"
proof (induction turns arbitrary: k confirm m w)
  case 0
  then show ?case by (intro exI [of _ "global_wc m"] exI [of _ w]) simp
next
  case (Suc turns)
  show ?case
  proof (cases "k = 0")
    case True
    with Suc.prems show ?thesis by (intro exI [of _ "global_wc m"] exI [of _ w]) simp
  next
    case False
    from Suc.prems(1) obtain c where f: "ring_at n 1000 (benchmark_buffer m) w" "length (outstanding (benchmark_buffer m) w) = k"
      "length (pend (hw w)) = k" "list_all (succeeded IBV_WC_RDMA_WRITE) (pend (hw w))" "channels w (active_channel m) = Some c"
      "ad_qp c = qp" "used_cq c = cq" "sq_inflight c = j" by (rule testingE)
    have idle: "idle (hw w) < fuel" using S fuel le_less_trans unfolding completing_def by blast
    have ne: "pend (hw w) \<noteq> []" using False f(3) by auto
    from poll_wait_returns [OF S _ f(5,7) ne idle, of 128] f(3) obtain i g mm h where
      q: "poll_wait S fuel 128 m w = Ret (int i, m\<lparr>global_wc := take i (pend (hw w)) @ g\<rparr>) (w\<lparr>hw := h, mem := mm\<rparr>)"
        "1 \<le> i" "i \<le> k" "pend h = drop i (pend (hw w))" by auto
    let ?w = "w\<lparr>hw := h, mem := mm\<rparr>" and ?m = "m\<lparr>global_wc := take i (pend (hw w)) @ g\<rparr>" and ?wcs = "take i (pend (hw w))"
    have len: "length ?wcs = i" using q(3) f(3) by simp
    have "list_all (succeeded IBV_WC_RDMA_WRITE) ?wcs" using f(4) by (meson list_all_iff in_set_takeD)
    from confirm_batch [OF this, of n "benchmark_buffer m" ?w confirm] f(1,2) q(3) len obtain t where
      t: "foldO (confirm_wc True (benchmark_buffer m)) ?wcs confirm ?w = Ret (confirm + i) t" "ring_at n 1000 (benchmark_buffer m) t"
        "length (outstanding (benchmark_buffer m) t) = k - i" "channels t = channels w" "hw t = h" by auto
    have "list_all (succeeded IBV_WC_RDMA_WRITE) (pend h)" using f(4) q(4) by (simp add: list_all_iff) (meson in_set_dropD)
    then have "testing qp cq pend n IBV_WC_RDMA_WRITE ?m (k - i) j t" using t f q by (simp add: testing_def)
    moreover have "confirm + i + (k - i) = 1000" "k - i \<le> turns" using q(2,3) Suc.prems(2,3) by linarith+
    ultimately obtain g' u where
      "confirm_loop S fuel True turns (confirm + i) ?m t = Ret (1000, m\<lparr>global_wc := g'\<rparr>) u" "testing qp cq pend n IBV_WC_RDMA_WRITE m 0 j u"
      using Suc.IH [of ?m "k - i" t "confirm + i"] by auto
    moreover have "take (nat (int i)) (global_wc ?m) = ?wcs" using len by simp
    ultimately show ?thesis using q(1) t(1) False Suc.prems(2) by auto
  qed
qed

section \<open>Witnesses\<close>

text \<open>The loopback device with completions: a posted request completes at once.\<close>

definition bench_device :: "lb_state sys" where
  "bench_device = loopback\<lparr>ibv_post_send := (\<lambda>qp wr h. (0, h\<lparr>lb_cqes := lb_cqes h @
     [\<lparr>wc_wr_id = swr_id wr, wc_status = IBV_WC_SUCCESS, wc_opcode = wc_of (swr_opcode wr), wc_byte_len = 0, wc_imm_data = 0, wc_with_imm = False\<rparr>]\<rparr>))\<rparr>"

lemma bench_device_completing: "completing bench_device 31 40 lb_cqes (\<lambda>_. 0) 0" "posts_accepted bench_device"
proof -
  have "\<exists>k m' h'. 1 \<le> k \<and> k \<le> nat n \<and> k \<le> length (lb_cqes h) \<and>
      ibv_poll_cq bench_device 40 n m h = ((int k, take k (lb_cqes h)), m', h') \<and> lb_cqes h' = drop k (lb_cqes h)"
    if "1 \<le> n" "lb_cqes h \<noteq> []" for n m h
  proof -
    let ?k = "min (nat n) (length (lb_cqes h))"
    have "1 \<le> length (lb_cqes h)" using that(2) by (cases "lb_cqes h") auto
    then have "1 \<le> ?k" using that(1) by simp
    moreover have "take ?k (lb_cqes h) = take (nat n) (lb_cqes h)" "drop ?k (lb_cqes h) = drop (nat n) (lb_cqes h)" by (simp_all add: min_def)
    ultimately show ?thesis by (intro exI [of _ ?k]) (simp add: bench_device_def loopback_def)
  qed
  then show "completing bench_device 31 40 lb_cqes (\<lambda>_. 0) 0"
    unfolding completing_def by (auto simp: bench_device_def succeeded_def)
  show "posts_accepted bench_device" by (simp add: posts_accepted_def bench_device_def loopback_def)
qed

definition bench_world :: "lb_state ep_world" where
  "bench_world = group_world\<lparr>next_ref := 2000, buffers := demo_ring 1000 8388608 5 4096 0,
     channels := [3 \<mapsto> (RDMAChannel_init ''D'' 2)\<lparr>ad_qp := 31, used_cq := 40\<rparr>]\<rparr>"

definition bench_members :: bench where
  "bench_members = \<lparr>active_channel = 3, benchmark_buffer = 5, global_wc = [],
     buffer_peer = Some \<lparr>cd_buffer_addr = 8192, cd_buffer_length = 8388608, cd_rkey = 9, cd_fd = 0\<rparr>\<rparr>"

lemma bench_world_idle:
  "testing 31 40 lb_cqes 8388608 IBV_WC_SEND bench_members 0 0 bench_world" "1000 \<le> ring_budget 5 bench_world"
proof -
  have "buffers bench_world x = demo_ring 1000 8388608 5 4096 0 x" for x by (simp add: bench_world_def)
  note r = demo_ring_at [of 5 1000 bench_world 8388608 4096 0, OF this]
  have n: "next_ref bench_world = 2000" by (simp add: bench_world_def)
  have "ring_at 8388608 1000 5 bench_world" "outstanding 5 bench_world = []" using r(1,2) n by simp_all
  moreover have "lb_cqes (hw bench_world) = []" by (simp add: bench_world_def group_world_def lb_init_def)
  ultimately show "testing 31 40 lb_cqes 8388608 IBV_WC_SEND bench_members 0 0 bench_world"
    by (simp add: testing_def bench_members_def) (simp add: bench_world_def RDMAChannel_init_def)
  show "1000 \<le> ring_budget 5 bench_world" using r(3) n by simp
qed

section \<open>Properties\<close>



text \<open>Property C29. The bandwidth test. On such a device \<open>write_bw_test\<close> posts 1000 writes before it collects their completions;
  however these are cut into batches, it returns with exactly 1000 confirmed and the ring idle.\<close>

theorem bandwidth_test_returns:
  assumes S: "completing S qp cq pend idle d" "posts_accepted S" "d < fuel" and w: "testing qp cq pend n opc m 0 j w"
    and len: "unat len \<le> n" "unat len \<le> unat (cd_buffer_length peer)" and m: "buffer_peer m = Some peer"
    and b: "1000 \<le> ring_budget (benchmark_buffer m) w"
  shows "\<exists>g t. write_bw_test S fuel len m w = Ret (m\<lparr>global_wc := g\<rparr>) t \<and> testing qp cq pend n opc m 0 (j + 1000) t"
proof -
  from bw_posts [OF S(1,2) len testing_idle [OF w], of "[0..<1000]"] b obtain t where
    t: "forO (bw_post S True len peer m) [0..<1000] w = Ret () t" "testing qp cq pend n IBV_WC_RDMA_WRITE m 1000 (j + 1000) t" by auto
  from confirm_loop_returns [OF S(1,3) t(2), of 0 1000] obtain g u where
    u: "confirm_loop S fuel True 1000 0 m t = Ret (1000, m\<lparr>global_wc := g\<rparr>) u" "testing qp cq pend n IBV_WC_RDMA_WRITE m 0 (j + 1000) u" by auto
  show ?thesis using t(1) u(1) testing_idle [OF u(2)] unfolding write_bw_test_def bw_test_def
    by (simp add: m del: upt_rec_numeral upt_Suc) blast
qed

theorem bandwidth_test_returns_witness:
  "\<exists>g t. write_bw_test bench_device 1 64 bench_members bench_world = Ret (bench_members\<lparr>global_wc := g\<rparr>) t \<and>
     testing 31 40 lb_cqes 8388608 IBV_WC_SEND bench_members 0 1000 t"
  using bandwidth_test_returns [OF bench_device_completing, of 1 8388608 IBV_WC_SEND bench_members 0 bench_world 64
      "\<lparr>cd_buffer_addr = 8192, cd_buffer_length = 8388608, cd_rkey = 9, cd_fd = 0\<rparr>"] bench_world_idle
  by (simp add: bench_members_def)

end
