(* ===== verification/Timer.thy ===== *)
theory Timer
  imports Prelude
begin

text \<open>
  \<open>include/util/time_record.h\<close>: the stop watch of the benchmark. A time point is the number of
  nanoseconds of \<open>std::chrono::steady_clock\<close>; an operation that reads the clock takes the reading
  \<open>now\<close> as an argument. A member that has no value yet is \<open>None\<close>. The printed warning is not modelled.
\<close>

section \<open>Data and operations\<close>

record Timer =
  initted :: bool
  timer_running :: bool
  has_run_at_least_once :: bool
  start_cpu :: int
  stop_cpu :: int
  elapsed_milliseconds :: "u64 option"
  elapsed_microseconds :: "u64 option"
  elasped_nanoseconds :: "u64 option"
  elasped_seconds :: "u64 option"

definition Init :: "Timer \<Rightarrow> Timer" where
  "Init t = (if \<not> initted t then t\<lparr>initted := True\<rparr> else t)"

text \<open>The two time points are default-constructed: the epoch of the clock.\<close>

definition Timer_new :: Timer where
  "Timer_new = Init \<lparr>initted = False, timer_running = False, has_run_at_least_once = False, start_cpu = 0, stop_cpu = 0,
     elapsed_milliseconds = None, elapsed_microseconds = None, elasped_nanoseconds = None, elasped_seconds = None\<rparr>"

definition Start :: "int \<Rightarrow> Timer \<Rightarrow> Timer" where
  "Start now t = (if \<not> timer_running t then t\<lparr>start_cpu := now, timer_running := True, has_run_at_least_once := True\<rparr> else t)"

definition Stop :: "int \<Rightarrow> Timer \<Rightarrow> Timer" where
  "Stop now t = (if timer_running t then t\<lparr>stop_cpu := now, timer_running := False\<rparr> else t)"

text \<open>\<open>duration_cast\<close> divides and cuts towards zero; the count is converted to \<open>uint64_t\<close>.\<close>

definition duration_count :: "int \<Rightarrow> Timer \<Rightarrow> u64" where
  "duration_count ns t = of_int ((stop_cpu t - start_cpu t) sdiv ns)"

definition MilliSeconds :: "int \<Rightarrow> Timer \<Rightarrow> u64 \<times> Timer" where
  "MilliSeconds now t =
     (if \<not> has_run_at_least_once t then (0, t)
      else let t = (if timer_running t then Stop now t else t); e = duration_count 1000000 t in
           (e, t\<lparr>elapsed_milliseconds := Some e\<rparr>))"

definition MicroSeconds :: "int \<Rightarrow> Timer \<Rightarrow> u64 \<times> Timer" where
  "MicroSeconds now t =
     (if \<not> has_run_at_least_once t then (0, t)
      else let t = (if timer_running t then Stop now t else t); e = duration_count 1000 t in
           (e, t\<lparr>elapsed_microseconds := Some e\<rparr>))"

definition NanoSeconds :: "int \<Rightarrow> Timer \<Rightarrow> u64 \<times> Timer" where
  "NanoSeconds now t =
     (if \<not> has_run_at_least_once t then (0, t)
      else let t = (if timer_running t then Stop now t else t); e = duration_count 1 t in
           (e, t\<lparr>elasped_nanoseconds := Some e\<rparr>))"

definition Seconds :: "int \<Rightarrow> Timer \<Rightarrow> u64 \<times> Timer" where
  "Seconds now t =
     (if \<not> has_run_at_least_once t then (0, t)
      else let t = (if timer_running t then Stop now t else t); e = duration_count 1000000000 t in
           (e, t\<lparr>elasped_seconds := Some e\<rparr>))"

section \<open>The abstract stop watch\<close>

text \<open>A watch has never run, is running since a time, or has measured an interval.\<close>

datatype watch = Never | Since int | Measured int int

primrec watch_start :: "int \<Rightarrow> watch \<Rightarrow> watch" where
  "watch_start now Never = Since now"
| "watch_start now (Since a) = Since a"
| "watch_start now (Measured a b) = Since now"

primrec watch_stop :: "int \<Rightarrow> watch \<Rightarrow> watch" where
  "watch_stop now Never = Never"
| "watch_stop now (Since a) = Measured a now"
| "watch_stop now (Measured a b) = Measured a b"

primrec watch_read :: "int \<Rightarrow> watch \<Rightarrow> int" where
  "watch_read ns Never = 0"
| "watch_read ns (Since a) = 0"
| "watch_read ns (Measured a b) = (b - a) div ns"

definition watch_of :: "Timer \<Rightarrow> watch" where
  "watch_of t = (if timer_running t then Since (start_cpu t)
     else if has_run_at_least_once t then Measured (start_cpu t) (stop_cpu t) else Never)"

text \<open>A running timer has run; a measured interval does not go backwards and the last reading of the clock
  is not before it (\<open>clock\<close>).\<close>

definition timer_ok :: "int \<Rightarrow> Timer \<Rightarrow> bool" where
  "timer_ok clock t \<longleftrightarrow> (timer_running t \<longrightarrow> has_run_at_least_once t \<and> start_cpu t \<le> clock) \<and>
     (\<not> timer_running t \<and> has_run_at_least_once t \<longrightarrow> start_cpu t \<le> stop_cpu t \<and> stop_cpu t \<le> clock)"

lemma watch_new: "watch_of Timer_new = Never" "timer_ok clock Timer_new"
  by (simp_all add: watch_of_def timer_ok_def Timer_new_def Init_def)

lemma watch_Start: "timer_ok clock t \<Longrightarrow> clock \<le> now \<Longrightarrow> timer_ok now (Start now t) \<and> watch_of (Start now t) = watch_start now (watch_of t)"
  by (auto simp: watch_of_def timer_ok_def Start_def)

lemma watch_Stop: "timer_ok clock t \<Longrightarrow> clock \<le> now \<Longrightarrow> timer_ok now (Stop now t) \<and> watch_of (Stop now t) = watch_stop now (watch_of t)"
  by (auto simp: watch_of_def timer_ok_def Stop_def)

section \<open>The four readers\<close>

text \<open>What the four reading functions have in common: a reading stops a running timer and gives the interval in
  its unit.\<close>

locale timer_reader =
  fixes reader :: "int \<Rightarrow> Timer \<Rightarrow> u64 \<times> Timer" and ns :: int
  assumes unit_pos: "0 < ns"
    and never_run: "\<not> has_run_at_least_once t \<Longrightarrow> reader now t = (0, t)"
    and reading: "has_run_at_least_once t \<Longrightarrow> fst (reader now t) = duration_count ns (Stop now t)"
    and stops: "has_run_at_least_once t \<Longrightarrow> timer_running (snd (reader now t)) = timer_running (Stop now t) \<and>
      has_run_at_least_once (snd (reader now t)) \<and> start_cpu (snd (reader now t)) = start_cpu t \<and>
      stop_cpu (snd (reader now t)) = stop_cpu (Stop now t)"
begin

lemma read_refines:
  assumes "timer_ok clock t" "clock \<le> now"
  shows "timer_ok now (snd (reader now t)) \<and> watch_of (snd (reader now t)) = watch_stop now (watch_of t) \<and>
    fst (reader now t) = of_int (watch_read ns (watch_stop now (watch_of t)))"
proof (cases "has_run_at_least_once t")
  case True
  note s = stops [OF True, of now] watch_Stop [OF assms]
  have eq: "watch_of (snd (reader now t)) = watch_of (Stop now t)" "timer_ok now (snd (reader now t))"
    using s True by (auto simp: watch_of_def timer_ok_def Stop_def split: if_splits)
  have "\<not> timer_running (Stop now t)" by (simp add: Stop_def)
  moreover have "has_run_at_least_once (Stop now t)" using True by (simp add: Stop_def)
  ultimately have "watch_of (Stop now t) = Measured (start_cpu (Stop now t)) (stop_cpu (Stop now t))"
      "start_cpu (Stop now t) \<le> stop_cpu (Stop now t)"
    using s(2) by (auto simp: watch_of_def timer_ok_def)
  then have "fst (reader now t) = of_int (watch_read ns (watch_of (Stop now t)))"
    using unit_pos by (simp add: reading [OF True] duration_count_def sdiv_nonneg)
  with eq s(2) show ?thesis by simp
next
  case False
  with assms have "watch_of t = Never" by (auto simp: watch_of_def timer_ok_def)
  with False assms show ?thesis by (auto simp: never_run timer_ok_def)
qed

end

lemma Stop_running: "(if timer_running t then Stop now t else t) = Stop now t"
  by (simp add: Stop_def)

interpretation ms: timer_reader MilliSeconds 1000000
  by unfold_locales (auto simp: MilliSeconds_def Stop_running Let_def duration_count_def Stop_def)

interpretation us: timer_reader MicroSeconds 1000
  by unfold_locales (auto simp: MicroSeconds_def Stop_running Let_def duration_count_def Stop_def)

interpretation nanos: timer_reader NanoSeconds 1
  by unfold_locales (auto simp: NanoSeconds_def Stop_running Let_def duration_count_def Stop_def)

interpretation secs: timer_reader Seconds 1000000000
  by unfold_locales (auto simp: Seconds_def Stop_running Let_def duration_count_def Stop_def)

section \<open>Property\<close>

datatype timer_op = OpStart | OpStop | OpMilli | OpMicro | OpNano | OpSec

primrec timer_step :: "timer_op \<Rightarrow> int \<Rightarrow> Timer \<Rightarrow> u64 option \<times> Timer" where
  "timer_step OpStart now t = (None, Start now t)"
| "timer_step OpStop now t = (None, Stop now t)"
| "timer_step OpMilli now t = apfst Some (MilliSeconds now t)"
| "timer_step OpMicro now t = apfst Some (MicroSeconds now t)"
| "timer_step OpNano now t = apfst Some (NanoSeconds now t)"
| "timer_step OpSec now t = apfst Some (Seconds now t)"

primrec op_unit :: "timer_op \<Rightarrow> int option" where
  "op_unit OpStart = None"
| "op_unit OpStop = None"
| "op_unit OpMilli = Some 1000000"
| "op_unit OpMicro = Some 1000"
| "op_unit OpNano = Some 1"
| "op_unit OpSec = Some 1000000000"

definition watch_step :: "timer_op \<Rightarrow> int \<Rightarrow> watch \<Rightarrow> u64 option \<times> watch" where
  "watch_step opn now v = (if opn = OpStart then (None, watch_start now v)
     else (map_option (\<lambda>ns. of_int (watch_read ns (watch_stop now v))) (op_unit opn), watch_stop now v))"

text \<open>The results of a sequence of operations, each with its reading of the clock.\<close>

fun timer_run :: "(timer_op \<times> int) list \<Rightarrow> Timer \<Rightarrow> u64 option list" where
  "timer_run [] t = []"
| "timer_run ((opn, now) # rest) t = (case timer_step opn now t of (r, t) \<Rightarrow> r # timer_run rest t)"

fun watch_run :: "(timer_op \<times> int) list \<Rightarrow> watch \<Rightarrow> u64 option list" where
  "watch_run [] v = []"
| "watch_run ((opn, now) # rest) v = (case watch_step opn now v of (r, v) \<Rightarrow> r # watch_run rest v)"

lemma timer_step_refines:
  assumes "timer_ok clock t" "clock \<le> now"
  shows "timer_ok now (snd (timer_step opn now t)) \<and>
    (fst (timer_step opn now t), watch_of (snd (timer_step opn now t))) = watch_step opn now (watch_of t)"
  using ms.read_refines [OF assms] us.read_refines [OF assms] nanos.read_refines [OF assms] secs.read_refines [OF assms]
    watch_Start [OF assms] watch_Stop [OF assms]
  by (cases opn) (simp_all add: watch_step_def)

lemma timer_run_refines:
  assumes "timer_ok clock t" "sorted (clock # map snd ops)"
  shows "timer_run ops t = watch_run ops (watch_of t)"
  using assms
proof (induction ops arbitrary: clock t)
  case (Cons p ops)
  obtain opn now where p: "p = (opn, now)" by fastforce
  from timer_step_refines [OF Cons.prems(1), of now opn] Cons.prems(2) p
  have "timer_ok now (snd (timer_step opn now t))"
      "(fst (timer_step opn now t), watch_of (snd (timer_step opn now t))) = watch_step opn now (watch_of t)" by auto
  with Cons.IH [of now "snd (timer_step opn now t)"] Cons.prems(2) p show ?case
    by (cases "timer_step opn now t") (auto split: prod.splits)
qed simp

text \<open>Property C34. The timer is a stop watch. For every sequence of operations on a new timer, with a clock that does not
  go backwards, every reading is the length of the interval between the last effective start and stop,
  rounded down to the unit: starting a running timer and stopping a stopped one change nothing, reading a
  running timer stops it, and a timer that has never run reads 0.\<close>

theorem timer_refines_watch:
  assumes "sorted (map snd ops)"
  shows "timer_run ops Timer_new = watch_run ops Never"
proof (cases ops)
  case (Cons p ops')
  with assms have "sorted (snd p # map snd ops)" by simp
  from timer_run_refines [OF watch_new(2) this] show ?thesis by (simp add: watch_new(1))
qed simp

theorem timer_refines_watch_witness:
  "timer_run [(OpSec, 1), (OpStart, 5), (OpStart, 100), (OpMicro, 7000), (OpStop, 9000), (OpNano, 9500)] Timer_new =
     [Some 0, None, None, Some 6, None, Some 6995]"
  by (subst timer_refines_watch) (simp_all add: watch_step_def)

end
