(* ===== verification/Time_Event.thy ===== *)
theory Time_Event
  imports Prelude
begin

text \<open>
  \<open>include/util/time_event.h\<close>: events and the timer thread. An operation on an event is one section under
  its mutex. A wait ends with the flag seen under the mutex; what other threads do until then is the
  argument \<open>others\<close>. The user's callbacks are opaque: a run of one is recorded in \<open>calls\<close>. Times are
  nanoseconds.
\<close>

section \<open>Events\<close>

record ManualEvent =
  m_signaled :: bool

definition ManualEvent_signal :: "ManualEvent \<Rightarrow> ManualEvent" where
  "ManualEvent_signal e = e\<lparr>m_signaled := True\<rparr>"

definition ManualEvent_cancel :: "ManualEvent \<Rightarrow> ManualEvent" where
  "ManualEvent_cancel e = e\<lparr>m_signaled := True\<rparr>"

definition ManualEvent_reset :: "ManualEvent \<Rightarrow> ManualEvent" where
  "ManualEvent_reset e = e\<lparr>m_signaled := False\<rparr>"

text \<open>\<open>None\<close>: the caller is still blocked.\<close>

definition ManualEvent_wait :: "(ManualEvent \<Rightarrow> ManualEvent) \<Rightarrow> ManualEvent \<Rightarrow> ManualEvent option" where
  "ManualEvent_wait others e = (let e = others e in if m_signaled e then Some e else None)"

definition ManualEvent_wait_for :: "(ManualEvent \<Rightarrow> ManualEvent) \<Rightarrow> ManualEvent \<Rightarrow> bool \<times> ManualEvent" where
  "ManualEvent_wait_for others e = (let e = others e in (m_signaled e, e))"

definition ManualEvent_wait_until :: "(ManualEvent \<Rightarrow> ManualEvent) \<Rightarrow> ManualEvent \<Rightarrow> bool \<times> ManualEvent" where
  "ManualEvent_wait_until others e = (let e = others e in (m_signaled e, e))"

record AutoEvent =
  a_signaled :: bool

definition AutoEvent_signal :: "AutoEvent \<Rightarrow> AutoEvent" where
  "AutoEvent_signal e = e\<lparr>a_signaled := True\<rparr>"

definition AutoEvent_cancel :: "AutoEvent \<Rightarrow> AutoEvent" where
  "AutoEvent_cancel e = e\<lparr>a_signaled := True\<rparr>"

definition AutoEvent_wait :: "(AutoEvent \<Rightarrow> AutoEvent) \<Rightarrow> AutoEvent \<Rightarrow> AutoEvent option" where
  "AutoEvent_wait others e = (let e = others e in if a_signaled e then Some (e\<lparr>a_signaled := False\<rparr>) else None)"

definition AutoEvent_wait_for :: "(AutoEvent \<Rightarrow> AutoEvent) \<Rightarrow> AutoEvent \<Rightarrow> bool \<times> AutoEvent" where
  "AutoEvent_wait_for others e = (let e = others e in if a_signaled e then (True, e\<lparr>a_signaled := False\<rparr>) else (False, e))"

definition AutoEvent_wait_until :: "(AutoEvent \<Rightarrow> AutoEvent) \<Rightarrow> AutoEvent \<Rightarrow> bool \<times> AutoEvent" where
  "AutoEvent_wait_until others e = (let e = others e in if a_signaled e then (True, e\<lparr>a_signaled := False\<rparr>) else (False, e))"

section \<open>The timer\<close>

text \<open>\<open>once\<close> tells a timeout from an interval; \<open>handle\<close> names the event shared with the caller.\<close>

record event_ctx =
  seq_num :: u64
  once :: bool
  ev_ticks :: u64
  elapsed :: u64
  handle :: oref

record TimeEvent =
  m_tick :: int
  m_ticks :: u64
  m_event :: ManualEvent
  m_events :: "event_ctx list"
  kNextSeqNum :: u64
  handles :: "oref \<rightharpoonup> ManualEvent"
  next_handle :: oref
  calls :: "u64 list"

definition TimeEvent_new :: "int \<Rightarrow> u64 \<Rightarrow> TimeEvent" where
  "TimeEvent_new tick seq = \<lparr>m_tick = tick, m_ticks = 0, m_event = \<lparr>m_signaled = False\<rparr>, m_events = [], kNextSeqNum = seq,
     handles = Map.empty, next_handle = 1, calls = []\<rparr>"

text \<open>\<open>std::set\<close> ordered by sequence number: an element with a number already there is not inserted.\<close>

fun set_insert :: "event_ctx \<Rightarrow> event_ctx list \<Rightarrow> event_ctx list" where
  "set_insert e [] = [e]"
| "set_insert e (x # xs) = (if seq_num e < seq_num x then e # x # xs else if seq_num x < seq_num e then x # set_insert e xs else x # xs)"

definition add_event :: "bool \<Rightarrow> int \<Rightarrow> TimeEvent \<Rightarrow> (oref, TimeEvent) outcome" where
  "add_event one_shot delay t =
     bindO (check (delay \<ge> m_tick t) ''count() >= m_tick.count()'' t) (\<lambda>_ t.
     bindO (defined_if (m_tick t \<noteq> 0) ''count() / m_tick.count()'' t) (\<lambda>_ t.
     let h = next_handle t in
     Ret h (t\<lparr>next_handle := Suc h, handles := (handles t)(h \<mapsto> \<lparr>m_signaled = False\<rparr>), kNextSeqNum := kNextSeqNum t + 1,
       m_events := set_insert \<lparr>seq_num = kNextSeqNum t, once = one_shot, ev_ticks = of_int (delay sdiv m_tick t), elapsed = 0, handle = h\<rparr> (m_events t)\<rparr>)))"

definition set_timeout :: "int \<Rightarrow> TimeEvent \<Rightarrow> (oref, TimeEvent) outcome" where
  "set_timeout delay t = add_event True delay t"

definition set_interval :: "int \<Rightarrow> TimeEvent \<Rightarrow> (oref, TimeEvent) outcome" where
  "set_interval delay t = add_event False delay t"

text \<open>The closures stored by \<open>set_timeout\<close> and \<open>set_interval\<close>: a signalled event asks for removal without a
  call; otherwise the callback runs.\<close>

definition is_signaled :: "oref \<Rightarrow> TimeEvent \<Rightarrow> bool" where
  "is_signaled h t = (case handles t h of None \<Rightarrow> False | Some e \<Rightarrow> fst (ManualEvent_wait_for id e))"

definition proc :: "event_ctx \<Rightarrow> TimeEvent \<Rightarrow> bool \<times> TimeEvent" where
  "proc e t = (if is_signaled (handle e) t then (True, t) else (once e, t\<lparr>calls := calls t @ [seq_num e]\<rparr>))"

primrec walk :: "event_ctx list \<Rightarrow> TimeEvent \<Rightarrow> event_ctx list \<times> TimeEvent" where
  "walk [] t = ([], t)"
| "walk (ev # it) t =
     (let ev = ev\<lparr>elapsed := elapsed ev + 1\<rparr> in
      if elapsed ev = ev_ticks ev then
        (case proc ev t of (rem, t) \<Rightarrow> case walk it t of (es, t) \<Rightarrow> (if rem then es else ev\<lparr>elapsed := 0\<rparr> # es, t))
      else (case walk it t of (es, t) \<Rightarrow> (ev # es, t)))"

definition tick :: "TimeEvent \<Rightarrow> TimeEvent" where
  "tick t = (let t = t\<lparr>m_ticks := m_ticks t + 1\<rparr> in case walk (m_events t) t of (es, t) \<Rightarrow> t\<lparr>m_events := es\<rparr>)"

definition signal_handle :: "oref \<Rightarrow> TimeEvent \<Rightarrow> TimeEvent" where
  "signal_handle h t = t\<lparr>handles := (handles t)(h := map_option ManualEvent_signal (handles t h))\<rparr>"

text \<open>\<open>realDuration - fakeDuration\<close>; the product of the tick and the unsigned number of ticks is unsigned.\<close>

definition drift_at :: "int \<Rightarrow> int \<Rightarrow> TimeEvent \<Rightarrow> int" where
  "drift_at start now t = (now - start) - sint (of_int (m_tick t) * m_ticks t)"

text \<open>A wait of the thread: it is ended by the destructor's signal, or it runs out, \<open>late\<close> after the requested
  time, and the turn that follows takes \<open>busy\<close>. The loop yields the times at which it woke up.\<close>

datatype wait = Signalled | Expired int int

primrec during :: "wait \<Rightarrow> ManualEvent \<Rightarrow> ManualEvent" where
  "during Signalled = ManualEvent_signal"
| "during (Expired late busy) = id"

primrec lateness :: "wait \<Rightarrow> int" where "lateness Signalled = 0" | "lateness (Expired late busy) = late"
primrec busyness :: "wait \<Rightarrow> int" where "busyness Signalled = 0" | "busyness (Expired late busy) = busy"

fun thread_loop :: "wait list \<Rightarrow> int \<Rightarrow> int \<Rightarrow> int \<Rightarrow> TimeEvent \<Rightarrow> int list \<times> TimeEvent" where
  "thread_loop [] start now drift t = ([], t)"
| "thread_loop (w # ws) start now drift t =
     (case ManualEvent_wait_for (during w) (m_event t) of (fired, ev) \<Rightarrow>
      let t = t\<lparr>m_event := ev\<rparr> in
      if fired then ([], t)
      else
        let woke = now + max 0 (m_tick t - drift) + lateness w;
            t = tick t;
            now = woke + busyness w in
        case thread_loop ws start now (drift_at start now t) t of (wakes, t) \<Rightarrow> (woke # wakes, t))"

definition timer_thread :: "wait list \<Rightarrow> int \<Rightarrow> TimeEvent \<Rightarrow> (int list, TimeEvent) outcome" where
  "timer_thread ws start t =
     bindO (check (m_tick t > 0) ''m_tick.count() > 0'' t) (\<lambda>_ t.
     case thread_loop ws start start 0 t of (wakes, t) \<Rightarrow> Ret wakes t)"

text \<open>The destructor's signal; it then waits for the thread to end.\<close>

definition TimeEvent_delete :: "TimeEvent \<Rightarrow> TimeEvent" where
  "TimeEvent_delete t = t\<lparr>m_event := ManualEvent_signal (m_event t)\<rparr>"

lemma thread_ends_after_delete: "thread_loop (w # ws) start now drift (TimeEvent_delete t) = ([], TimeEvent_delete t)"
  by (cases w) (simp_all add: TimeEvent_delete_def ManualEvent_wait_for_def ManualEvent_signal_def Let_def)

section \<open>Lemmas: one turn\<close>

text \<open>What a turn does to one event, and whether its callback runs.\<close>

definition due :: "event_ctx \<Rightarrow> bool" where "due e \<longleftrightarrow> elapsed e + 1 = ev_ticks e"

definition fires :: "TimeEvent \<Rightarrow> event_ctx \<Rightarrow> bool" where "fires t e \<longleftrightarrow> due e \<and> \<not> is_signaled (handle e) t"

definition after :: "TimeEvent \<Rightarrow> event_ctx \<Rightarrow> event_ctx list" where
  "after t e = (if due e then if is_signaled (handle e) t \<or> once e then [] else [e\<lparr>elapsed := 0\<rparr>] else [e\<lparr>elapsed := elapsed e + 1\<rparr>])"

lemma is_signaled_cong: "handles t' = handles t \<Longrightarrow> is_signaled h t' = is_signaled h t"
  by (simp add: is_signaled_def)

lemma is_signaled_updates [simp]:
  "is_signaled h (t\<lparr>calls := cs\<rparr>) = is_signaled h t" "is_signaled h (t\<lparr>m_ticks := n\<rparr>) = is_signaled h t"
  by (simp_all add: is_signaled_def)

lemma after_cong [simp]: "after (t\<lparr>calls := cs\<rparr>) = after t" "fires (t\<lparr>calls := cs\<rparr>) = fires t"
  "after (t\<lparr>m_ticks := n\<rparr>) = after t" "fires (t\<lparr>m_ticks := n\<rparr>) = fires t"
  by (auto simp: after_def fires_def fun_eq_iff)

lemma walk_eq:
  "walk es t = (concat (map (after t) es), t\<lparr>calls := calls t @ map seq_num (filter (fires t) es)\<rparr>)"
  by (induction es arbitrary: t) (auto simp: Let_def proc_def fires_def due_def after_def)

lemma tick_eq:
  "tick t = t\<lparr>m_ticks := m_ticks t + 1, m_events := concat (map (after t) (m_events t)),
     calls := calls t @ map seq_num (filter (fires t) (m_events t))\<rparr>"
  by (simp add: tick_def walk_eq Let_def)

definition mine :: "u64 \<Rightarrow> TimeEvent \<Rightarrow> event_ctx list" where
  "mine s t = filter (\<lambda>e. seq_num e = s) (m_events t)"

lemma after_seq: "filter (\<lambda>e. seq_num e = s) (after t e) = (if seq_num e = s then after t e else [])"
  by (simp add: after_def)

lemma mine_tick: "mine s (tick t) = concat (map (after t) (mine s t))"
proof -
  have "filter (\<lambda>e. seq_num e = s) (concat (map (after t) es)) = concat (map (after t) (filter (\<lambda>e. seq_num e = s) es))" for es
    by (induction es) (simp_all add: after_seq)
  then show ?thesis by (simp add: mine_def tick_eq)
qed

lemma calls_tick: "count_list (calls (tick t)) s = count_list (calls t) s + length (filter (fires t) (mine s t))"
proof -
  have "count_list (map seq_num (filter (fires t) es)) s = length (filter (fires t) (filter (\<lambda>e. seq_num e = s) es))" for es
    by (induction es) simp_all
  then show ?thesis by (simp add: mine_def tick_eq)
qed

lemma handles_ticks [simp]: "handles ((tick ^^ n) t) = handles t"
  by (induction n) (simp_all add: tick_eq)

lemma is_signaled_ticks [simp]: "is_signaled h ((tick ^^ n) t) = is_signaled h t"
  by (rule is_signaled_cong) simp

lemma due_iff:
  assumes "elapsed e = of_nat j" "Suc j \<le> unat (ev_ticks e)" shows "due e \<longleftrightarrow> Suc j = unat (ev_ticks e)"
proof -
  have "unat (ev_ticks e) < 2 ^ LENGTH(64)" by (rule unsigned_less)
  with assms(2) have "Suc j < 2 ^ 64" by simp
  then have "unat (of_nat (Suc j) :: u64) = Suc j" by (simp add: unat_of_nat del: of_nat_Suc)
  moreover have "elapsed e + 1 = of_nat (Suc j)" by (simp add: assms(1))
  ultimately show ?thesis unfolding due_def by (metis word_unat_eq_iff)
qed

section \<open>Lemmas: many turns\<close>

lemma ticks_gone: "mine s t = [] \<Longrightarrow> mine s ((tick ^^ n) t) = [] \<and> count_list (calls ((tick ^^ n) t)) s = count_list (calls t) s"
  by (induction n) (simp_all add: mine_tick calls_tick)

lemma ticks_interval:
  assumes "mine s t = [e]" "\<not> once e" "elapsed e = 0" "0 < unat (ev_ticks e)" "\<not> is_signaled (handle e) t"
  shows "mine s ((tick ^^ n) t) = [e\<lparr>elapsed := of_nat (n mod unat (ev_ticks e))\<rparr>] \<and>
    count_list (calls ((tick ^^ n) t)) s = count_list (calls t) s + n div unat (ev_ticks e)"
proof (induction n)
  case 0
  then show ?case using assms by simp
next
  case (Suc n)
  let ?k = "unat (ev_ticks e)" and ?t = "(tick ^^ n) t"
  let ?e = "e\<lparr>elapsed := of_nat (n mod ?k)\<rparr>"
  have sig: "\<not> is_signaled (handle e) ?t" using assms(5) by simp
  have "due ?e \<longleftrightarrow> Suc (n mod ?k) = ?k" using assms(4) by (subst due_iff [of _ "n mod ?k"]) (simp_all add: Suc_le_eq)
  then show ?case using Suc sig assms(2)
    by (auto simp: mine_tick calls_tick after_def fires_def mod_Suc div_Suc)
qed

lemma ticks_timeout:
  assumes "mine s t = [e]" "once e" "elapsed e = 0" "0 < unat (ev_ticks e)" "\<not> is_signaled (handle e) t"
  shows "mine s ((tick ^^ n) t) = (if n < unat (ev_ticks e) then [e\<lparr>elapsed := of_nat n\<rparr>] else []) \<and>
    count_list (calls ((tick ^^ n) t)) s = count_list (calls t) s + (if n < unat (ev_ticks e) then 0 else 1)"
proof (induction n)
  case 0
  then show ?case using assms by simp
next
  case (Suc n)
  let ?k = "unat (ev_ticks e)" and ?t = "(tick ^^ n) t"
  let ?e = "e\<lparr>elapsed := of_nat n\<rparr>"
  have sig: "\<not> is_signaled (handle e) ?t" using assms(5) by simp
  have "due ?e \<longleftrightarrow> Suc n = ?k" if "n < ?k" using that by (subst due_iff [of _ n]) (simp_all add: Suc_le_eq)
  then show ?case using Suc sig assms(2) by (auto simp: mine_tick calls_tick after_def fires_def)
qed

lemma ticks_signaled:
  assumes "mine s t = [e]" "elapsed e = of_nat j" "j < unat (ev_ticks e)" "is_signaled (handle e) t"
  shows "mine s ((tick ^^ n) t) = (if j + n < unat (ev_ticks e) then [e\<lparr>elapsed := of_nat (j + n)\<rparr>] else []) \<and>
    count_list (calls ((tick ^^ n) t)) s = count_list (calls t) s"
proof (induction n)
  case 0
  then show ?case using assms by simp
next
  case (Suc n)
  let ?k = "unat (ev_ticks e)" and ?t = "(tick ^^ n) t"
  let ?e = "e\<lparr>elapsed := of_nat (j + n)\<rparr>"
  have sig: "is_signaled (handle e) ?t" using assms(4) by simp
  have "due ?e \<longleftrightarrow> Suc (j + n) = ?k" if "j + n < ?k" using that by (subst due_iff [of _ "j + n"]) (simp_all add: Suc_le_eq)
  then show ?case using Suc sig by (auto simp: mine_tick calls_tick after_def fires_def add.assoc)
qed

section \<open>Invariant\<close>

text \<open>Sequence numbers increase and are below the next one; so are those of the calls made; every handle exists.\<close>

definition timer_wf :: "TimeEvent \<Rightarrow> bool" where
  "timer_wf t \<longleftrightarrow> sorted_wrt (<) (map seq_num (m_events t)) \<and> (\<forall>e \<in> set (m_events t). seq_num e < kNextSeqNum t \<and> handle e < next_handle t) \<and>
     (\<forall>s \<in> set (calls t). s < kNextSeqNum t)"

lemma timer_wf_new: "timer_wf (TimeEvent_new k seq)"
  by (simp add: timer_wf_def TimeEvent_new_def)

lemma set_insert_last: "\<forall>x \<in> set xs. seq_num x < seq_num e \<Longrightarrow> set_insert e xs = xs @ [e]"
  by (induction xs) auto

definition new_event :: "bool \<Rightarrow> int \<Rightarrow> TimeEvent \<Rightarrow> event_ctx" where
  "new_event one_shot delay t =
     \<lparr>seq_num = kNextSeqNum t, once = one_shot, ev_ticks = of_int (delay sdiv m_tick t), elapsed = 0, handle = next_handle t\<rparr>"

lemma add_event_Ret:
  assumes "timer_wf t" "add_event one_shot delay t = Ret h t0"
  shows "h = next_handle t" "m_tick t \<le> delay" "m_tick t \<noteq> 0"
    "t0 = t\<lparr>next_handle := Suc h, handles := (handles t)(h \<mapsto> \<lparr>m_signaled = False\<rparr>), kNextSeqNum := kNextSeqNum t + 1,
       m_events := m_events t @ [new_event one_shot delay t]\<rparr>"
  using assms by (auto simp: add_event_def outcome_simps Let_def set_insert_last timer_wf_def new_event_def)

lemma add_event_wf:
  assumes "timer_wf t" "kNextSeqNum t \<noteq> - 1" "add_event one_shot delay t = Ret h t0" shows "timer_wf t0"
proof -
  have "1 + kNextSeqNum t \<noteq> 0" using assms(2) by (simp add: eq_neg_iff_add_eq_0 add.commute)
  then have lt: "kNextSeqNum t < kNextSeqNum t + 1" using unatSuc [of "kNextSeqNum t"] by (simp add: word_less_nat_alt add.commute)
  show ?thesis unfolding add_event_Ret(4) [OF assms(1,3)] add_event_Ret(1) [OF assms(1,3)]
    using assms(1) lt by (auto simp: timer_wf_def sorted_wrt_append new_event_def intro: less_trans less_SucI)
qed

lemma after_in: "e \<in> set (after t x) \<Longrightarrow> seq_num e = seq_num x \<and> handle e = handle x"
  by (auto simp: after_def split: if_splits)

lemma after_sorted: "sorted_wrt (<) (map seq_num es) \<Longrightarrow> sorted_wrt (<) (map seq_num (concat (map (after t) es)))"
proof (induction es)
  case (Cons x es)
  then have "\<forall>e \<in> set (concat (map (after t) es)). seq_num x < seq_num e" by (auto dest!: after_in)
  moreover have "after t x = [] \<or> (\<exists>e. after t x = [e] \<and> seq_num e = seq_num x)" by (simp add: after_def)
  ultimately show ?case using Cons by auto
qed simp

lemma tick_wf: "timer_wf t \<Longrightarrow> timer_wf (tick t)"
  by (auto simp: timer_wf_def tick_eq after_sorted dest!: after_in)

lemma signal_wf: "timer_wf t \<Longrightarrow> timer_wf (signal_handle h t)"
  by (simp add: timer_wf_def signal_handle_def)

lemma add_event_mine:
  assumes "timer_wf t" "add_event one_shot delay t = Ret h t0"
  shows "mine (kNextSeqNum t) t0 = [new_event one_shot delay t]" "\<not> is_signaled h t0" "handles t0 h \<noteq> None"
    "count_list (calls t0) (kNextSeqNum t) = 0"
proof -
  note t0 = add_event_Ret(4) [OF assms]
  have "filter (\<lambda>e. seq_num e = kNextSeqNum t) (m_events t) = []" "kNextSeqNum t \<notin> set (calls t)"
    using assms(1) by (auto simp: timer_wf_def filter_empty_conv)
  then show "mine (kNextSeqNum t) t0 = [new_event one_shot delay t]" "count_list (calls t0) (kNextSeqNum t) = 0"
    by (simp_all add: t0 mine_def new_event_def count_list_0_iff)
  show "\<not> is_signaled h t0" "handles t0 h \<noteq> None" by (simp_all add: t0 is_signaled_def ManualEvent_wait_for_def)
qed

section \<open>Lemmas: the thread\<close>

lemma tick_fields [simp]: "m_tick (tick t) = m_tick t" "m_ticks (tick t) = m_ticks t + 1" "m_event (tick t) = m_event t"
  by (simp_all add: tick_eq)

definition expired :: "wait \<Rightarrow> bool" where "expired w \<longleftrightarrow> w \<noteq> Signalled"

definition turn_start :: "wait list \<Rightarrow> int \<Rightarrow> int list \<Rightarrow> nat \<Rightarrow> int" where
  "turn_start ws now wakes j = (case j of 0 \<Rightarrow> now | Suc i \<Rightarrow> wakes ! i + busyness (ws ! i))"

lemma fake_duration:
  assumes "0 < a" "a * int n < 2 ^ 63" shows "sint (of_int a * of_nat n :: u64) = a * int n"
proof -
  have "of_int a * of_nat n = (of_int (a * int n) :: u64)" by simp
  moreover have "sint (of_int (a * int n) :: u64) = a * int n"
    using assms by (subst sint_sbintrunc') (rule signed_take_bit_int_eq_self, auto intro: order.trans [of _ 0])
  ultimately show ?thesis by simp
qed

lemma thread_loop_grid:
  assumes "list_all expired ws" "0 < m_tick t" "\<not> m_signaled (m_event t)" "m_ticks t = of_nat i"
    and "drift = now - start - m_tick t * int i" "m_tick t * int (i + length ws) < 2 ^ 63"
  shows "\<exists>wakes. thread_loop ws start now drift t = (wakes, (tick ^^ length ws) t) \<and> length wakes = length ws \<and>
    (\<forall>j < length ws. wakes ! j = max (turn_start ws now wakes j) (start + m_tick t * int (i + j + 1)) + lateness (ws ! j))"
  using assms
proof (induction ws arbitrary: now drift t i)
  case (Cons w ws)
  let ?woke = "now + max 0 (m_tick t - drift) + lateness w" and ?t = "tick t"
  let ?now = "?woke + busyness w"
  from Cons.prems(1) obtain late busy where w: "w = Expired late busy" by (cases w) (auto simp: expired_def)
  have "m_tick t * int (Suc i) \<le> m_tick t * int (i + length (w # ws))" using Cons.prems(2) by (intro mult_left_mono) simp_all
  with Cons.prems(6) have lim: "m_tick t * int (Suc i) < 2 ^ 63" by linarith
  have ticks: "m_ticks ?t = of_nat (Suc i)" using Cons.prems(4) by simp
  have "drift_at start ?now ?t = ?now - start - m_tick ?t * int (Suc i)"
    unfolding drift_at_def ticks using fake_duration [OF Cons.prems(2) lim] by simp
  with Cons.IH [of ?t "Suc i" "drift_at start ?now ?t" ?now] ticks Cons.prems obtain wakes where
    rest: "thread_loop ws start ?now (drift_at start ?now ?t) ?t = (wakes, (tick ^^ length ws) ?t)" "length wakes = length ws"
      "\<forall>j < length ws. wakes ! j = max (turn_start ws ?now wakes j) (start + m_tick t * int (Suc i + j + 1)) + lateness (ws ! j)"
    by auto
  have first: "?woke = max now (start + m_tick t * int (i + 1)) + lateness w"
    using Cons.prems(5) by (simp add: max_def algebra_simps)
  have "(?woke # wakes) ! j = max (turn_start (w # ws) now (?woke # wakes) j) (start + m_tick t * int (i + j + 1)) + lateness ((w # ws) ! j)"
    if "j < length (w # ws)" for j
  proof (cases j)
    case 0
    then show ?thesis using first by (simp add: turn_start_def)
  next
    case (Suc j')
    have "turn_start (w # ws) now (?woke # wakes) j = turn_start ws ?now wakes j'" by (simp add: Suc turn_start_def split: nat.split)
    moreover have "wakes ! j' = max (turn_start ws ?now wakes j') (start + m_tick t * int (Suc i + j' + 1)) + lateness (ws ! j')"
      using that Suc rest(3) by simp
    moreover have "Suc i + j' + 1 = i + j + 1" by (simp add: Suc)
    ultimately show ?thesis by (simp only: Suc nth_Cons_Suc)
  qed
  moreover have "thread_loop (w # ws) start now drift t = (?woke # wakes, (tick ^^ length (w # ws)) t)"
    using rest(1) Cons.prems(3) w by (simp add: ManualEvent_wait_for_def Let_def funpow_swap1)
  ultimately show ?case using rest(2) by (intro exI [of _ "?woke # wakes"]) simp
qed simp

section \<open>Properties\<close>

text \<open>Property C32. Timeouts, intervals and their cancellation. After \<open>n\<close> turns an interval of \<open>k\<close> ticks has called its callback
  exactly \<open>n div k\<close> times and a timeout once if \<open>k\<close> turns have passed and not before; from the moment its
  handle is signalled the callback is never called again, and at most \<open>k\<close> turns later the event has left
  the set. Other events do not matter.\<close>

theorem event_schedule:
  assumes wf: "timer_wf t" and tck: "0 < m_tick t" and delay: "delay < 2 ^ 63"
    and add: "(if one_shot then set_timeout delay t else set_interval delay t) = Ret h t0"
  defines "k \<equiv> nat (delay div m_tick t)" and "s \<equiv> kNextSeqNum t"
  shows "count_list (calls ((tick ^^ n) t0)) s = (if one_shot then if k \<le> n then 1 else 0 else n div k) \<and>
    count_list (calls ((tick ^^ m) (signal_handle h ((tick ^^ n) t0)))) s = count_list (calls ((tick ^^ n) t0)) s \<and>
    (k \<le> m \<longrightarrow> s \<notin> seq_num ` set (m_events ((tick ^^ m) (signal_handle h ((tick ^^ n) t0)))))"
proof -
  from add have add: "add_event one_shot delay t = Ret h t0" by (auto simp: set_timeout_def set_interval_def split: if_splits)
  note e = add_event_mine [OF wf add, folded s_def] and r = add_event_Ret [OF wf add]
  let ?e = "new_event one_shot delay t" and ?u = "signal_handle h ((tick ^^ n) t0)"
  have q: "1 \<le> delay div m_tick t" "delay div m_tick t < 2 ^ 63"
    using zdiv_mono1 [OF r(2) tck] zdiv_mono2 [of delay 1 "m_tick t"] r(2) tck delay by simp_all
  have k: "unat (ev_ticks ?e) = k" "0 < k"
    using q tck r(2) by (simp_all add: new_event_def k_def sdiv_nonneg unat_eq_nat_uint uint_word_of_int)
  have h: "handle ?e = h" "once ?e = one_shot" "elapsed ?e = 0" by (simp_all add: new_event_def r(1))
  have sig: "is_signaled h ?u" using e(3) by (auto simp: is_signaled_def signal_handle_def ManualEvent_wait_for_def ManualEvent_signal_def)
  have u: "mine s ?u = mine s ((tick ^^ n) t0)" "calls ?u = calls ((tick ^^ n) t0)" by (simp_all add: mine_def signal_handle_def)
  show ?thesis
  proof (cases "one_shot \<and> k \<le> n")
    case True
    with ticks_timeout [OF e(1), of n] e h k have "mine s ?u = []" "count_list (calls ((tick ^^ n) t0)) s = 1" by (simp_all add: u)
    with True ticks_gone [of s ?u m] show ?thesis by (auto simp: u mine_def filter_empty_conv)
  next
    case False
    let ?j = "if one_shot then n else n mod k"
    have "mine s ?u = [?e\<lparr>elapsed := of_nat ?j\<rparr>]" "count_list (calls ((tick ^^ n) t0)) s = (if one_shot then 0 else n div k)"
      using False ticks_timeout [OF e(1), of n] ticks_interval [OF e(1), of n] e h k by (auto simp: u)
    with False ticks_signaled [of s ?u "?e\<lparr>elapsed := of_nat ?j\<rparr>" ?j m] sig h k show ?thesis
      by (auto simp: u mine_def filter_empty_conv)
  qed
qed

theorem event_schedule_witness:
  "\<exists>t0. set_interval 25 (TimeEvent_new 10 0) = Ret 1 t0 \<and> count_list (calls ((tick ^^ 7) t0)) 0 = 3 \<and>
     count_list (calls ((tick ^^ 5) (signal_handle 1 ((tick ^^ 7) t0)))) 0 = 3"
proof -
  define t0 where "t0 = state_of (set_interval 25 (TimeEvent_new 10 0))"
  have add: "set_interval 25 (TimeEvent_new 10 0) = Ret 1 t0"
    by (simp add: t0_def set_interval_def add_event_def TimeEvent_new_def)
  have "(if False then set_timeout 25 (TimeEvent_new 10 0) else set_interval 25 (TimeEvent_new 10 0)) = Ret 1 t0" using add by simp
  from event_schedule [OF timer_wf_new _ _ this, of 7 5] add show ?thesis by (auto simp: TimeEvent_new_def)
qed

text \<open>Property C33. The timer thread does not drift. Whatever the delays of its waits and the length of its turns, turn \<open>j\<close>
  starts at the grid point \<open>start + (j + 1) * tick\<close>, or when turn \<open>j - 1\<close> has ended if that is later, plus
  the delay of that one wait only; and the thread performs exactly one turn per expired wait.\<close>

theorem timer_thread_no_drift:
  assumes "list_all expired ws" "0 < m_tick t" "\<not> m_signaled (m_event t)" "m_ticks t = 0" "m_tick t * int (length ws) < 2 ^ 63"
  shows "\<exists>wakes. timer_thread ws start t = Ret wakes ((tick ^^ length ws) t) \<and> length wakes = length ws \<and>
    (\<forall>j < length ws. wakes ! j = max (turn_start ws start wakes j) (start + m_tick t * int (j + 1)) + lateness (ws ! j))"
proof -
  from thread_loop_grid [of ws t 0 0 start start] assms obtain wakes where
    "thread_loop ws start start 0 t = (wakes, (tick ^^ length ws) t)" "length wakes = length ws"
    "\<forall>j < length ws. wakes ! j = max (turn_start ws start wakes j) (start + m_tick t * int (j + 1)) + lateness (ws ! j)" by auto
  with assms(2) show ?thesis by (intro exI [of _ wakes]) (simp add: timer_thread_def)
qed

theorem timer_thread_no_drift_witness:
  "\<exists>wakes t. timer_thread [Expired 3 4, Expired 0 25, Expired 2 1] 1000 (TimeEvent_new 10 0) = Ret wakes t \<and> wakes = [1013, 1020, 1047]"
proof -
  let ?ws = "[Expired 3 4, Expired 0 25, Expired 2 1]"
  from timer_thread_no_drift [of ?ws "TimeEvent_new 10 0" 1000] obtain wakes where
    run: "timer_thread ?ws 1000 (TimeEvent_new 10 0) = Ret wakes ((tick ^^ length ?ws) (TimeEvent_new 10 0))" "length wakes = 3"
    and at: "\<forall>j < 3. wakes ! j = max (turn_start ?ws 1000 wakes j) (1000 + 10 * int (j + 1)) + lateness (?ws ! j)"
    by (auto simp: expired_def TimeEvent_new_def)
  have "wakes ! 0 = 1013" using at [rule_format, of 0] by (simp add: turn_start_def)
  moreover from this have "wakes ! 1 = 1020" using at [rule_format, of 1] by (simp add: turn_start_def)
  moreover from this have "wakes ! 2 = 1047" using at [rule_format, of 2] by (simp add: turn_start_def numeral_2_eq_2)
  ultimately have "wakes = [1013, 1020, 1047]" using run(2)
    by (intro nth_equalityI) (auto simp: less_Suc_eq numeral_3_eq_3 numeral_2_eq_2)
  with run(1) show ?thesis by blast
qed

section \<open>Threads on an event\<close>

text \<open>
  The threads that use one event, with the mutex and the condition variable written out. A thread inside
  \<open>wait\<close> (or a timed wait) is \<open>awake\<close>, about to take the mutex and look at the flag, or \<open>sleeping\<close> on the
  condition variable. \<open>signal\<close> and \<open>cancel\<close> set the flag in one section and notify after it; \<open>notifying\<close> counts
  the calls of \<open>notify_one\<close> or \<open>notify_all\<close> still to come. A thread may also wake up without a notification. The
  operations of an event are a record, so that both kinds of event use the same relation.
\<close>

record 'e event_ops =
  op_set :: "('e \<Rightarrow> 'e) list"
  op_reset :: "('e \<Rightarrow> 'e) list"
  op_wait :: "'e \<Rightarrow> 'e option"
  op_timed :: "('e \<Rightarrow> bool \<times> 'e) list"
  op_notify_all :: bool

definition AutoEvent_ops :: "AutoEvent event_ops" where
  "AutoEvent_ops = \<lparr>op_set = [AutoEvent_signal, AutoEvent_cancel], op_reset = [], op_wait = AutoEvent_wait id,
     op_timed = [AutoEvent_wait_for id, AutoEvent_wait_until id], op_notify_all = False\<rparr>"

definition ManualEvent_ops :: "ManualEvent event_ops" where
  "ManualEvent_ops = \<lparr>op_set = [ManualEvent_signal, ManualEvent_cancel], op_reset = [ManualEvent_reset], op_wait = ManualEvent_wait id,
     op_timed = [ManualEvent_wait_for id, ManualEvent_wait_until id], op_notify_all = True\<rparr>"

record 'e event_threads =
  the_event :: 'e
  sleeping :: "nat set"
  awake :: "nat set"
  notifying :: nat
  signals :: nat
  successes :: nat

definition no_threads :: "'e \<Rightarrow> 'e event_threads" where
  "no_threads e = \<lparr>the_event = e, sleeping = {}, awake = {}, notifying = 0, signals = 0, successes = 0\<rparr>"

inductive event_step :: "'e event_ops \<Rightarrow> 'e event_threads \<Rightarrow> 'e event_threads \<Rightarrow> bool" for E where
  step_set: "f \<in> set (op_set E) \<Longrightarrow>
    event_step E s (s\<lparr>the_event := f (the_event s), notifying := Suc (notifying s), signals := Suc (signals s)\<rparr>)"
| step_notify: "notifying s = Suc n \<Longrightarrow> woken \<subseteq> sleeping s \<Longrightarrow>
    (if op_notify_all E then woken = sleeping s else sleeping s = {} \<or> (\<exists>t. woken = {t})) \<Longrightarrow>
    event_step E s (s\<lparr>sleeping := sleeping s - woken, awake := awake s \<union> woken, notifying := n\<rparr>)"
| step_reset: "f \<in> set (op_reset E) \<Longrightarrow> event_step E s (s\<lparr>the_event := f (the_event s)\<rparr>)"
| step_enter: "t \<notin> sleeping s \<union> awake s \<Longrightarrow> event_step E s (s\<lparr>awake := insert t (awake s)\<rparr>)"
| step_spurious: "t \<in> sleeping s \<Longrightarrow> event_step E s (s\<lparr>sleeping := sleeping s - {t}, awake := insert t (awake s)\<rparr>)"
| step_sleep: "t \<in> awake s \<Longrightarrow> op_wait E (the_event s) = None \<Longrightarrow>
    event_step E s (s\<lparr>sleeping := insert t (sleeping s), awake := awake s - {t}\<rparr>)"
| step_return: "t \<in> awake s \<Longrightarrow> op_wait E (the_event s) = Some e \<Longrightarrow>
    event_step E s (s\<lparr>the_event := e, awake := awake s - {t}, successes := Suc (successes s)\<rparr>)"
| step_timed: "t \<in> awake s \<Longrightarrow> f \<in> set (op_timed E) \<Longrightarrow> f (the_event s) = (b, e) \<Longrightarrow>
    event_step E s (s\<lparr>the_event := e, awake := awake s - {t}, successes := (if b then Suc else id) (successes s)\<rparr>)"

text \<open>What the sections of an event promise: setting sets the flag, a wait returns exactly when the flag is
  set, a timed wait tells whether it was, and leaves the flag alone when it was not. If only one thread is
  notified, a wait that returns takes the flag.\<close>

locale event_laws =
  fixes E :: "'e event_ops" and flag :: "'e \<Rightarrow> bool"
  assumes set_flag: "f \<in> set (op_set E) \<Longrightarrow> flag (f e)"
    and reset_flag: "f \<in> set (op_reset E) \<Longrightarrow> \<not> flag (f e)"
    and wait_flag: "op_wait E e = None \<longleftrightarrow> \<not> flag e"
    and timed_wait: "g \<in> set (op_timed E) \<Longrightarrow> g e = (case op_wait E e of None \<Rightarrow> (False, e) | Some e' \<Rightarrow> (True, e'))"
    and one_takes: "\<not> op_notify_all E \<Longrightarrow> op_wait E e = Some e' \<Longrightarrow> \<not> flag e'"
begin

text \<open>While the flag is set and a thread sleeps, somebody will look: a notification is on its way, or (when one thread
  is notified at a time) a thread is awake.\<close>

definition attended :: "'e event_threads \<Rightarrow> bool" where
  "attended s \<longleftrightarrow> (flag (the_event s) \<and> sleeping s \<noteq> {} \<longrightarrow> 0 < notifying s \<or> (\<not> op_notify_all E \<and> awake s \<noteq> {}))"

lemma wait_was_set: "op_wait E e = Some e' \<Longrightarrow> flag e"
  using wait_flag [of e] by auto

lemma attended_step: "event_step E s s' \<Longrightarrow> attended s \<Longrightarrow> attended s'"
proof (induction rule: event_step.induct)
  case (step_timed t s f b e)
  then show ?case using one_takes wait_was_set wait_flag [of "the_event s"]
    by (cases "op_wait E (the_event s)") (auto simp: attended_def timed_wait)
qed (auto simp: attended_def set_flag wait_flag dest: one_takes wait_was_set reset_flag split: if_splits)

lemma attended_reachable: "(event_step E)\<^sup>*\<^sup>* (no_threads e) s \<Longrightarrow> attended s"
  by (induction rule: rtranclp_induct) (simp add: attended_def no_threads_def, blast intro: attended_step)

text \<open>Nobody sleeps through a signal: once all notifications are out and nobody is awake, no thread sleeps on a flag
  that is set.\<close>

lemma no_lost_wakeup:
  "(event_step E)\<^sup>*\<^sup>* (no_threads e) s \<Longrightarrow> flag (the_event s) \<Longrightarrow> notifying s = 0 \<Longrightarrow> awake s = {} \<Longrightarrow> sleeping s = {}"
  using attended_reachable by (fastforce simp: attended_def)

text \<open>If only one thread is notified, no signal lets two waits succeed.\<close>

lemma successes_step:
  assumes "event_step E s s'" "\<not> op_notify_all E" "successes s + (if flag (the_event s) then 1 else 0) \<le> signals s + n"
  shows "successes s' + (if flag (the_event s') then 1 else 0) \<le> signals s' + n"
  using assms
proof (induction rule: event_step.induct)
  case (step_timed t s f b e)
  then show ?case using one_takes wait_was_set [of "the_event s"]
    by (cases "op_wait E (the_event s)") (auto simp: timed_wait split: if_splits)
qed (auto split: if_splits dest: one_takes wait_was_set reset_flag)

lemma successes_bounded:
  assumes "(event_step E)\<^sup>*\<^sup>* (no_threads e) s" "\<not> op_notify_all E"
  shows "successes s \<le> signals s + (if flag e then 1 else 0)"
proof -
  from assms(1) have "successes s + (if flag (the_event s) then 1 else 0) \<le> signals s + (if flag e then 1 else 0)"
    by (induction rule: rtranclp_induct) (use assms(2) successes_step in \<open>auto simp: no_threads_def\<close>)
  then show ?thesis by linarith
qed

end

interpretation auto_ev: event_laws AutoEvent_ops a_signaled
  by unfold_locales
    (auto simp: AutoEvent_ops_def AutoEvent_signal_def AutoEvent_cancel_def AutoEvent_wait_def AutoEvent_wait_for_def AutoEvent_wait_until_def Let_def
      split: if_splits)

interpretation manual_ev: event_laws ManualEvent_ops m_signaled
  by unfold_locales
    (auto simp: ManualEvent_ops_def ManualEvent_signal_def ManualEvent_cancel_def ManualEvent_reset_def ManualEvent_wait_def ManualEvent_wait_for_def
      ManualEvent_wait_until_def Let_def)

text \<open>Property C31. No signal is lost and none is used twice. Whatever the threads on an event do, in any order: when all
  notifications are out and every thread in a wait sleeps, the flag is not set, for both kinds of event; and the waits on
  an \<open>AutoEvent\<close> that succeed are at most its signals (and one for an event created signalled).\<close>

theorem events_deliver_signals:
  assumes "(event_step AutoEvent_ops)\<^sup>*\<^sup>* (no_threads e) s" "(event_step ManualEvent_ops)\<^sup>*\<^sup>* (no_threads e') s'"
  shows "successes s \<le> signals s + (if a_signaled e then 1 else 0) \<and>
    (notifying s = 0 \<and> awake s = {} \<and> sleeping s \<noteq> {} \<longrightarrow> \<not> a_signaled (the_event s)) \<and>
    (notifying s' = 0 \<and> awake s' = {} \<and> sleeping s' \<noteq> {} \<longrightarrow> \<not> m_signaled (the_event s'))"
  using assms auto_ev.no_lost_wakeup [of e s] auto_ev.successes_bounded [of e s] manual_ev.no_lost_wakeup [of e' s']
  by (auto simp: AutoEvent_ops_def)

theorem events_deliver_signals_witness:
  "\<exists>s s'. (event_step AutoEvent_ops)\<^sup>*\<^sup>* (no_threads \<lparr>a_signaled = False\<rparr>) s \<and> sleeping s = {1} \<and> awake s = {} \<and> notifying s = 0 \<and>
     signals s = 1 \<and> successes s = 1 \<and> \<not> a_signaled (the_event s) \<and>
     (event_step ManualEvent_ops)\<^sup>*\<^sup>* (no_threads \<lparr>m_signaled = False\<rparr>) s' \<and> sleeping s' = {0} \<and> \<not> m_signaled (the_event s')"
proof -
  let ?s = "\<lambda>f sl aw nt sg su. \<lparr>the_event = \<lparr>a_signaled = f\<rparr>, sleeping = sl, awake = aw, notifying = nt, signals = sg, successes = su\<rparr>"
  let ?m = "\<lambda>sl aw. \<lparr>the_event = \<lparr>m_signaled = False\<rparr>, sleeping = sl, awake = aw, notifying = 0, signals = 0, successes = 0\<rparr>"
  note defs = AutoEvent_ops_def AutoEvent_wait_def AutoEvent_signal_def ManualEvent_ops_def ManualEvent_wait_def no_threads_def
  have 0: "event_step AutoEvent_ops (no_threads \<lparr>a_signaled = False\<rparr>) (?s False {} {0} 0 0 0)"
    using step_enter [of 0 "?s False {} {} 0 0 0"] by (simp add: no_threads_def)
  have 1: "event_step AutoEvent_ops (?s False {} {0} 0 0 0) (?s False {0} {} 0 0 0)"
    using step_sleep [of 0 "?s False {} {0} 0 0 0" AutoEvent_ops] by (simp add: defs)
  have 2: "event_step AutoEvent_ops (?s False {0} {} 0 0 0) (?s True {0} {} 1 1 0)"
    using step_set [of AutoEvent_signal AutoEvent_ops "?s False {0} {} 0 0 0"] by (simp add: defs)
  have 3: "event_step AutoEvent_ops (?s True {0} {} 1 1 0) (?s True {} {0} 0 1 0)"
    using step_notify [of "?s True {0} {} 1 1 0" 0 "{0}" AutoEvent_ops] by (simp add: defs)
  have 4: "event_step AutoEvent_ops (?s True {} {0} 0 1 0) (?s False {} {} 0 1 1)"
    using step_return [of 0 "?s True {} {0} 0 1 0" AutoEvent_ops] by (simp add: defs)
  have 5: "event_step AutoEvent_ops (?s False {} {} 0 1 1) (?s False {} {1} 0 1 1)"
    using step_enter [of 1 "?s False {} {} 0 1 1"] by simp
  have 6: "event_step AutoEvent_ops (?s False {} {1} 0 1 1) (?s False {1} {} 0 1 1)"
    using step_sleep [of 1 "?s False {} {1} 0 1 1" AutoEvent_ops] by (simp add: defs)
  have A: "(event_step AutoEvent_ops)\<^sup>*\<^sup>* (no_threads \<lparr>a_signaled = False\<rparr>) (?s False {1} {} 0 1 1)"
    using 0 1 2 3 4 5 6 by (meson r_into_rtranclp rtranclp.rtrancl_into_rtrancl)
  have "event_step ManualEvent_ops (no_threads \<lparr>m_signaled = False\<rparr>) (?m {} {0})"
    using step_enter [of 0 "?m {} {}"] by (simp add: no_threads_def)
  moreover have "event_step ManualEvent_ops (?m {} {0}) (?m {0} {})"
    using step_sleep [of 0 "?m {} {0}" ManualEvent_ops] by (simp add: defs)
  ultimately have M: "(event_step ManualEvent_ops)\<^sup>*\<^sup>* (no_threads \<lparr>m_signaled = False\<rparr>) (?m {0} {})"
    by (meson r_into_rtranclp rtranclp.rtrancl_into_rtrancl)
  from events_deliver_signals [OF A M] A M show ?thesis by (intro exI conjI) (assumption | simp)+
qed

end
