(* ===== verification/Net_Tool.thy ===== *)
theory Net_Tool
  imports Prelude
begin

text \<open>
  \<open>include/util/net_util.h\<close>: the address of this node in a given network. The interface list of
  \<open>getifaddrs\<close> is an argument. An IPv4 address is the little-endian reading of its four octets, as
  \<open>inet_addr\<close> returns it; \<open>inet_addr\<close> is modelled for dotted decimal quads, which is what the program
  passes. \<open>None\<close>: a shift outside the width of its operand (undefined), or another argument form.
\<close>

section \<open>The C library\<close>

fun split_dots :: "string \<Rightarrow> string list" where
  "split_dots [] = [[]]"
| "split_dots (c # cs) = (if c = CHR ''.'' then [] # split_dots cs
     else case split_dots cs of [] \<Rightarrow> [[c]] | p # ps \<Rightarrow> (c # p) # ps)"

definition octet :: "string \<Rightarrow> nat option" where
  "octet s = (if s \<noteq> [] \<and> list_all is_digit s \<and> (s = ''0'' \<or> hd s \<noteq> CHR ''0'') \<and> digits_value 0 s < 256
     then Some (digits_value 0 s) else None)"

definition ipv4 :: "nat \<Rightarrow> nat \<Rightarrow> nat \<Rightarrow> nat \<Rightarrow> u32" where
  "ipv4 a b c d = of_nat (a + 256 * b + 65536 * c + 16777216 * d)"

definition inet_addr :: "string \<Rightarrow> u32 option" where
  "inet_addr s = (case map octet (split_dots s) of [Some a, Some b, Some c, Some d] \<Rightarrow> Some (ipv4 a b c d) | _ \<Rightarrow> None)"

definition dotted :: "nat \<Rightarrow> nat \<Rightarrow> nat \<Rightarrow> nat \<Rightarrow> string" where
  "dotted a b c d = nat_string a @ CHR ''.'' # nat_string b @ CHR ''.'' # nat_string c @ CHR ''.'' # nat_string d"

definition inet_ntoa :: "u32 \<Rightarrow> string" where
  "inet_ntoa w = (let n = unat w in dotted (n mod 256) (n div 256 mod 256) (n div 65536 mod 256) (n div 16777216))"

datatype ifaddr = NoAddr | AF_INET u32 | AF_INET6

section \<open>Operations\<close>

text \<open>The text both functions compute from the prefix: the address that follows the local part by one network,
  without its last character.\<close>

definition net_text :: "string \<Rightarrow> int \<Rightarrow> string option" where
  "net_text ip_prefix ip_prefix_length =
     (case inet_addr ip_prefix of None \<Rightarrow> None | Some ip \<Rightarrow>
      if 1 \<le> ip_prefix_length \<and> ip_prefix_length \<le> 31 then
        (let len = nat ip_prefix_length;
             ip_local = drop_bit (32 - len) (push_bit (32 - len) ip);
             gtway = ip_local + push_bit len 1
         in Some (butlast (inet_ntoa gtway)))
      else None)"

definition match_ifa :: "string \<Rightarrow> nat \<Rightarrow> int \<Rightarrow> ifaddr \<Rightarrow> int" where
  "match_ifa ip_prefix n node_id ifa =
     (case ifa of
        AF_INET w \<Rightarrow> (let addressBuffer = inet_ntoa w in
          if take n addressBuffer = take n ip_prefix then c_atoi (drop n addressBuffer) else node_id)
      | _ \<Rightarrow> node_id)"

definition get_node_id :: "ifaddr list \<Rightarrow> string \<Rightarrow> int \<Rightarrow> int option" where
  "get_node_id ifs ip_prefix ip_prefix_length =
     map_option (\<lambda>ip. foldl (match_ifa ip_prefix (length ip)) (- 1) ifs) (net_text ip_prefix ip_prefix_length)"

definition get_ip :: "ifaddr list \<Rightarrow> string \<Rightarrow> int \<Rightarrow> string option" where
  "get_ip ifs ip_prefix ip_prefix_length =
     (case net_text ip_prefix ip_prefix_length of None \<Rightarrow> None | Some ip \<Rightarrow>
      case get_node_id ifs ip_prefix ip_prefix_length of None \<Rightarrow> None | Some node_id \<Rightarrow>
      if length ip - 1 \<le> length ip_prefix then Some (take (length ip - 1) ip_prefix @ CHR ''.'' # int_string node_id) else None)"

text \<open>\<open>sscanf\<close> with \<open>%d.%d.%d.%d\<close>: \<open>None\<close> when the last number is not reached, so that \<open>p4\<close> has no value.\<close>

definition scan_int :: "string \<Rightarrow> (int \<times> string) option" where
  "scan_int s =
     (let s = dropWhile is_space s;
          neg = (take 1 s = ''-'');
          ds = (if take 1 s = ''-'' \<or> take 1 s = ''+'' then drop 1 s else s);
          digits = takeWhile is_digit ds in
      if digits = [] then None
      else Some (if neg then - int (digits_value 0 digits) else int (digits_value 0 digits), drop (length digits) ds))"

definition scan_dot :: "string \<Rightarrow> string option" where
  "scan_dot s = (if take 1 s = ''.'' then Some (drop 1 s) else None)"

definition get_token_id :: "string \<Rightarrow> int option" where
  "get_token_id ip =
     Option.bind (scan_int ip) (\<lambda>(p1, s). Option.bind (scan_dot s) (\<lambda>s.
     Option.bind (scan_int s) (\<lambda>(p2, s). Option.bind (scan_dot s) (\<lambda>s.
     Option.bind (scan_int s) (\<lambda>(p3, s). Option.bind (scan_dot s) (\<lambda>s.
     map_option fst (scan_int s)))))))"

section \<open>Lemmas: decimal numbers\<close>

lemma digit_char:
  fixes n :: nat assumes "n < 10"
  shows "is_digit (char_of (48 + n))" "of_char (char_of (48 + n) :: char) = 48 + n" "char_of (48 + n) = CHR ''0'' \<Longrightarrow> n = 0"
proof -
  show v: "of_char (char_of (48 + n) :: char) = 48 + n" using assms by simp
  then show "is_digit (char_of (48 + n))" using assms unfolding is_digit_def less_eq_char_def by simp
  assume "char_of (48 + n) = CHR ''0''"
  then have "(of_char (char_of (48 + n) :: char) :: nat) = of_char CHR ''0''" by simp
  with v show "n = 0" by simp
qed

lemma digits_value_append: "list_all is_digit s \<Longrightarrow> digits_value v (s @ r) = digits_value (digits_value v s) r"
  by (induction s arbitrary: v) auto

lemma nat_string_decimal: "nat_string n \<noteq> [] \<and> list_all is_digit (nat_string n) \<and> digits_value 0 (nat_string n) = n \<and>
    (hd (nat_string n) = CHR ''0'' \<longrightarrow> n = 0)"
proof (induction n rule: nat_string.induct)
  case (1 n)
  show ?case
  proof (cases "n < 10")
    case True
    with True digit_char [OF True] show ?thesis by (simp add: nat_string.simps [of n])
  next
    case False
    have "n mod 10 < 10" by simp
    note d = digit_char [OF this]
    from False 1 have IH: "nat_string (n div 10) \<noteq> []" "list_all is_digit (nat_string (n div 10))"
        "digits_value 0 (nat_string (n div 10)) = n div 10" "hd (nat_string (n div 10)) \<noteq> CHR ''0''" by auto
    with False d show ?thesis by (simp add: nat_string.simps [of n] digits_value_append)
  qed
qed

lemma nat_string_no_dot: "CHR ''.'' \<notin> set (nat_string n)"
proof -
  have "\<not> is_digit CHR ''.''" by (simp add: is_digit_def less_eq_char_def)
  then show ?thesis using nat_string_decimal [of n] by (auto simp: list_all_iff)
qed

lemma nat_string_inj: "nat_string m = nat_string n \<Longrightarrow> m = n"
  using nat_string_decimal by metis

lemma octet_nat_string: "n < 256 \<Longrightarrow> octet (nat_string n) = Some n"
  using nat_string_decimal [of n] by (auto simp: octet_def nat_string.simps [of 0])

lemma c_atoi_nat_string:
  assumes "n < 2147483648" shows "c_atoi (nat_string n) = int n"
proof -
  obtain c cs where c: "nat_string n = c # cs" using nat_string_decimal [of n] by (cases "nat_string n") auto
  have d: "is_digit c" using nat_string_decimal [of n] c by simp
  have "\<not> is_space c" "c \<noteq> CHR ''-''" "c \<noteq> CHR ''+''"
    using d by (auto simp: is_digit_def is_space_def less_eq_char_def)
  then have "c_strtol (nat_string n) = int n"
    using nat_string_decimal [of n] d assms by (simp add: c_strtol_def c del: digits_value.simps)
  moreover have "sint (of_int (int n) :: u32) = int n"
    using assms by (subst sint_sbintrunc') (simp add: signed_take_bit_int_eq_self)
  ultimately show ?thesis by (simp add: c_atoi_def)
qed

section \<open>Lemmas: dotted quads\<close>

lemma split_dots_last: "CHR ''.'' \<notin> set s \<Longrightarrow> split_dots s = [s]"
  by (induction s) auto

lemma split_dots_first: "CHR ''.'' \<notin> set s \<Longrightarrow> split_dots (s @ CHR ''.'' # r) = s # split_dots r"
  by (induction s) auto

lemma inet_addr_dotted: "a < 256 \<Longrightarrow> b < 256 \<Longrightarrow> c < 256 \<Longrightarrow> d < 256 \<Longrightarrow> inet_addr (dotted a b c d) = Some (ipv4 a b c d)"
  by (simp add: inet_addr_def dotted_def split_dots_first split_dots_last nat_string_no_dot octet_nat_string)

lemma unat_ipv4:
  assumes "a < 256" "b < 256" "c < 256" "d < 256"
  shows "unat (ipv4 a b c d) = a + 256 * b + 65536 * c + 16777216 * d"
  using assms unfolding ipv4_def by (subst unat_of_nat) simp

lemma octets_div:
  "(n :: nat) div 65536 = n div 256 div 256" "n div 16777216 = n div 256 div 256 div 256"
  by (simp_all add: div_mult2_eq [symmetric])

lemma inet_ntoa_ipv4:
  assumes "a < 256" "b < 256" "c < 256" "d < 256" shows "inet_ntoa (ipv4 a b c d) = dotted a b c d"
proof -
  let ?n = "a + 256 * b + 65536 * c + 16777216 * d"
  have n: "?n = a + 256 * (b + 256 * (c + 256 * d))" by simp
  have "?n mod 256 = a" "?n div 256 = b + 256 * (c + 256 * d)" unfolding n using assms(1)
    by (simp_all del: distrib_left_numeral)
  moreover have "(b + 256 * (c + 256 * d)) mod 256 = b" "(b + 256 * (c + 256 * d)) div 256 = c + 256 * d" using assms(2)
    by (simp_all del: distrib_left_numeral)
  moreover have "(c + 256 * d) mod 256 = c" "(c + 256 * d) div 256 = d" using assms(3) by simp_all
  ultimately have "?n mod 256 = a" "?n div 256 mod 256 = b" "?n div 65536 mod 256 = c" "?n div 16777216 = d"
    by (simp_all only: octets_div)
  then show ?thesis unfolding inet_ntoa_def unat_ipv4 [OF assms] Let_def by simp
qed

lemma scan_int_nat_string:
  assumes "r = [] \<or> \<not> is_digit (hd r)" shows "scan_int (nat_string n @ r) = Some (int n, r)"
proof -
  obtain c cs where c: "nat_string n = c # cs" using nat_string_decimal [of n] by (cases "nat_string n") auto
  have all: "list_all is_digit (c # cs)" "digits_value 0 (c # cs) = n" using nat_string_decimal [of n] c by (simp_all only:)
  then have "\<not> is_space c" "c \<noteq> CHR ''-''" "c \<noteq> CHR ''+''" by (auto simp: is_digit_def is_space_def less_eq_char_def)
  moreover have "takeWhile is_digit (c # cs @ r) = c # cs"
    using all(1) assms takeWhile_append2 [of "c # cs" is_digit r] by (cases r) (auto simp: list_all_iff)
  ultimately show ?thesis using all(2) by (simp add: scan_int_def c)
qed

lemma get_token_id_dotted: "get_token_id (dotted a b c d) = Some (int d)"
proof -
  have "\<not> is_digit CHR ''.''" by (simp add: is_digit_def less_eq_char_def)
  then have "scan_int (nat_string n @ CHR ''.'' # r) = Some (int n, CHR ''.'' # r)" for n r by (simp add: scan_int_nat_string)
  moreover have "scan_int (nat_string d) = Some (int d, [])" using scan_int_nat_string [of "[]" d] by simp
  ultimately show ?thesis by (simp add: get_token_id_def dotted_def scan_dot_def)
qed

text \<open>The network part of a quad, and what follows it.\<close>

definition net :: "nat \<Rightarrow> nat \<Rightarrow> nat \<Rightarrow> string" where
  "net a b c = nat_string a @ CHR ''.'' # nat_string b @ CHR ''.'' # nat_string c @ ''.''"

lemma dotted_net: "dotted a b c d = net a b c @ nat_string d"
  by (simp add: dotted_def net_def)

lemma dot_split:
  "CHR ''.'' \<notin> set s \<Longrightarrow> CHR ''.'' \<notin> set s' \<Longrightarrow> s @ CHR ''.'' # r = s' @ CHR ''.'' # r' \<Longrightarrow> s = s' \<and> r = r'"
proof (induction s arbitrary: s')
  case (Cons x s)
  then show ?case by (cases s') auto
qed (auto simp: Cons_eq_append_conv)

lemma net_prefix:
  assumes "dotted x y z k = net a b c @ r" shows "x = a \<and> y = b \<and> z = c \<and> r = nat_string k"
proof -
  note dots = dot_split [OF nat_string_no_dot nat_string_no_dot]
  from assms have "nat_string x @ CHR ''.'' # (nat_string y @ CHR ''.'' # nat_string z @ CHR ''.'' # nat_string k) =
      nat_string a @ CHR ''.'' # (nat_string b @ CHR ''.'' # nat_string c @ CHR ''.'' # r)" by (simp add: dotted_def net_def)
  from dots [OF this] have 1: "x = a" "nat_string y @ CHR ''.'' # (nat_string z @ CHR ''.'' # nat_string k) =
      nat_string b @ CHR ''.'' # (nat_string c @ CHR ''.'' # r)" by (auto dest: nat_string_inj)
  from dots [OF 1(2)] have 2: "y = b" "nat_string z @ CHR ''.'' # nat_string k = nat_string c @ CHR ''.'' # r" by (auto dest: nat_string_inj)
  from dots [OF 2(2)] 1(1) 2(1) show ?thesis by (auto dest: nat_string_inj)
qed

lemma ipv4_cases:
  obtains a b c d where "w = ipv4 a b c d" "a < 256" "b < 256" "c < 256" "d < 256"
proof -
  let ?n = "unat w"
  have lt: "?n < 2 ^ LENGTH(32)" by (rule unsigned_less)
  let ?a = "?n mod 256" and ?b = "?n div 256 mod 256" and ?c = "?n div 65536 mod 256" and ?d = "?n div 16777216"
  have "n mod 256 + 256 * (n div 256) = n" for n :: nat by simp
  from this [of ?n] this [of "?n div 256"] this [of "?n div 256 div 256"]
  have "?a + 256 * ?b + 65536 * ?c + 16777216 * ?d = ?n" unfolding octets_div by linarith
  then have "ipv4 ?a ?b ?c ?d = w" by (simp only: ipv4_def) simp
  moreover have "?d < 256" using lt by simp
  ultimately show ?thesis by (intro that [of ?a ?b ?c ?d]) simp_all
qed

lemma net_text_24:
  assumes "a < 256" "b < 256" "c < 256" "d < 256"
  shows "net_text (dotted a b c d) 24 = Some (net a b c)"
proof -
  have "drop_bit 8 (push_bit 8 w) = take_bit 24 w" for w :: u32 by (rule bit_word_eqI) (auto simp: bit_simps)
  moreover have "unat (take_bit 24 (ipv4 a b c d)) = a + 256 * b + 65536 * c"
    unfolding unsigned_take_bit_eq unat_ipv4 [OF assms] using assms by (simp add: take_bit_eq_mod)
  then have "unat (take_bit 24 (ipv4 a b c d) + 16777216) = unat (ipv4 a b c 1)"
    using assms by (simp add: unat_ipv4 unat_word_ariths)
  then have "take_bit 24 (ipv4 a b c d) + 16777216 = ipv4 a b c 1" by (simp only: word_unat_eq_iff)
  ultimately have "drop_bit 8 (push_bit 8 (ipv4 a b c d)) + 16777216 = ipv4 a b c 1" by (simp only:)
  then have "inet_ntoa (drop_bit 8 (push_bit 8 (ipv4 a b c d)) + push_bit 24 1) = dotted a b c 1"
    using inet_ntoa_ipv4 [of a b c 1] assms by (simp add: push_bit_of_1)
  moreover have "nat_string 1 = ''1''" by code_simp
  then have "butlast (dotted a b c 1) = net a b c" by (simp add: dotted_net butlast_append)
  ultimately show ?thesis by (simp add: net_text_def inet_addr_dotted assms)
qed

text \<open>The interfaces of a network, by the numbers of their addresses.\<close>

definition in_net :: "nat \<Rightarrow> nat \<Rightarrow> nat \<Rightarrow> u32 \<Rightarrow> bool" where
  "in_net a b c w \<longleftrightarrow> unat w mod 16777216 = a + 256 * b + 65536 * c"

fun net_addrs :: "nat \<Rightarrow> nat \<Rightarrow> nat \<Rightarrow> ifaddr list \<Rightarrow> u32 list" where
  "net_addrs a b c [] = []"
| "net_addrs a b c (AF_INET w # ifs) = (if in_net a b c w then w # net_addrs a b c ifs else net_addrs a b c ifs)"
| "net_addrs a b c (ifa # ifs) = net_addrs a b c ifs"

lemma octet_inj: "x < 256 \<Longrightarrow> a < 256 \<Longrightarrow> x + 256 * y = a + 256 * b \<Longrightarrow> x = a \<and> y = (b :: nat)"
proof -
  assume "x < 256" "a < 256" "x + 256 * y = a + 256 * b"
  then have "(x + 256 * y) mod 256 = (a + 256 * b) mod 256" "(x + 256 * y) div 256 = (a + 256 * b) div 256" by simp_all
  with \<open>x < 256\<close> \<open>a < 256\<close> show ?thesis by simp
qed

lemma in_net_ipv4:
  assumes "a < 256" "b < 256" "c < 256" "x < 256" "y < 256" "z < 256" "k < 256"
  shows "in_net a b c (ipv4 x y z k) \<longleftrightarrow> x = a \<and> y = b \<and> z = c"
proof -
  have "unat (ipv4 x y z k) mod 16777216 = x + 256 * y + 65536 * z" unfolding unat_ipv4 [OF assms(4-7)] using assms by simp
  then have "in_net a b c (ipv4 x y z k) \<longleftrightarrow> x + 256 * (y + 256 * z) = a + 256 * (b + 256 * c)"
    unfolding in_net_def by (simp add: add.assoc)
  then show ?thesis using octet_inj [of x a "y + 256 * z" "b + 256 * c"] octet_inj [of y b z c] assms by metis
qed

lemma match_ifa_quad:
  assumes "a < 256" "b < 256" "c < 256"
  shows "match_ifa (dotted a b c d) (length (net a b c)) node (AF_INET w) = (if in_net a b c w then int (unat w div 16777216) else node)"
proof -
  obtain x y z k where w: "w = ipv4 x y z k" and lt: "x < 256" "y < 256" "z < 256" "k < 256" by (rule ipv4_cases)
  have k: "unat w div 16777216 = k" unfolding w unat_ipv4 [OF lt] using lt by simp
  have pre: "take (length (net a b c)) (dotted a b c d) = net a b c" by (simp add: dotted_net)
  have "take (length (net a b c)) (dotted x y z k) = net a b c \<longleftrightarrow> x = a \<and> y = b \<and> z = c"
  proof
    assume "take (length (net a b c)) (dotted x y z k) = net a b c"
    then have "dotted x y z k = net a b c @ drop (length (net a b c)) (dotted x y z k)" by (metis append_take_drop_id)
    then show "x = a \<and> y = b \<and> z = c" by (blast dest: net_prefix)
  qed (simp add: dotted_net)
  moreover have "drop (length (net a b c)) (dotted a b c k) = nat_string k" by (simp add: dotted_net)
  ultimately show ?thesis
    unfolding match_ifa_def using w k in_net_ipv4 [OF assms lt] lt by (auto simp: inet_ntoa_ipv4 [OF lt] pre c_atoi_nat_string)
qed

lemma fold_match:
  assumes "a < 256" "b < 256" "c < 256"
  shows "foldl (match_ifa (dotted a b c d) (length (net a b c))) node ifs =
    (if net_addrs a b c ifs = [] then node else int (unat (last (net_addrs a b c ifs)) div 16777216))"
proof (induction ifs arbitrary: node)
  case (Cons i ifs)
  then show ?case using match_ifa_quad [OF assms] by (cases i) (auto simp: match_ifa_def)
qed simp

lemma net_addrs_in: "w \<in> set (net_addrs a b c ifs) \<Longrightarrow> in_net a b c w"
  by (induction a b c ifs rule: net_addrs.induct) (auto split: if_splits)

lemma get_ip_own:
  assumes "a < 256" "b < 256" "c < 256" "d < 256"
  shows "get_ip ifs (dotted a b c d) 24 =
    Some (if net_addrs a b c ifs = [] then net a b c @ ''-1'' else inet_ntoa (last (net_addrs a b c ifs)))"
proof -
  have id: "get_node_id ifs (dotted a b c d) 24 =
      Some (if net_addrs a b c ifs = [] then - 1 else int (unat (last (net_addrs a b c ifs)) div 16777216))"
    by (simp add: get_node_id_def net_text_24 [OF assms] fold_match [OF assms(1-3)])
  have pre: "take (length (net a b c) - 1) (dotted a b c d) @ CHR ''.'' # r = net a b c @ r" for r
    by (simp add: dotted_net net_def)
  have len: "length (net a b c) - 1 \<le> length (dotted a b c d)" by (simp add: dotted_net)
  have "inet_ntoa w = net a b c @ int_string (int (unat w div 16777216))" if "w \<in> set (net_addrs a b c ifs)" for w
  proof -
    obtain x y z k where w: "w = ipv4 x y z k" and lt: "x < 256" "y < 256" "z < 256" "k < 256" by (rule ipv4_cases)
    have "unat w div 16777216 = k" unfolding w unat_ipv4 [OF lt] using lt by simp
    moreover have "x = a" "y = b" "z = c" using net_addrs_in [OF that] in_net_ipv4 [OF assms(1-3) lt] w by auto
    moreover have "inet_ntoa w = dotted x y z k" unfolding w by (rule inet_ntoa_ipv4 [OF lt])
    ultimately show ?thesis by (simp add: dotted_net int_string_def)
  qed
  moreover have "int_string (- 1) = ''-1''" by code_simp
  ultimately show ?thesis using pre len last_in_set by (auto simp: get_ip_def net_text_24 [OF assms] id)
qed

section \<open>Property\<close>

text \<open>Property C35. The own address. For a 24-bit prefix given as a dotted quad, \<open>get_ip\<close> returns exactly the address of the
  last interface of that network; when the node has none, it returns the network with the host number -1.\<close>

theorem get_ip_own_address:
  assumes "a < 256" "b < 256" "c < 256" "d < 256"
  shows "get_ip ifs (dotted a b c d) 24 =
    Some (if net_addrs a b c ifs = [] then net a b c @ ''-1'' else inet_ntoa (last (net_addrs a b c ifs)))"
  by (rule get_ip_own [OF assms])

theorem get_ip_own_address_witness:
  "get_ip [AF_INET (ipv4 127 0 0 1), AF_INET6, AF_INET (ipv4 12 12 12 113), NoAddr] ''12.12.12.111'' 24 = Some ''12.12.12.113''"
proof -
  have "dotted 12 12 12 111 = ''12.12.12.111''" "dotted 12 12 12 113 = ''12.12.12.113''" by code_simp+
  then show ?thesis
    using get_ip_own_address [of 12 12 12 111 "[AF_INET (ipv4 127 0 0 1), AF_INET6, AF_INET (ipv4 12 12 12 113), NoAddr]"]
    by (simp add: in_net_ipv4 inet_ntoa_ipv4)
qed

end
