(* ===== verification/Logging.thy ===== *)
theory Logging
  imports Prelude
begin

text \<open>
  \<open>include/util/logging.h\<close>: the log level taken from the environment, and the call tracer. The environment
  is a map; \<open>setenv_ok\<close> tells for which variables \<open>setenv\<close> succeeds. Output goes to glog and is not
  modelled; \<open>LOG(FATAL)\<close>, \<open>CHECK\<close> and \<open>UNIMPLEMENTED\<close> are the faults of the prelude.
\<close>

section \<open>The log level\<close>

record RLOG =
  log_level :: int
  registerted :: bool

type_synonym environment = "string \<rightharpoonup> string"

definition setenv :: "(string \<Rightarrow> bool) \<Rightarrow> string \<Rightarrow> string \<Rightarrow> RLOG \<times> environment \<Rightarrow> (unit, RLOG \<times> environment) outcome" where
  "setenv setenv_ok name v s = (if setenv_ok name then Ret () (fst s, (snd s)(name \<mapsto> v)) else Halt (Exited 0) s)"

definition set_glog :: "(string \<Rightarrow> bool) \<Rightarrow> RLOG \<times> environment \<Rightarrow> (int, RLOG \<times> environment) outcome" where
  "set_glog setenv_ok s =
     (if registerted (fst s) then Ret 1 s
      else
        let s = ((fst s)\<lparr>registerted := True\<rparr>, snd s) in
        (case snd s ''RCL_MAX_VLOG_LEVEL'' of
          None \<Rightarrow> Ret 0 s
        | Some LOG_LEVEL \<Rightarrow>
            bindO (setenv setenv_ok ''GLOG_v'' LOG_LEVEL s) (\<lambda>_ s.
            bindO (setenv setenv_ok ''GLOG_logtostderr'' ''1'' s) (\<lambda>_ s.
            bindO (setenv setenv_ok ''GLOG_colorlogtostderr'' ''1'' s) (\<lambda>_ s.
            Ret 0 ((fst s)\<lparr>log_level := c_atoi LOG_LEVEL\<rparr>, snd s))))))"

definition RLOG_new :: "(string \<Rightarrow> bool) \<Rightarrow> environment \<Rightarrow> (unit, RLOG \<times> environment) outcome" where
  "RLOG_new setenv_ok env = bindO (set_glog setenv_ok (\<lparr>log_level = 0, registerted = False\<rparr>, env)) (\<lambda>_. Ret ())"

section \<open>Formatted texts\<close>

text \<open>\<open>RLOG::make_string\<close> is \<open>vasprintf\<close>. The model covers the conversions the program uses: \<open>%s\<close>, \<open>%p\<close>, \<open>%lu\<close>, and \<open>%d\<close>, \<open>%u\<close>, \<open>%x\<close>,
  \<open>%02x\<close>, which look at the low 32 bits of an argument. \<open>None\<close>: another conversion, or an argument that is missing or of the
  wrong kind. Running out of memory is left out.\<close>

datatype fmt_arg = Str string | Num u64

definition hex_char :: "nat \<Rightarrow> char" where
  "hex_char n = char_of (if n < 10 then 48 + n else 87 + n)"

fun hex_string :: "nat \<Rightarrow> string" where
  "hex_string n = (if n < 16 then [hex_char n] else hex_string (n div 16) @ [hex_char (n mod 16)])"

declare hex_string.simps [simp del]

definition low32 :: "u64 \<Rightarrow> u32" where
  "low32 v = ucast v"

definition pad2 :: "string \<Rightarrow> string" where
  "pad2 s = replicate (2 - length s) CHR ''0'' @ s"

definition pointer_text :: "u64 \<Rightarrow> string" where
  "pointer_text v = (if v = 0 then ''(nil)'' else ''0x'' @ hex_string (unat v))"

text \<open>One conversion: the characters after \<open>%\<close> that belong to it, and what it does to its argument.\<close>

definition conversions :: "(string \<times> (fmt_arg \<Rightarrow> string option)) list" where
  "conversions = [
     (''s'', \<lambda>a. case a of Str s \<Rightarrow> Some s | Num _ \<Rightarrow> None),
     (''d'', \<lambda>a. case a of Num v \<Rightarrow> Some (int_string (sint (low32 v))) | Str _ \<Rightarrow> None),
     (''u'', \<lambda>a. case a of Num v \<Rightarrow> Some (nat_string (unat (low32 v))) | Str _ \<Rightarrow> None),
     (''lu'', \<lambda>a. case a of Num v \<Rightarrow> Some (nat_string (unat v)) | Str _ \<Rightarrow> None),
     (''x'', \<lambda>a. case a of Num v \<Rightarrow> Some (hex_string (unat (low32 v))) | Str _ \<Rightarrow> None),
     (''02x'', \<lambda>a. case a of Num v \<Rightarrow> Some (pad2 (hex_string (unat (low32 v)))) | Str _ \<Rightarrow> None),
     (''p'', \<lambda>a. case a of Num v \<Rightarrow> Some (pointer_text v) | Str _ \<Rightarrow> None)]"

fun make_string :: "string \<Rightarrow> fmt_arg list \<Rightarrow> string option" where
  "make_string [] args = Some []"
| "make_string (c # cs) args =
     (if c \<noteq> CHR ''%'' then map_option (Cons c) (make_string cs args)
      else case (find (\<lambda>k. take (length (fst k)) cs = fst k) conversions, args) of
          (Some k, a # args') \<Rightarrow>
            (case (snd k a, make_string (drop (length (fst k)) cs) args') of (Some s, Some t) \<Rightarrow> Some (s @ t) | _ \<Rightarrow> None)
        | _ \<Rightarrow> None)"

section \<open>The tracer\<close>

record Tracer =
  tracing_function :: string
  tracing_file :: string
  tracing_line :: u64
  tracing_info :: string
  tracing_tid :: u64

text \<open>\<open>s.substr(s.find_last_of("/") + 1)\<close>; without a slash the position wraps around to 0.\<close>

definition base_name :: "string \<Rightarrow> string" where
  "base_name s = rev (takeWhile (\<lambda>c. c \<noteq> CHR ''/'') (rev s))"

definition trace_text :: "string \<Rightarrow> Tracer \<Rightarrow> string" where
  "trace_text dir t = ''[TRACING-'' @ dir @ '']: ['' @ tracing_function t @ '' @ '' @ base_name (tracing_file t) @ '':'' @
     nat_string (unat (tracing_line t)) @ '']    '' @ tracing_info t"

text \<open>The log of a thread: function, file, line, information, and 1 for a call, -1 for its end. The order of the
  threads in the unordered map is that of the list.\<close>

type_synonym InfoTuple = "string \<times> string \<times> u64 \<times> string \<times> int"
type_synonym LogStructure = "(u64 \<times> InfoTuple list) list"

definition entry_text :: "u64 \<Rightarrow> InfoTuple \<Rightarrow> string" where
  "entry_text tid e = (case e of (func_name, file_name, lines, info, action) \<Rightarrow>
     ''[Tracing_'' @ (if action = 1 then ''in]['' else ''out]['') @ ''tid='' @ nat_string (unat tid) @ '']: '' @
     ''Source '' @ [CHR 34] @ file_name @ [CHR 34] @ '', line '' @ nat_string (unat lines) @ '', in '' @ func_name @
     '', info = '' @ info @ [CHR 10])"

definition to_string :: "LogStructure \<Rightarrow> string" where
  "to_string log = concat (map (\<lambda>(tid, es). concat (map (entry_text tid) es)) log)"

text \<open>What the tracers write to: the log of the program and the lines given to \<open>VLOG\<close>. The \<open>#ifndef LOG_TERMINAL\<close> of
  the source is the argument \<open>LOG_TERMINAL\<close>; the header defines it.\<close>

record trace_state =
  struct_log :: LogStructure
  vlog :: "string list"

text \<open>\<open>log_map_[tid].push_back(e)\<close>; \<open>operator[]\<close> enters an empty log for a new thread.\<close>

fun push_entry :: "u64 \<Rightarrow> InfoTuple \<Rightarrow> LogStructure \<Rightarrow> LogStructure" where
  "push_entry tid e [] = [(tid, [e])]"
| "push_entry tid e ((t, es) # log) = (if t = tid then (t, es @ [e]) # log else (t, es) # push_entry tid e log)"

definition tracer_entry :: "Tracer \<Rightarrow> int \<Rightarrow> InfoTuple" where
  "tracer_entry t action = (tracing_function t, tracing_file t, tracing_line t, tracing_info t, action)"

definition get_tracer_instance :: "bool \<Rightarrow> string \<Rightarrow> string \<Rightarrow> u64 \<Rightarrow> string \<Rightarrow> u64 \<Rightarrow> trace_state \<Rightarrow> Tracer \<times> trace_state" where
  "get_tracer_instance LOG_TERMINAL func src_file line info thread_id s =
     (let t = \<lparr>tracing_function = func, tracing_file = src_file, tracing_line = line, tracing_info = info, tracing_tid = thread_id\<rparr> in
      (t, if \<not> LOG_TERMINAL then s\<lparr>struct_log := push_entry thread_id (tracer_entry t 1) (struct_log s)\<rparr>
          else s\<lparr>vlog := vlog s @ [trace_text ''IN'' t]\<rparr>))"

definition delete_Tracer :: "bool \<Rightarrow> Tracer \<Rightarrow> trace_state \<Rightarrow> trace_state" where
  "delete_Tracer LOG_TERMINAL t s =
     (if \<not> LOG_TERMINAL then s\<lparr>struct_log := push_entry (tracing_tid t) (tracer_entry t (- 1)) (struct_log s)\<rparr>
      else s\<lparr>vlog := vlog s @ [trace_text ''OUT'' t]\<rparr>)"

text \<open>A traced function (name, file, line, information) and the traced functions it calls, in order. The
  tracer is a local variable: it is built at the start of the body and destroyed at its end.\<close>

datatype traced = Traced string string u64 string "traced list"

fun run_traced :: "bool \<Rightarrow> u64 \<Rightarrow> traced \<Rightarrow> trace_state \<Rightarrow> trace_state" where
  "run_traced LOG_TERMINAL tid (Traced f src line info calls) s =
     (case get_tracer_instance LOG_TERMINAL f src line info tid s of
        (t, s) \<Rightarrow> delete_Tracer LOG_TERMINAL t (fold (run_traced LOG_TERMINAL tid) calls s))"

section \<open>Lemmas\<close>

text \<open>The level is set once: a second registration changes nothing.\<close>

lemma set_glog_once: "set_glog ok s = Ret r t \<Longrightarrow> registerted (fst t) \<and> set_glog ok t = Ret 1 t"
  by (auto simp: set_glog_def setenv_def outcome_simps Let_def split: if_splits option.splits)

text \<open>What glog reads is what the program was given, and the level printed is its number.\<close>

lemma set_glog_level:
  assumes "set_glog ok (r, env) = Ret 0 (r', env')" "env ''RCL_MAX_VLOG_LEVEL'' = Some v"
  shows "env' ''GLOG_v'' = Some v \<and> env' ''GLOG_logtostderr'' = Some ''1'' \<and> log_level r' = c_atoi v \<and>
    (\<forall>x. x \<notin> {''GLOG_v'', ''GLOG_logtostderr'', ''GLOG_colorlogtostderr''} \<longrightarrow> env' x = env x)"
  using assms by (auto simp: set_glog_def setenv_def outcome_simps Let_def split: if_splits)

lemma base_name_suffix: "\<exists>dir. s = dir @ base_name s \<and> (dir = [] \<or> last dir = CHR ''/'') \<and> CHR ''/'' \<notin> set (base_name s)"
proof -
  let ?p = "\<lambda>c. c \<noteq> CHR ''/''"
  have "rev s = takeWhile ?p (rev s) @ dropWhile ?p (rev s)" by simp
  then have "s = rev (dropWhile ?p (rev s)) @ base_name s" unfolding base_name_def by (metis rev_append rev_rev_ident)
  moreover have "dropWhile ?p (rev s) = [] \<or> hd (dropWhile ?p (rev s)) = CHR ''/''" using hd_dropWhile [of ?p "rev s"] by auto
  then have "rev (dropWhile ?p (rev s)) = [] \<or> last (rev (dropWhile ?p (rev s))) = CHR ''/''" by (auto simp: last_rev)
  moreover have "CHR ''/'' \<notin> set (base_name s)" unfolding base_name_def by (auto dest: set_takeWhileD)
  ultimately show ?thesis by blast
qed

text \<open>What precedes the first conversion is copied, and a conversion prints its argument.\<close>

lemma make_string_text: "CHR ''%'' \<notin> set s \<Longrightarrow> make_string (s @ t) args = map_option ((@) s) (make_string t args)"
proof (induction s)
  case Nil
  show ?case by (cases "make_string t args") auto
next
  case (Cons c s)
  then show ?case by (cases "make_string t args") auto
qed

lemma make_string_plain: "CHR ''%'' \<notin> set s \<Longrightarrow> make_string s args = Some s"
  using make_string_text [of s "[]" args] by simp

lemma make_string_conversion:
  assumes "find (\<lambda>k. take (length (fst k)) cs = fst k) conversions = Some k" "snd k a = Some s"
  shows "make_string (CHR ''%'' # cs) (a # args) = map_option ((@) s) (make_string (drop (length (fst k)) cs) args)"
  using assms by (auto split: option.splits)

text \<open>\<open>%u\<close> shows a 64-bit size only up to 32 bits.\<close>

lemma make_string_u: "make_string ''%u'' [Num v] = Some (nat_string (unat v mod 2 ^ 32))"
  by (simp add: conversions_def low32_def unsigned_ucast_eq take_bit_eq_mod)

text \<open>The log of a thread.\<close>

definition thread_log :: "LogStructure \<Rightarrow> u64 \<Rightarrow> InfoTuple list" where
  "thread_log log tid = (case map_of log tid of None \<Rightarrow> [] | Some es \<Rightarrow> es)"

lemma thread_log_push: "thread_log (push_entry tid e log) t = thread_log log t @ (if t = tid then [e] else [])"
  by (induction tid e log rule: push_entry.induct) (auto simp: thread_log_def)

text \<open>The action of an entry, and logs that nest: a sequence of calls, each closed by the entry of the same function.\<close>

fun action :: "InfoTuple \<Rightarrow> int" where
  "action (f, src, line, info, a) = a"

inductive nested :: "InfoTuple list \<Rightarrow> bool" where
  nested_Nil: "nested []"
| nested_call: "nested es \<Longrightarrow> nested es' \<Longrightarrow> nested ((f, src, line, info, 1) # es @ (f, src, line, info, - 1) # es')"

lemma nested_append: "nested xs \<Longrightarrow> nested ys \<Longrightarrow> nested (xs @ ys)"
  by (induction rule: nested.induct) (auto intro: nested.intros)

text \<open>As many calls as ends, and at no moment more ends than calls.\<close>

lemma nested_balanced:
  assumes "nested es"
  shows "sum_list (map action es) = 0 \<and> (\<forall>n. 0 \<le> sum_list (map action (take n es)))"
  using assms
proof induction
  case (nested_call es es' f src line info)
  have "0 \<le> sum_list (map action (take n ((f, src, line, info, 1) # es @ (f, src, line, info, - 1) # es')))" for n
    using nested_call.IH by (cases "n - 1 \<le> length es") (auto simp: take_Cons' take_append)
  with nested_call.IH show ?case by simp
qed simp

text \<open>A traced function adds a nested piece to the log of its thread and nothing to the others.\<close>

abbreviation traced_as :: "u64 \<Rightarrow> trace_state \<Rightarrow> trace_state \<Rightarrow> InfoTuple list \<Rightarrow> bool" where
  "traced_as tid s s' es \<equiv> nested es \<and>
     (\<forall>t. thread_log (struct_log s') t = thread_log (struct_log s) t @ (if t = tid then es else []))"

lemma run_traced_nested: "\<exists>es. traced_as tid s (run_traced False tid c s) es"
proof (induction c arbitrary: s)
  case (Traced f src line info calls)
  have "\<exists>es. traced_as tid s (fold (run_traced False tid) cs s) es" if "set cs \<subseteq> set calls" for cs s
    using that
  proof (induction cs arbitrary: s)
    case (Cons c cs)
    obtain es where es: "traced_as tid s (run_traced False tid c s) es"
      using Traced.IH [of c s] Cons.prems by auto
    obtain es' where "traced_as tid (run_traced False tid c s) (fold (run_traced False tid) cs (run_traced False tid c s)) es'"
      using Cons.IH [of "run_traced False tid c s"] Cons.prems by auto
    with es show ?case by (intro exI [of _ "es @ es'"]) (auto intro: nested_append)
  qed (auto intro: nested.intros)
  then obtain es where es: "traced_as tid (snd (get_tracer_instance False f src line info tid s))
      (fold (run_traced False tid) calls (snd (get_tracer_instance False f src line info tid s))) es"
    by (meson subset_refl)
  then have "nested ((f, src, line, info, 1) # es @ [(f, src, line, info, - 1)])" by (auto intro: nested.intros)
  with es show ?case
    by (intro exI [of _ "(f, src, line, info, 1) # es @ [(f, src, line, info, - 1)]"])
      (auto simp: get_tracer_instance_def delete_Tracer_def tracer_entry_def thread_log_push Let_def)
qed

text \<open>With \<open>LOG_TERMINAL\<close>, as the header has it, no tracer is ever recorded, so \<open>to_string\<close> has nothing to print.\<close>

lemma run_traced_terminal: "struct_log (run_traced True tid c s) = struct_log s"
proof (induction c arbitrary: s)
  case (Traced f src line info calls)
  have "struct_log (fold (run_traced True tid) cs s) = struct_log s" if "set cs \<subseteq> set calls" for cs s
    using that by (induction cs arbitrary: s) (auto simp: Traced.IH)
  then show ?case by (simp add: get_tracer_instance_def delete_Tracer_def Let_def)
qed

lemma to_string_terminal:
  assumes "struct_log s = []"
  shows "to_string (struct_log (fold (run_traced True tid) cs s)) = ''''"
proof -
  have "struct_log (fold (run_traced True tid) cs s) = struct_log s"
    by (induction cs arbitrary: s) (simp_all add: run_traced_terminal)
  with assms show ?thesis by (simp add: to_string_def)
qed

end
