(* ===== verification/Buffer_Text.thy ===== *)
theory Buffer_Text
  imports Endpoint Logging
begin

text \<open>
  \<open>RDMABuffer::to_string\<close> and \<open>print_buffer_info\<close> of \<open>src/rdma_buffer.cc\<close>. They are here because the text names the channel of
  the buffer, whose identifier leads to its endpoint and session. \<open>addr\<close> gives the addresses of the objects a reference stands
  for. The only call of \<open>print_buffer_info\<close>, in \<open>src/rdma_session.cc\<close>, is commented out.
\<close>

section \<open>Definitions\<close>

definition format_text :: "string \<Rightarrow> fmt_arg list \<Rightarrow> 's \<Rightarrow> (string, 's) outcome" where
  "format_text fmt args s = deref (make_string fmt args) ''make_string'' s"

definition buffer_to_string :: "'w sys \<Rightarrow> (oref \<Rightarrow> u64) \<Rightarrow> oref \<Rightarrow> ('w, 'z) ep_world_scheme \<Rightarrow> (string, ('w, 'z) ep_world_scheme) outcome" where
  "buffer_to_string S addr this w =
     bindO (deref_buf this w) (\<lambda>b w.
     bindO (format_text ''Buffer Name: %s; Buffer Addr: %p; Buffer size: %u bytes''
       [Str (buffer_name b), Num (data_ptr b), Num (buffer_size b)] w) (\<lambda>t1 w.
     bindO (format_text ''; Register in Channel (%p) '' [Num (addr (owned_by_channel b))] w) (\<lambda>t2 w.
     bindO (if owned_by_channel b \<noteq> 0 then channel_info (owned_by_channel b) w else Ret '''' w) (\<lambda>t3 w.
     bindO (format_text ''; Register in NIC (%p) '' [Num (addr (buf_mr b))] w) (\<lambda>t4 w.
     bindO (if buf_mr b \<noteq> 0
       then format_text ''rkey=(0x%x), lkey=(0x%x) ''
         [Num (ucast (ibv_mr_rkey S (buf_mr b) (hw w))), Num (ucast (ibv_mr_lkey S (buf_mr b) (hw w)))] w
       else Ret '''' w) (\<lambda>t5 w.
     Ret (t1 @ t2 @ t3 @ t4 @ t5) w))))))"

definition print_buffer_info :: "'w sys \<Rightarrow> (oref \<Rightarrow> u64) \<Rightarrow> oref \<Rightarrow> ('w, 'z) ep_world_scheme \<Rightarrow> (string, ('w, 'z) ep_world_scheme) outcome" where
  "print_buffer_info S addr this w =
     bindO (buffer_to_string S addr this w) (\<lambda>my_info w.
     bindO (deref_buf this w) (\<lambda>b w.
     bindO (buffer_to_string S addr (base_buffer b) w) (\<lambda>base_info w.
     Ret (''Show the buffer info: '' @ my_info @ '' from '' @ base_info) w)))"

section \<open>Lemmas\<close>

text \<open>The formats fit their arguments, so each text is the one intended; the size is cut to 32 bits.\<close>

lemma buffer_formats [simp]:
  "format_text ''Buffer Name: %s; Buffer Addr: %p; Buffer size: %u bytes'' [Str n, Num a, Num k] s =
     Ret (''Buffer Name: '' @ n @ ''; Buffer Addr: '' @ pointer_text a @ ''; Buffer size: '' @ nat_string (unat (low32 k)) @ '' bytes'') s"
  "format_text ''; Register in Channel (%p) '' [Num a] s = Ret (''; Register in Channel ('' @ pointer_text a @ '') '') s"
  "format_text ''; Register in NIC (%p) '' [Num a] s = Ret (''; Register in NIC ('' @ pointer_text a @ '') '') s"
  "format_text ''rkey=(0x%x), lkey=(0x%x) '' [Num r, Num l] s =
     Ret (''rkey=(0x'' @ hex_string (unat (low32 r)) @ ''), lkey=(0x'' @ hex_string (unat (low32 l)) @ '') '') s"
  by (simp_all add: format_text_def conversions_def)

text \<open>A buffer that is on no channel has a text, which changes nothing.\<close>

lemma buffer_to_string_unregistered:
  assumes "buffers w this = Some b" "owned_by_channel b = 0" "buf_mr b = 0" "addr 0 = 0"
  shows "buffer_to_string S addr this w = Ret (''Buffer Name: '' @ buffer_name b @ ''; Buffer Addr: '' @ pointer_text (data_ptr b) @
    ''; Buffer size: '' @ nat_string (unat (low32 (buffer_size b))) @ '' bytes'' @ ''; Register in Channel ((nil)) ; Register in NIC ((nil)) '') w"
  using assms by (simp add: buffer_to_string_def deref_buf_def pointer_text_def)

text \<open>\<open>print_buffer_info\<close> follows \<open>base_buffer_\<close>, which a base buffer does not have.\<close>

lemma print_buffer_info_base:
  assumes "buffers w this = Some b" "base_buffer b = 0" "buffers w 0 = None"
  shows "\<not> returns (print_buffer_info S addr this w)"
proof
  assume "returns (print_buffer_info S addr this w)"
  then obtain t w1 where t: "buffer_to_string S addr this w = Ret t w1" "returns (bindO (deref_buf this w1) (\<lambda>b w.
     bindO (buffer_to_string S addr (base_buffer b) w) (\<lambda>base_info w.
     Ret (''Show the buffer info: '' @ t @ '' from '' @ base_info) w)))"
    by (auto simp: print_buffer_info_def returns_bindO_iff)
  have "w1 = w"
    using t(1) by (auto simp: buffer_to_string_def channel_info_def outcome_simps deref_buf_def dest: channel_get_id_same split: if_splits)
  with t(2) assms show False by (auto simp: buffer_to_string_def deref_buf_def returns_bindO_iff)
qed

end
