(* ===== verification/Spec2Isabelle.thy ===== *)
theory Spec2Isabelle
  imports Mesh_Service Benchmark Timer Time_Event Net_Tool Buffer_Text
begin

text \<open>
  \<^bold>\<open>The program.\<close> \<open>rdma_comm_core\<close> sets up RDMA connections between processes and moves data over
  them. A session (client or server) opens TCP connections to its peers; for each one it builds an
  endpoint, which owns a channel, which is an adapter with a queue pair on a shared device. The
  endpoints exchange their adapter data over TCP and take the queue pairs to the sending state. Then
  one thread per completion queue polls it and hands every completion to a callback. Applications
  allocate buffers, which are split into a ring of blocks, register them with a channel, and send,
  receive, read and write blocks.

  \<^bold>\<open>How it is modelled.\<close> A C++ function is a HOL function on the program state that yields an \<open>outcome\<close>
  (theory \<open>Prelude\<close>): \<open>Ret v w\<close> when it returns, \<open>Halt e w\<close> when the process stops there, with the reason
  (\<open>LOG(FATAL)\<close> and a failed \<open>CHECK\<close>, undefined behaviour such as the use of a dangling pointer,
  \<open>exit\<close>, or \<open>NoReturn\<close> when a loop has used up its fuel). Objects live in maps from references to
  records; reference 0 is \<open>nullptr\<close>. The state grows by record extension in the order in which the
  components call each other: \<open>sys_world\<close> (the platform and the memory), \<open>dev_world\<close>, \<open>buf_world\<close>,
  \<open>chan_world\<close>, \<open>ep_world\<close>. Integers keep their width where the code's arithmetic can wrap around. The verbs library and the
  POSIX calls are the fields of the record \<open>sys\<close>, an argument of every definition that needs them; a
  theorem states what it relies on as a hypothesis, and its witness runs on the \<open>loopback\<close> platform.

  \<^bold>\<open>The theories, in the order of their imports\<close> (paths under \<open>src/\<close>).
  \<^item> \<open>Prelude\<close>: outcomes, loops, \<open>std::map\<close> and \<open>std::unordered_map\<close> (locale \<open>registry\<close>), look-up tables that create on
    a miss (locale \<open>get_or_create\<close>), byte memory, byte order (\<open>include/rdma_base.h\<close>).
  \<^item> \<open>System_Interface\<close>: the record \<open>sys\<close>, the hypotheses on it (\<open>stream_socket\<close>: bytes arrive in order and a
    receive takes at least one; \<open>peer_closed\<close>; \<open>qp_machine\<close>: the state machine of a queue pair with the attributes each transition
    requires), and \<open>loopback\<close>.
  \<^item> \<open>Ip_Qos\<close> (\<open>include/util/ip_qos_helper.h\<close>) and \<open>Tcp_Connector\<close> (\<open>include/tcp_connector.h\<close>, \<open>src/tcp_connector.cc\<close>): socket
    options and the TCP exchange. On an open stream \<open>sock_sync_data\<close> delivers exactly the peer's bytes; after
    the peer has closed, its receive loops never end.
  \<^item> \<open>Device\<close> (\<open>include/rdma_device.h\<close>, \<open>src/rdma_device.cc\<close>): opening and closing a device, its ports, the system parameters, the tables of devices and of completion
    queues (two interpretations of \<open>get_or_create\<close>: one object per name and per key), the posting functions.
  \<^item> \<open>Buffer\<close> (\<open>include/rdma_buffer.h\<close>, \<open>src/rdma_buffer.cc\<close>): allocation and splitting, filling and clearing, the ring of
    blocks. The blocks partition the memory, and the ring refines a bounded queue (locale \<open>block_ring\<close>); what
    happens beyond its bounds is stated too.
  \<^item> \<open>Adapter\<close> (\<open>include/rdma_adapter.h\<close>, \<open>src/rdma_adapter.cc\<close>): resources, the transitions to RTS and back, the wire image of the
    adapter data, and the four posting operations, which share the contract of locale \<open>post_op\<close>. A peer's identifier
    without a terminating NUL is undefined behaviour.
  \<^item> \<open>Channel\<close> (\<open>include/rdma_channel.h\<close>, \<open>src/rdma_channel.cc\<close>): registration of buffers, the peer's buffers, the destructors of
    buffers and channels.
  \<^item> \<open>Command_Line\<close> and \<open>Configuration\<close> (\<open>include/rdma_config.h\<close>, \<open>include/config.h\<close>): \<open>getopt_long\<close> on the option tables of the
    program, the option loop and the consistency check on the real \<open>argv\<close>, the texts of \<open>usage\<close> and \<open>print_config\<close>. What is written
    in any of the accepted forms is read back; an accepted command line gives a consistent configuration.
  \<^item> \<open>Endpoint\<close> (\<open>include/rdma_endpoint.h\<close>, \<open>src/rdma_endpoint.cc\<close>): identifiers, the exchange of adapter data, \<open>connecting\<close>, \<open>reset\<close>.
  \<^item> \<open>Session\<close>, \<open>Session_Setup\<close>, \<open>Default_Handlers\<close> (\<open>include/rdma_session.h\<close>, \<open>src/rdma_session.cc\<close>, \<open>src/rdma_client_sess.cc\<close>,
    \<open>src/rdma_server_sess.cc\<close>, \<open>example/ping_pong_test.cc\<close>): the grouping of channels by completion queue, the poll loop, the set-up
    of clients and servers, and the built-in connection test.
  \<^item> \<open>Block_Rings\<close>: the laws of rings on a channel that the two programs below share.
  \<^item> \<open>Mesh_Service\<close> (\<open>example/mesh_comm_service.cc\<close>): the full-mesh service. \<open>Benchmark\<close> (\<open>example/lat_bw_benchmark.cc\<close>): the
    latency and bandwidth tests; the three operations measured share the locale \<open>bench_op\<close>.
  \<^item> \<open>Timer\<close> (\<open>include/util/time_record.h\<close>), \<open>Time_Event\<close> (\<open>include/util/time_event.h\<close>), \<open>Net_Tool\<close> (\<open>include/util/net_util.h\<close>),
    \<open>Logging\<close> (\<open>include/util/logging.h\<close>): the utilities. The timer refines a stop watch; the timer thread keeps its
    grid; no wake-up of an event is lost, whatever the order of its threads (the relation \<open>event_step\<close> and locale
    \<open>event_laws\<close>, interpreted on both kinds of event); the tracer's log nests; \<open>make_string\<close> is modelled for the conversions the sources use.
  \<^item> \<open>Buffer_Text\<close>: the texts of \<open>RDMABuffer::to_string\<close> and \<open>print_buffer_info\<close> (\<open>src/rdma_buffer.cc\<close>).
  \<^item> this theory: the properties of two ends of a connection, and of all the nodes of a mesh together, from
    their network interfaces and command lines (\<open>start_node\<close>) to the connections they open.

  \<^bold>\<open>Loops and fuel.\<close> A loop over data is structural recursion. The loops that may run for ever carry
  fuel: the receive loops of \<open>Tcp_Connector\<close> (each pass on an open stream takes at least one byte, so the number of bytes
  asked for is enough; a connection needs the 155 bytes of an \<open>AdapterInfo\<close>), the enumeration of ports in
  \<open>Device\<close> (an 8-bit counter: 256 passes show that it never ends), and the waits for a completion in
  \<open>Benchmark\<close> (on a device of which at most \<open>d\<close> polls in a row find nothing, more than \<open>d\<close> passes are enough). The accept and connect loops of \<open>Session_Setup\<close> have
  the bounds of the code: the size of the cluster (at least one connection) and 3001 attempts.
  The endless poll loops (\<open>Session.poll_rounds\<close>, \<open>Mesh_Service.mesh_rounds\<close>) are cut after a number of rounds, and the theorems hold for every number.

  \<^bold>\<open>Hypotheses on the platform\<close>, beyond those of \<open>System_Interface\<close>: that requests to post are accepted
  (\<open>posts_accepted\<close>), that a posted request completes (\<open>completing\<close>, \<open>succeeded\<close>), and that calls
  on sockets and on queue pairs leave each other's state alone (\<open>socket_keeps\<close>, \<open>qp_keeps\<close>). Each has a witness on a concrete platform.

  \<^bold>\<open>Threads.\<close> A section under a mutex is one step. The poll threads of a session share no channel
  (shown in \<open>Session\<close>), and each is modelled alone; their accesses to the shared device go through its
  locks. The threads on an event are interleaved in every order. Start-up order of the processes of a mesh is not modelled: each end is described by
  what its stream carries.

  \<^bold>\<open>Not modelled.\<close> glog and the \<open>VLOG\<close> lines (the texts the program builds itself are), and the times the benchmark
  measures and prints. Of the GNU C library: \<open>getopt_long\<close> is modelled without \<open>POSIXLY_CORRECT\<close>, \<open>vasprintf\<close> for the conversions in
  use and without a failing allocation. The constructors and destructors of the
  sessions that only write a log line. The unsynchronised access to \<open>m_events\<close> in \<open>TimeEvent\<close>, a data race: the model runs \<open>set_timeout\<close> and
  \<open>set_interval\<close> between two turns. Getters are the record fields. The build files hold no program logic.
\<close>

section \<open>The two ends of a connection\<close>

text \<open>One end before \<open>connecting\<close>: its channel can be loaded (\<open>w1\<close> is the world then, \<open>i\<close> the data it announces),
  and nothing has been sent yet.\<close>

definition end_loaded :: "'w sys \<Rightarrow> TCPConnector \<Rightarrow> ('w \<Rightarrow> byte list) \<Rightarrow> ('w \<Rightarrow> ibv_qp_state) \<Rightarrow> oref \<Rightarrow> oref \<Rightarrow>
    'w ep_world \<Rightarrow> AdapterInfo \<Rightarrow> 'w ep_world \<Rightarrow> RDMAChannel \<Rightarrow> bool" where
  "end_loaded S c tx st this ch w i w1 a \<longleftrightarrow>
     (\<exists>e info. endpoints w this = Some e \<and> pre_connector e = Some c \<and> adapter_info ch w = Ret info w \<and> loading S info ch w = Ret i w1) \<and>
     channels w1 ch = Some a \<and> i = self_info a \<and> devices w1 (rdma_device a) \<noteq> None \<and> st (hw w1) = IBV_QPS_RESET \<and> tx (hw w1) = []"

lemma end_connects:
  assumes w: "end_loaded S c tx st this ch w i w1 a" and env: "ready_to_connect S c rx tx st valid peer a"
    and rx: "rx (hw w1) = AdapterInfo_bytes peer @ string_bytes ''Q''" and fuel: "sizeof_AdapterInfo \<le> fuel"
  shows "\<exists>t a'. connect_channel S fuel this ch w = Ret () t \<and> channels t ch = Some a' \<and> remote_info a' = peer \<and>
    st (hw t) = IBV_QPS_RTS \<and> rx (hw t) = [] \<and> tx (hw t) = AdapterInfo_bytes i @ string_bytes ''Q''"
proof -
  from w obtain e info where e: "endpoints w this = Some e" "pre_connector e = Some c" and load: "adapter_info ch w = Ret info w" "loading S info ch w = Ret i w1"
    and a: "channels w1 ch = Some a" "i = self_info a" "devices w1 (rdma_device a) \<noteq> None" "st (hw w1) = IBV_QPS_RESET" "tx (hw w1) = []"
    by (auto simp: end_loaded_def)
  have e1: "endpoints w1 this = Some e" using loading_endpoints [OF load(2)] e(1) by simp
  have q: "rx (hw w1) = AdapterInfo_bytes peer @ char_byte CHR ''Q'' # []" using rx by (simp add: string_bytes_def)
  from exchange_and_connect [OF e1 e(2) a(1,3) env q fuel a(4)] show ?thesis
    unfolding connect_channel_def using a(2,5) by (auto simp: load)
qed

text \<open>Property C2. The two ends of a connection agree. When each end's stream carries what the other end announces, both calls of
  \<open>connecting\<close> return; each end then holds exactly the data of the other (queue pair number, lid, gid), both
  queue pairs are ready to send, and each end has sent exactly the bytes the other has read, so nothing is
  left on the wire.\<close>

theorem connected_pair:
  fixes SA :: "'a sys" and SB :: "'b sys"
  assumes A: "end_loaded SA cA txA stA epA chA wA iA wA1 aA" "ready_to_connect SA cA rxA txA stA okA iB aA"
      "rxA (hw wA1) = AdapterInfo_bytes iB @ string_bytes ''Q''"
    and B: "end_loaded SB cB txB stB epB chB wB iB wB1 aB" "ready_to_connect SB cB rxB txB stB okB iA aB"
      "rxB (hw wB1) = AdapterInfo_bytes iA @ string_bytes ''Q''"
    and fuel: "sizeof_AdapterInfo \<le> fuel"
  shows "\<exists>tA tB a b. connect_channel SA fuel epA chA wA = Ret () tA \<and> connect_channel SB fuel epB chB wB = Ret () tB \<and>
    channels tA chA = Some a \<and> channels tB chB = Some b \<and> remote_info a = self_info aB \<and> remote_info b = self_info aA \<and>
    stA (hw tA) = IBV_QPS_RTS \<and> stB (hw tB) = IBV_QPS_RTS \<and>
    txA (hw tA) = rxB (hw wB1) \<and> txB (hw tB) = rxA (hw wA1) \<and> rxA (hw tA) = [] \<and> rxB (hw tB) = []"
proof -
  have "iA = self_info aA" "iB = self_info aB" using A(1) B(1) by (auto simp: end_loaded_def)
  with end_connects [OF A fuel] end_connects [OF B fuel] A(3) B(3) show ?thesis by metis
qed

text \<open>An end whose stream carries the data it announces itself: two copies of it are connected to each other.
  What it announces does not depend on the stream \<open>r\<close>; the unique id is the text
  \<open>RDMAAdapter@(DataChannel)[12.12.12.111:7-->12.12.12.113:9]@@\<close>.\<close>

definition twin_info :: AdapterInfo where
  "twin_info = default_AdapterInfo\<lparr>ai_gid := replicate 16 3, ai_qp_num := 103, ai_lid := 0, ai_link_layer := IBV_LINK_LAYER_ETHERNET,
     ai_active_mtu := 3, ai_unique_id := [82, 68, 77, 65, 65, 100, 97, 112, 116, 101, 114, 64, 40, 68, 97, 116, 97, 67, 104, 97, 110, 110, 101, 108, 41, 91, 49, 50, 46, 49,
       50, 46, 49, 50, 46, 49, 49, 49, 58, 55, 45, 45, 62, 49, 50, 46, 49, 50, 46, 49, 50, 46, 49, 49, 51, 58, 57, 93, 64, 64] @ replicate 68 0\<rparr>"

definition twin_end :: "byte list \<Rightarrow> lb_state ep_world" where
  "twin_end r = ep_world0\<lparr>hw := lb_init\<lparr>lb_rx := r\<rparr>\<rparr>"

abbreviation twin_world :: "lb_state ep_world" where
  "twin_world \<equiv> twin_end (AdapterInfo_bytes twin_info @ string_bytes ''Q'')"

lemma twin_info_wf: "wf_AdapterInfo twin_info"
  by (simp add: wf_AdapterInfo_def twin_info_def default_AdapterInfo_def)

lemma twin_announces: "\<exists>info. adapter_info 3 (twin_end r) = Ret info (twin_end r)"
proof -
  have "returns (adapter_info 3 (twin_end r))" by code_simp
  then show ?thesis using adapter_info_same by (metis returnsE)
qed

lemma twin_loads:
  "case loading loopback (val_of (adapter_info 3 (twin_end r))) 3 (twin_end r) of Halt _ _ \<Rightarrow> False
   | Ret i w \<Rightarrow> lb_qp (hw w) = IBV_QPS_RESET \<and> lb_tx (hw w) = [] \<and> i = twin_info \<and> lb_rx (hw w) = r \<and>
       (case channels w 3 of None \<Rightarrow> False | Some a \<Rightarrow> peer_acceptable a twin_info)"
  by (code_simp; simp)

theorem connected_pair_witness:
  "\<exists>tA tB a b. connect_channel loopback 155 2 3 twin_world = Ret () tA \<and> connect_channel loopback 155 2 3 twin_world = Ret () tB \<and>
     channels tA 3 = Some a \<and> channels tB 3 = Some b \<and> remote_info a = twin_info \<and> remote_info b = twin_info \<and>
     lb_qp (hw tA) = IBV_QPS_RTS \<and> lb_rx (hw tB) = []"
proof -
  obtain info where info: "adapter_info 3 twin_world = Ret info twin_world" using twin_announces by blast
  with twin_loads [of "AdapterInfo_bytes twin_info @ string_bytes ''Q''"]
  obtain w1 where load: "loading loopback info 3 twin_world = Ret twin_info w1"
    and h: "lb_qp (hw w1) = IBV_QPS_RESET" "lb_tx (hw w1) = []" "lb_rx (hw w1) = AdapterInfo_bytes twin_info @ string_bytes ''Q''"
    and ok: "case channels w1 3 of None \<Rightarrow> False | Some a \<Rightarrow> peer_acceptable a twin_info"
    by (auto split: outcome.splits)
  have "\<exists>a. channels twin_world 3 = Some a \<and> \<not> resource_is_allocated a"
    by (simp add: twin_end_def ep_world0_def RDMAChannel_init_def)
  with loading_loaded [OF load] obtain a where a: "channels w1 3 = Some a" "twin_info = self_info a" "ad_qp a \<noteq> 0"
      "devices w1 (rdma_device a) \<noteq> None"
    by (auto simp: loaded_def)
  have env: "ready_to_connect loopback ep_connector lb_rx lb_tx lb_qp (\<lambda>_. True) twin_info a"
    using a ok twin_info_wf by (simp add: ready_to_connect_def stream_socket_loopback socket_keeps_loopback qp_keeps_loopback
        qp_machine_loopback ep_connector_def)
  have "endpoints twin_world 2 = Some \<lparr>ep_id = ''e'', pre_connector = Some ep_connector, rdma_channel_mgr = [3], registered_session = 1\<rparr>"
    by (simp add: twin_end_def ep_world0_def)
  with info load a h have "end_loaded loopback ep_connector lb_tx lb_qp 2 3 twin_world twin_info w1 a" by (auto simp: end_loaded_def)
  from connected_pair [OF this env h(3) this env h(3), of 155] a(2) show ?thesis by auto
qed

section \<open>The mesh\<close>

text \<open>\<open>connects_to b s\<close>: the service \<open>s\<close> is a client whose session connects to \<open>b\<close>.\<close>

primrec connects_to :: "string \<Rightarrow> mesh_service \<Rightarrow> bool" where
  "connects_to b (Server_service conf) = False"
| "connects_to b (Client_service conf server_ip) = (master_ip (client_config conf server_ip) = b)"

lemma connects_to_clients: "length (filter (connects_to b) (map (Client_service c) ips)) = count_list ips b"
  by (induction ips) (simp_all add: client_config_def)

lemma count_list_distinct: "distinct xs \<Longrightarrow> count_list xs x = (if x \<in> set xs then 1 else 0)"
  by (induction xs) auto

lemma sum_others: "finite A \<Longrightarrow> b \<in> A \<Longrightarrow> (\<Sum>a \<in> A. if a = b then 0 else 1) = card (A - {b})"
  by (subst sum.remove [of A b]) (simp_all cong: sum.cong_simp)

text \<open>What \<open>main\<close> starts on node \<open>a\<close> for the command line \<open>-u first rest\<close>.\<close>

lemma mesh_main_cluster:
  assumes "\<forall>n \<in> set rest. \<not> (\<exists>s. n = CHR ''-'' # s)"
  shows "\<exists>c d. mesh_main a (prog # ''-u'' # first # rest) = Ret (Server_service c # map (Client_service c) (cluster c)) d \<and>
    cluster c = sort (filter (\<lambda>s. s \<noteq> a) (first # rest))"
proof -
  have all: "cluster_args rest = rest"
    unfolding cluster_args_def using assms by (subst takeWhile_eq_all_conv) (auto split: list.splits)
  let ?d = "fold (add_to_cluster a) (first # rest) default_Config"
  have cl: "cluster ?d = sort (filter (\<lambda>s. s \<noteq> a) (first # rest))"
    using add_all_cluster [OF config_inv_default, of a "first # rest"] by (simp only: default_Config_def) simp
  have "num_senders ?d = 0" "\<not> single_recv ?d" "all_reduce ?d = UNKNOWN_ALLREDUCE"
    unfolding add_all_rest by (simp_all add: default_Config_def)
  then have "conflict_check a ?d = Ret () (if cluster ?d = [] then ?d else ?d\<lparr>num_senders := int (length (cluster ?d))\<rparr>)"
    by (simp add: conflict_check_def Let_def del: fold.simps)
  then have "\<exists>d. parse_args a (prog # ''-u'' # first # rest) default_Config = Ret 0 d \<and> cluster d = cluster ?d"
    by (simp add: parse_args_def getopt_events_cluster [OF all] parse_opt_def all)
  with cl show ?thesis by (fastforce simp: mesh_main_def Let_def Config.truncate_def)
qed

text \<open>How many connections a new server of the mesh takes.\<close>

lemma server_service_connections:
  assumes new: "ServerTower_new (server_config conf) w = Ret (this, conf') w1" and init: "server_init_session S fuel this w1 = Ret () t"
  shows "\<exists>s. sessions t this = Some s \<and> is_connected s \<and> length (end_point_mgr s) = max 1 (length (cluster conf))"
proof -
  have w1: "sessions w1 this = Some \<lparr>work_env = server_config conf, end_point_mgr = [], is_connected = False\<rparr>"
    using new by (auto simp: ServerTower_new_def RDMASession_new_def set_sess_def Let_def)
  then have "conn_inv w1 this" by (simp add: conn_inv_iff)
  from server_init_session_grows [OF init w1 this] show ?thesis by (auto simp: server_config_def)
qed

lemma length_others: "distinct xs \<Longrightarrow> length (filter (\<lambda>s. s \<noteq> b) xs) = card (set xs - {b})"
  by (subst distinct_card [symmetric]) (auto intro: arg_cong [of _ _ card])

text \<open>The mesh, with the nodes named by their addresses.\<close>

lemma full_mesh:
  assumes dist: "distinct (first # rest)" and two: "rest \<noteq> []" and dash: "\<forall>n \<in> set rest. \<not> (\<exists>s. n = CHR ''-'' # s)"
  shows "\<exists>services.
    (\<forall>a \<in> set (first # rest). \<exists>d. mesh_main a (prog # ''-u'' # first # rest) = Ret (services a) d) \<and>
    (\<forall>a \<in> set (first # rest). \<forall>b \<in> set (first # rest). length (filter (connects_to b) (services a)) = (if a = b then 0 else 1)) \<and>
    (\<forall>b \<in> set (first # rest). \<exists>conf. hd (services b) = Server_service conf \<and>
      (\<forall>(S :: 'w sys) fuel (w :: ('w, 'z) ep_world_scheme) this conf' w1 t. ServerTower_new (server_config conf) w = Ret (this, conf') w1 \<longrightarrow>
         server_init_session S fuel this w1 = Ret () t \<longrightarrow>
         (\<exists>s. sessions t this = Some s \<and> is_connected s \<and>
            length (end_point_mgr s) = (\<Sum>a \<in> set (first # rest). length (filter (connects_to b) (services a))))))"
proof -
  let ?N = "first # rest"
  from mesh_main_cluster [OF dash, of _ prog first] obtain C D where
    run: "\<And>a. mesh_main a (prog # ''-u'' # first # rest) = Ret (Server_service (C a) # map (Client_service (C a)) (cluster (C a))) (D a)"
    and cl: "\<And>a. cluster (C a) = sort (filter (\<lambda>s. s \<noteq> a) ?N)" by metis
  define services where "services a = Server_service (C a) # map (Client_service (C a)) (cluster (C a))" for a
  have one: "length (filter (connects_to b) (services a)) = (if a = b then 0 else 1)" if "b \<in> set ?N" for a b
  proof -
    have "distinct (cluster (C a))" using dist unfolding cl by (simp only: distinct_sort distinct_filter)
    moreover have "b \<in> set (cluster (C a)) \<longleftrightarrow> a \<noteq> b" using that unfolding cl by auto
    ultimately show ?thesis unfolding services_def by (simp only: filter.simps connects_to.simps if_False connects_to_clients count_list_distinct) simp
  qed
  have srv: "\<exists>s. sessions t this = Some s \<and> is_connected s \<and>
      length (end_point_mgr s) = (\<Sum>a \<in> set ?N. length (filter (connects_to b) (services a)))"
    if b: "b \<in> set ?N" and new: "ServerTower_new (server_config (C b)) w = Ret (this, conf') w1"
      and init: "server_init_session S fuel this w1 = Ret () t" for b and S :: "'w sys" and fuel and w :: "('w, 'z) ep_world_scheme" and this conf' w1 t
  proof -
    from server_service_connections [OF new init] obtain s where
      s: "sessions t this = Some s" "is_connected s" "length (end_point_mgr s) = max 1 (length (cluster (C b)))" by blast
    have others: "length (cluster (C b)) = card (set ?N - {b})"
      unfolding cl length_sort by (rule length_others [OF dist])
    have "2 \<le> card (set ?N)" using two dist by (cases rest) (auto simp: distinct_card)
    with b have pos: "1 \<le> card (set ?N - {b})" by (simp only: card_Diff_singleton)
    have "(\<Sum>a \<in> set ?N. length (filter (connects_to b) (services a))) = (\<Sum>a \<in> set ?N. if a = b then 0 else 1)"
      using b by (intro sum.cong refl one)
    also have "\<dots> = card (set ?N - {b})" by (rule sum_others) (use b in simp_all)
    finally show ?thesis using s others pos by simp
  qed
  have "hd (services b) = Server_service (C b)" for b by (simp add: services_def)
  then show ?thesis using run [folded services_def] one srv by (intro exI [of _ services] conjI ballI) blast+
qed

section \<open>The mesh from its interfaces\<close>

text \<open>The node with host number \<open>k\<close> in the network of the program: its address, the interfaces that give it this address, and
  its program, which looks up the address among the interfaces.\<close>

definition host :: "nat \<Rightarrow> string" where
  "host k = dotted 12 12 12 k"

definition has_host :: "nat \<Rightarrow> ifaddr list \<Rightarrow> bool" where
  "has_host k ifs \<longleftrightarrow> k < 256 \<and> net_addrs 12 12 12 ifs \<noteq> [] \<and> last (net_addrs 12 12 12 ifs) = ipv4 12 12 12 k"

definition start_node :: "ifaddr list \<Rightarrow> string list \<Rightarrow> (mesh_service list, Derived_Config) outcome" where
  "start_node ifs argv = bindO (deref (get_ip ifs ''12.12.12.111'' 24) ''get_ip'' default_Config) (\<lambda>ip _. mesh_main ip argv)"

lemma start_node_host:
  assumes "has_host k ifs" shows "start_node ifs argv = mesh_main (host k) argv"
proof -
  have "dotted 12 12 12 111 = ''12.12.12.111''" by code_simp
  then have "get_ip ifs ''12.12.12.111'' 24 = Some (host k)"
    using get_ip_own [of 12 12 12 111 ifs] assms by (simp add: has_host_def host_def inet_ntoa_ipv4)
  then show ?thesis by (simp add: start_node_def)
qed

lemma host_inj: "inj host"
proof (rule injI)
  fix j k assume "host j = host k"
  then have "nat_string j = nat_string k" by (simp add: host_def dotted_net)
  then show "j = k" by (rule nat_string_inj)
qed

lemma host_no_dash: "\<not> (\<exists>s. host k = CHR ''-'' # s)"
proof -
  have "nat_string 12 = ''12''" by code_simp
  then show ?thesis by (simp add: host_def dotted_net net_def)
qed

text \<open>Property C38. The mesh is complete and its two sides agree. When every node of the cluster is started with the same
  list of nodes (\<open>-u\<close> and their addresses), and finds its own address among its interfaces, each starts exactly one client for
  every other node and none for itself; and the number of connections the server of a node accepts before it goes on is
  exactly the number of clients that all the nodes together start for it.\<close>

theorem full_mesh_matches:
  assumes dist: "distinct (first # rest)" and two: "rest \<noteq> []" and own: "\<forall>k \<in> set (first # rest). has_host k (ifs k)"
  shows "\<exists>services.
    (\<forall>k \<in> set (first # rest). \<exists>d. start_node (ifs k) (prog # ''-u'' # map host (first # rest)) = Ret (services k) d) \<and>
    (\<forall>j \<in> set (first # rest). \<forall>k \<in> set (first # rest). length (filter (connects_to (host k)) (services j)) = (if j = k then 0 else 1)) \<and>
    (\<forall>k \<in> set (first # rest). \<exists>conf. hd (services k) = Server_service conf \<and>
      (\<forall>(S :: 'w sys) fuel (w :: ('w, 'z) ep_world_scheme) this conf' w1 t. ServerTower_new (server_config conf) w = Ret (this, conf') w1 \<longrightarrow>
         server_init_session S fuel this w1 = Ret () t \<longrightarrow>
         (\<exists>s. sessions t this = Some s \<and> is_connected s \<and>
            length (end_point_mgr s) = (\<Sum>j \<in> set (first # rest). length (filter (connects_to (host k)) (services j))))))"
proof -
  let ?N = "host first # map host rest"
  have N: "?N = map host (first # rest)" by simp
  have d: "distinct ?N"
    unfolding N using dist inj_on_subset [OF host_inj subset_UNIV, of "set (first # rest)"] by (simp only: distinct_map)
  have "map host rest \<noteq> []" "\<forall>n \<in> set (map host rest). \<not> (\<exists>s. n = CHR ''-'' # s)"
    using two host_no_dash by auto
  from full_mesh [where 'w = 'w and 'z = 'z, OF d this, of prog] obtain services where
    run: "\<forall>a \<in> set ?N. \<exists>d. mesh_main a (prog # ''-u'' # ?N) = Ret (services a) d"
    and one: "\<forall>a \<in> set ?N. \<forall>b \<in> set ?N. length (filter (connects_to b) (services a)) = (if a = b then 0 else 1)"
    and srv: "\<forall>b \<in> set ?N. \<exists>conf. hd (services b) = Server_service conf \<and>
      (\<forall>(S :: 'w sys) fuel (w :: ('w, 'z) ep_world_scheme) this conf' w1 t. ServerTower_new (server_config conf) w = Ret (this, conf') w1 \<longrightarrow>
         server_init_session S fuel this w1 = Ret () t \<longrightarrow>
         (\<exists>s. sessions t this = Some s \<and> is_connected s \<and>
            length (end_point_mgr s) = (\<Sum>a \<in> set ?N. length (filter (connects_to b) (services a)))))"
    by (elim exE conjE)
  have sum: "(\<Sum>a \<in> set ?N. f a) = (\<Sum>j \<in> set (first # rest). f (host j))" for f :: "string \<Rightarrow> nat"
    unfolding N list.set_map by (rule sum.reindex_cong [OF inj_on_subset [OF host_inj subset_UNIV]]) simp_all
  show ?thesis
  proof (intro exI [of _ "\<lambda>k. services (host k)"] conjI ballI)
    fix k assume k: "k \<in> set (first # rest)"
    then show "\<exists>d. start_node (ifs k) (prog # ''-u'' # map host (first # rest)) = Ret (services (host k)) d"
      using run own start_node_host [of k "ifs k"] by auto
    show "\<exists>conf. hd (services (host k)) = Server_service conf \<and>
      (\<forall>(S :: 'w sys) fuel (w :: ('w, 'z) ep_world_scheme) this conf' w1 t. ServerTower_new (server_config conf) w = Ret (this, conf') w1 \<longrightarrow>
         server_init_session S fuel this w1 = Ret () t \<longrightarrow>
         (\<exists>s. sessions t this = Some s \<and> is_connected s \<and>
            length (end_point_mgr s) = (\<Sum>j \<in> set (first # rest). length (filter (connects_to (host k)) (services (host j))))))"
      using bspec [OF srv, of "host k"] k unfolding sum by auto
  next
    fix j k assume "j \<in> set (first # rest)" "k \<in> set (first # rest)"
    then have "host j \<in> set ?N" "host k \<in> set ?N" by auto
    with one show "length (filter (connects_to (host k)) (services (host j))) = (if j = k then 0 else 1)"
      by (metis inj_eq [OF host_inj])
  qed
qed

theorem full_mesh_matches_witness:
  "\<exists>services. (\<forall>k \<in> {111, 112, 113}.
     \<exists>d. start_node [AF_INET (ipv4 127 0 0 1), AF_INET (ipv4 12 12 12 k)] [''mesh'', ''-u'', host 111, host 112, host 113] = Ret (services k) d) \<and>
     length (filter (connects_to (host 112)) (services 113)) = 1 \<and> filter (connects_to (host 112)) (services 112) = []"
proof -
  let ?ifs = "\<lambda>k. [AF_INET (ipv4 127 0 0 1), AF_INET (ipv4 12 12 12 k)]"
  have "distinct [111, 112, 113 :: nat]" "[112, 113 :: nat] \<noteq> []" "\<forall>k \<in> set [111, 112, 113]. has_host k (?ifs k)"
    by (simp_all add: has_host_def in_net_ipv4)
  from full_mesh_matches [where 'w = lb_state and 'z = unit, OF this, of "''mesh''"] obtain services where
    run: "\<forall>k \<in> set [111, 112, 113]. \<exists>d. start_node (?ifs k) (''mesh'' # ''-u'' # map host [111, 112, 113]) = Ret (services k) d"
    and one: "\<forall>j \<in> set [111, 112, 113]. \<forall>k \<in> set [111, 112, 113]. length (filter (connects_to (host k)) (services j)) = (if j = k then 0 else 1)"
    by blast
  show ?thesis using run one by (intro exI [of _ services] conjI) simp_all
qed

end
